(* ===== verification/Prelude.thy ===== *)
theory Prelude
  imports Main "HOL-Library.Word" "HOL-Library.Sublist" "HOL-Library.AList"
begin

text \<open>
  Shared vocabulary of the development: names for the machine types of the
  C++ sources, the collections of rewrite rules the component theories add to,
  and the generic lemmas on lists, maps, decimal printing and search that
  several components need.  Nothing here models a particular file of the
  repository.
\<close>

section \<open>Machine types\<close>

type_synonym u8 = "8 word"
type_synonym u32 = "32 word"
type_synonym u64 = "64 word"
type_synonym i32 = "32 word"
type_synonym i64 = "64 word"

section \<open>Collections of rules\<close>

named_theorems op_defs "definitions of operations, unfolded when a step is evaluated"
named_theorems inv_rules "preservation of the component invariants, one rule per operation"

section \<open>Lists\<close>

lemma subseq_snocI: "subseq xs ys \<Longrightarrow> subseq (xs @ [x]) (ys @ [x])"
  by (simp add: list_emb_append_mono)

lemma subseq_snoc_right: "subseq xs ys \<Longrightarrow> subseq xs (ys @ [x])"
  by (rule list_emb_prefix)

lemma suffix_snocI: "suffix xs ys \<Longrightarrow> suffix (xs @ [x]) (ys @ [x])"
  by (simp add: suffix_def)

lemma suffix_tlI: "suffix xs ys \<Longrightarrow> suffix (tl xs) ys"
  by (meson suffix_order.trans suffix_tl)

lemma subseq_drop_mid:
  assumes "subseq (xs @ y # zs) ws"
  shows "subseq (xs @ zs) ws"
proof -
  have "subseq (xs @ zs) (xs @ y # zs)" by (intro list_emb_append_mono) auto
  then show ?thesis using assms by (rule subseq_order.trans)
qed

section \<open>Association lists as maps\<close>

lemma alist_delete_set: "set (AList.delete k al) = {p \<in> set al. fst p \<noteq> k}"
  by (auto simp: AList.delete_eq)

lemma alist_delete_keys: "fst ` set (AList.delete k al) = fst ` set al - {k}"
  by (auto simp: alist_delete_set)

lemma alist_update_set:
  "distinct (map fst al) \<Longrightarrow>
   set (AList.update k v al) \<subseteq> insert (k, v) {p \<in> set al. fst p \<noteq> k}"
  by (induction al) (auto split: if_splits simp: image_iff)

lemma alist_update_length:
  "length (AList.update k v al) = (if k \<in> fst ` set al then length al else Suc (length al))"
  by (induction al) auto

lemma map_fst_map_values: "map fst (map (\<lambda>(k, v). (k, f v)) al) = map fst al"
  by (induction al) auto

lemma keys_map_values: "fst ` set (map (\<lambda>(k, v). (k, f v)) al) = fst ` set al"
  by force

section \<open>Words\<close>

lemma word_of_nat_unat_add1: "of_nat (Suc (unat n)) = n + (1 :: 'w::len word)"
  by simp

lemma unat_plus_one:
  fixes n :: "'w::len word"
  assumes "n < m"
  shows "unat (n + 1) = Suc (unat n)"
proof -
  have "Suc (unat n) \<le> unat m" using assms by (simp add: word_less_nat_alt)
  then have "Suc (unat n) < 2 ^ LENGTH('w)" using unsigned_less [of m, where ?'a = nat] by linarith
  then have "unat (of_nat (Suc (unat n)) :: 'w word) = Suc (unat n)"
    by (simp only: unat_of_nat mod_less)
  then show ?thesis by (simp add: add.commute)
qed

lemma unat_word_of_nat:
  "n < 2 ^ LENGTH('w) \<Longrightarrow> unat (of_nat n :: 'w::len word) = n"
  by (simp only: unat_of_nat mod_less)

lemma unat_ucast_small:
  "unat w < 2 ^ LENGTH('b) \<Longrightarrow> unat (ucast w :: 'b::len word) = unat (w :: 'a::len word)"
  by (simp add: unsigned_ucast_eq take_bit_nat_eq_self)

section \<open>Strings of the C++ standard library\<close>

text \<open>std::to_string of an unsigned number: decimal digits without leading zeros.\<close>

definition digit_char :: "nat \<Rightarrow> char" where
  "digit_char d = char_of (48 + d)"

fun show_nat :: "nat \<Rightarrow> string" where
  "show_nat n = (if n < 10 then [digit_char n] else show_nat (n div 10) @ [digit_char (n mod 10)])"

declare show_nat.simps [simp del]

definition is_digit :: "char \<Rightarrow> bool" where
  "is_digit c \<longleftrightarrow> 48 \<le> (of_char c :: nat) \<and> (of_char c :: nat) \<le> 57"

definition digit_val :: "char \<Rightarrow> nat" where
  "digit_val c = of_char c - 48"

lemma digit_char_val [simp]: "d < 10 \<Longrightarrow> digit_val (digit_char d) = d"
  by (simp add: digit_val_def digit_char_def of_char_of)

lemma digit_char_is_digit [simp]: "d < 10 \<Longrightarrow> is_digit (digit_char d)"
  by (simp add: is_digit_def digit_char_def of_char_of)

lemma show_nat_digits: "list_all is_digit (show_nat n)"
proof (induction n rule: show_nat.induct)
  case (1 n)
  then show ?case by (cases "n < 10") (simp_all add: show_nat.simps [of n])
qed

lemma show_nat_nonempty [simp]: "show_nat n \<noteq> []"
  by (simp add: show_nat.simps [of n])

lemma show_nat_value: "foldl (\<lambda>acc c. acc * 10 + digit_val c) 0 (show_nat n) = n"
proof (induction n rule: show_nat.induct)
  case (1 n)
  then show ?case by (cases "n < 10") (simp_all add: show_nat.simps [of n])
qed

lemma show_nat_inj: "show_nat m = show_nat n \<Longrightarrow> m = n"
  by (metis show_nat_value)

text \<open>std::filesystem::path::parent_path on POSIX paths.\<close>

definition drop_trailing :: "(char \<Rightarrow> bool) \<Rightarrow> string \<Rightarrow> string" where
  "drop_trailing P s = rev (dropWhile P (rev s))"

lemma drop_trailing_length: "length (drop_trailing P s) \<le> length s"
  using length_dropWhile_le [of P "rev s"] by (simp add: drop_trailing_def)

definition parent_path :: "string \<Rightarrow> string" where
  "parent_path p =
     (let dir = drop_trailing (\<lambda>c. c \<noteq> CHR ''/'') p;
          stripped = drop_trailing (\<lambda>c. c = CHR ''/'') dir
      in if dir = [] then []
         else if stripped = [] then [CHR ''/''] else stripped)"

lemma drop_trailing_prefix: "prefix (drop_trailing P s) s"
proof -
  have "suffix (dropWhile P (rev s)) (rev s)" by (rule suffix_dropWhile)
  then show ?thesis by (simp add: drop_trailing_def suffix_to_prefix)
qed

lemma drop_trailing_empty: "drop_trailing P s = [] \<longleftrightarrow> (\<forall>c \<in> set s. P c)"
  by (simp add: drop_trailing_def)

lemma parent_path_prefix: "prefix (parent_path p) p"
proof -
  let ?dir = "drop_trailing (\<lambda>c. c \<noteq> CHR ''/'') p"
  let ?str = "drop_trailing (\<lambda>c. c = CHR ''/'') ?dir"
  have A: "prefix ?dir p" and B: "prefix ?str ?dir" by (rule drop_trailing_prefix)+
  consider "?dir = []" | "?dir \<noteq> []" "?str = []" | "?dir \<noteq> []" "?str \<noteq> []" by blast
  then show ?thesis
  proof cases
    case 2
    then obtain rest where "?dir = CHR ''/'' # rest"
      by (cases ?dir) (auto simp: drop_trailing_empty)
    then have "prefix [CHR ''/''] p" using A by (auto simp: prefix_def)
    then show ?thesis using 2 by (simp add: parent_path_def)
  next
    case 3
    then show ?thesis using A B prefix_order.trans by (simp add: parent_path_def)
  qed (simp add: parent_path_def)
qed

lemma parent_path_shorter: "parent_path p \<noteq> p \<Longrightarrow> length (parent_path p) < length p"
  using parent_path_prefix [of p] by (metis prefix_length_prefix prefix_order.antisym not_less prefix_order.order_refl)

text \<open>std::string::rfind of a pattern: the last position it occurs at.\<close>

definition rfind :: "string \<Rightarrow> string \<Rightarrow> nat option" where
  "rfind pat s =
     (case filter (\<lambda>i. prefix pat (drop i s)) [0 ..< Suc (length s)] of
        [] \<Rightarrow> None
      | is \<Rightarrow> Some (last is))"

lemma rfindI:
  assumes "prefix pat (drop i s)" "i \<le> length s"
    "\<And>j. \<lbrakk>i < j; j \<le> length s\<rbrakk> \<Longrightarrow> \<not> prefix pat (drop j s)"
  shows "rfind pat s = Some i"
proof -
  have "[0 ..< Suc (length s)] = [0 ..< i] @ i # [Suc i ..< Suc (length s)]"
    using assms(2) upt_add_eq_append [of 0 i "Suc (length s) - i"] by (simp add: upt_conv_Cons)
  moreover have "filter (\<lambda>i. prefix pat (drop i s)) [Suc i ..< Suc (length s)] = []"
    using assms(3) by (intro filter_False ballI assms(3)) auto
  ultimately have "filter (\<lambda>i. prefix pat (drop i s)) [0 ..< Suc (length s)] =
      filter (\<lambda>i. prefix pat (drop i s)) [0 ..< i] @ [i]"
    using assms(1) by simp
  then show ?thesis by (cases "filter (\<lambda>i. prefix pat (drop i s)) [0 ..< i]") (simp_all add: rfind_def)
qed

text \<open>std::filesystem::path: filename, extension and stem.\<close>

definition path_filename :: "string \<Rightarrow> string" where
  "path_filename p = rev (takeWhile (\<lambda>c. c \<noteq> CHR ''/'') (rev p))"

definition path_dot :: "string \<Rightarrow> nat option" where
  "path_dot p =
     (let f = path_filename p
      in if f = ''.'' \<or> f = ''..'' then None
         else case rfind ''.'' f of Some (Suc i) \<Rightarrow> Some (Suc i) | _ \<Rightarrow> None)"

definition path_extension :: "string \<Rightarrow> string" where
  "path_extension p = (case path_dot p of None \<Rightarrow> [] | Some i \<Rightarrow> drop i (path_filename p))"

definition path_stem :: "string \<Rightarrow> string" where
  "path_stem p =
     (case path_dot p of None \<Rightarrow> path_filename p | Some i \<Rightarrow> take i (path_filename p))"

text \<open>std::string::find from a position.\<close>

definition find_from :: "string \<Rightarrow> string \<Rightarrow> nat \<Rightarrow> nat option" where
  "find_from pat s pos = List.find (\<lambda>i. prefix pat (drop i s)) [pos ..< Suc (length s)]"

lemma find_from_SomeD:
  assumes "find_from pat s pos = Some p"
  shows "pos \<le> p" "p + length pat \<le> length s" "prefix pat (drop p s)"
    "\<And>i. \<lbrakk>pos \<le> i; i < p\<rbrakk> \<Longrightarrow> \<not> prefix pat (drop i s)"
proof -
  obtain k where k: "k < length [pos ..< Suc (length s)]" "p = [pos ..< Suc (length s)] ! k"
    "prefix pat (drop p s)" "\<forall>j < k. \<not> prefix pat (drop ([pos ..< Suc (length s)] ! j) s)"
    using assms by (auto simp: find_from_def find_Some_iff)
  then have p: "p = pos + k" "p \<le> length s" by (auto simp del: upt_Suc)
  show "pos \<le> p" "prefix pat (drop p s)" using p k by simp_all
  show "p + length pat \<le> length s" using prefix_length_le [OF k(3)] p(2) by simp
  fix i assume "pos \<le> i" "i < p"
  then have "i - pos < k" "[pos ..< Suc (length s)] ! (i - pos) = i"
    using p by (auto simp del: upt_Suc)
  then show "\<not> prefix pat (drop i s)" using k(4) by metis
qed

text \<open>Finding the first character of a kind, as \<^verbatim>\<open>find\<close> does for one character.\<close>

lemma prefix_single [simp]: "prefix [c] s \<longleftrightarrow> s \<noteq> [] \<and> hd s = c"
  by (cases s) auto

lemma find_fromI:
  assumes "pos \<le> p" "p \<le> length s" "prefix pat (drop p s)"
    "\<And>i. \<lbrakk>pos \<le> i; i < p\<rbrakk> \<Longrightarrow> \<not> prefix pat (drop i s)"
  shows "find_from pat s pos = Some p"
proof -
  let ?xs = "[pos ..< Suc (length s)]"
  have "p - pos < length ?xs" "?xs ! (p - pos) = p" using assms(1,2) by (auto simp del: upt_Suc)
  moreover have "\<not> prefix pat (drop (?xs ! j) s)" if "j < p - pos" for j
    using that assms by (auto simp del: upt_Suc)
  ultimately show ?thesis using assms(3) unfolding find_from_def find_Some_iff by metis
qed

lemma find_from_NoneI:
  assumes "\<And>i. \<lbrakk>pos \<le> i; i \<le> length s\<rbrakk> \<Longrightarrow> \<not> prefix pat (drop i s)"
  shows "find_from pat s pos = None"
  using assms by (auto simp: find_from_def find_None_iff)

end
