(* ===== verification/Buffers.thy ===== *)
theory Buffers
  imports Prelude
begin

text \<open>
  The frame hand-off buffers: the port IFrameBuffer
  (\<^verbatim>\<open>app/buffer/ports/frame-buffer.hpp\<close>) and its two implementations,
  \<^verbatim>\<open>domain/buffer/services/drop-oldest-ring.hpp\<close> and
  \<^verbatim>\<open>domain/buffer/services/latest-only-slot.hpp\<close>.

  Every public method takes the buffer's mutex for its whole effect, so a method
  is one atomic state transformer.  The only method that releases the mutex half
  way is Pop, inside the condition variable's wait; what other threads do to the
  buffer in those windows is an explicit list of steps.
\<close>

section \<open>Data\<close>

datatype buffer_policy = LatestOnly | DropOldest

record buffer_stats =
  bs_policy :: buffer_policy
  bs_capacity :: nat
  bs_depth :: nat
  bs_pushed :: u64
  bs_popped :: u64
  bs_dropped :: u64

record 'a ring =
  rg_queue :: "'a list"
  rg_capacity :: nat
  rg_closed :: bool
  rg_pushed :: u64
  rg_popped :: u64
  rg_dropped :: u64

record 'a slot =
  sl_slot :: "'a option"
  sl_closed :: bool
  sl_pushed :: u64
  sl_popped :: u64
  sl_dropped :: u64

section \<open>The wait of Pop\<close>

text \<open>
  \<^verbatim>\<open>cv_.wait_for(lock, timeout, pred)\<close>: the predicate is tested under the lock; while
  it is false the lock is released and other threads run.  Each element of the
  list is what the others do before the next test (a spurious wake-up is the
  identity); when the list is used up the time is over and the last test decides.
\<close>

fun wait_for :: "('s \<Rightarrow> bool) \<Rightarrow> ('s \<Rightarrow> 's) list \<Rightarrow> 's \<Rightarrow> bool \<times> 's" where
  "wait_for ready [] s = (ready s, s)"
| "wait_for ready (e # es) s = (if ready s then (True, s) else wait_for ready es (e s))"

section \<open>DropOldestRing\<close>

definition ring_new :: "nat \<Rightarrow> string + 'a ring" where
  "ring_new cap =
     (if cap = 0 then Inl ''DropOldestRing capacity must be > 0''
      else Inr \<lparr>rg_queue = [], rg_capacity = cap, rg_closed = False,
                rg_pushed = 0, rg_popped = 0, rg_dropped = 0\<rparr>)"

definition ring_push :: "'a \<Rightarrow> 'a ring \<Rightarrow> bool \<times> 'a ring" where
  "ring_push v r =
     (if rg_closed r then (False, r\<lparr>rg_dropped := rg_dropped r + 1\<rparr>)
      else
        let clean = \<not> rg_capacity r \<le> length (rg_queue r);
            r1 = (if clean then r
                  else r\<lparr>rg_queue := tl (rg_queue r), rg_dropped := rg_dropped r + 1\<rparr>)
        in (clean, r1\<lparr>rg_queue := rg_queue r1 @ [v], rg_pushed := rg_pushed r1 + 1\<rparr>))"

definition ring_take :: "'a ring \<Rightarrow> 'a option \<times> 'a ring" where
  "ring_take r =
     (case rg_queue r of
        [] \<Rightarrow> (None, r)
      | x # xs \<Rightarrow> (Some x, r\<lparr>rg_queue := xs, rg_popped := rg_popped r + 1\<rparr>))"

definition ring_try_pop :: "'a ring \<Rightarrow> 'a option \<times> 'a ring" where
  "ring_try_pop r = ring_take r"

definition ring_ready :: "'a ring \<Rightarrow> bool" where
  "ring_ready r \<longleftrightarrow> rg_queue r \<noteq> [] \<or> rg_closed r"

definition ring_pop :: "('a ring \<Rightarrow> 'a ring) list \<Rightarrow> 'a ring \<Rightarrow> 'a option \<times> 'a ring" where
  "ring_pop others r =
     (case wait_for ring_ready others r of
        (False, r1) \<Rightarrow> (None, r1)
      | (True, r1) \<Rightarrow> ring_take r1)"

definition ring_close :: "'a ring \<Rightarrow> 'a ring" where
  "ring_close r = r\<lparr>rg_closed := True\<rparr>"

definition ring_stats :: "'a ring \<Rightarrow> buffer_stats" where
  "ring_stats r =
     \<lparr>bs_policy = DropOldest, bs_capacity = rg_capacity r, bs_depth = length (rg_queue r),
      bs_pushed = rg_pushed r, bs_popped = rg_popped r, bs_dropped = rg_dropped r\<rparr>"

section \<open>LatestOnlySlot\<close>

definition slot_new :: "'a slot" where
  "slot_new = \<lparr>sl_slot = None, sl_closed = False, sl_pushed = 0, sl_popped = 0, sl_dropped = 0\<rparr>"

definition slot_push :: "'a \<Rightarrow> 'a slot \<Rightarrow> bool \<times> 'a slot" where
  "slot_push v s =
     (if sl_closed s then (False, s\<lparr>sl_dropped := sl_dropped s + 1\<rparr>)
      else
        let occupied = sl_slot s \<noteq> None;
            s1 = (if occupied then s\<lparr>sl_dropped := sl_dropped s + 1\<rparr> else s)
        in (\<not> occupied, s1\<lparr>sl_slot := Some v, sl_pushed := sl_pushed s1 + 1\<rparr>))"

definition slot_take :: "'a slot \<Rightarrow> 'a option \<times> 'a slot" where
  "slot_take s =
     (case sl_slot s of
        None \<Rightarrow> (None, s)
      | Some x \<Rightarrow> (Some x, s\<lparr>sl_slot := None, sl_popped := sl_popped s + 1\<rparr>))"

definition slot_try_pop :: "'a slot \<Rightarrow> 'a option \<times> 'a slot" where
  "slot_try_pop s = slot_take s"

definition slot_ready :: "'a slot \<Rightarrow> bool" where
  "slot_ready s \<longleftrightarrow> sl_slot s \<noteq> None \<or> sl_closed s"

definition slot_pop :: "('a slot \<Rightarrow> 'a slot) list \<Rightarrow> 'a slot \<Rightarrow> 'a option \<times> 'a slot" where
  "slot_pop others s =
     (case wait_for slot_ready others s of
        (False, s1) \<Rightarrow> (None, s1)
      | (True, s1) \<Rightarrow> slot_take s1)"

definition slot_close :: "'a slot \<Rightarrow> 'a slot" where
  "slot_close s = s\<lparr>sl_closed := True\<rparr>"

definition slot_stats :: "'a slot \<Rightarrow> buffer_stats" where
  "slot_stats s =
     \<lparr>bs_policy = LatestOnly, bs_capacity = 1, bs_depth = (if sl_slot s \<noteq> None then 1 else 0),
      bs_pushed = sl_pushed s, bs_popped = sl_popped s, bs_dropped = sl_dropped s\<rparr>"

lemmas ring_defs = ring_push_def ring_take_def ring_try_pop_def ring_ready_def ring_close_def
  ring_stats_def

lemmas slot_defs = slot_push_def slot_take_def slot_try_pop_def slot_ready_def slot_close_def
  slot_stats_def

section \<open>Sequences of operations\<close>

text \<open>
  A history of a buffer: the atomic operations of all threads in the order in which
  they took the mutex.  The result is the list of values handed to consumers and
  the buffer at the end.
\<close>

datatype 'a buf_op = OpPush 'a | OpTryPop | OpClose

fun buf_run ::
  "('a \<Rightarrow> 's \<Rightarrow> bool \<times> 's) \<Rightarrow> ('s \<Rightarrow> 'a option \<times> 's) \<Rightarrow> ('s \<Rightarrow> 's) \<Rightarrow>
   'a buf_op list \<Rightarrow> 's \<Rightarrow> 'a list \<times> 's" where
  "buf_run push pop close [] s = ([], s)"
| "buf_run push pop close (OpPush v # ops) s = buf_run push pop close ops (snd (push v s))"
| "buf_run push pop close (OpTryPop # ops) s =
     (case pop s of (out, s1) \<Rightarrow>
        case buf_run push pop close ops s1 of (outs, s2) \<Rightarrow>
          ((case out of None \<Rightarrow> outs | Some v \<Rightarrow> v # outs), s2))"
| "buf_run push pop close (OpClose # ops) s = buf_run push pop close ops (close s)"

text \<open>The values offered, and those offered while the buffer was open.\<close>

fun offered :: "'a buf_op list \<Rightarrow> 'a list" where
  "offered [] = []"
| "offered (OpPush v # ops) = v # offered ops"
| "offered (_ # ops) = offered ops"

fun accepted :: "'a buf_op list \<Rightarrow> 'a list" where
  "accepted [] = []"
| "accepted (OpPush v # ops) = v # accepted ops"
| "accepted (OpTryPop # ops) = accepted ops"
| "accepted (OpClose # ops) = []"

lemma buf_ops_induct [case_names Nil Push Pop Close]:
  assumes "P []" "\<And>v ops. P ops \<Longrightarrow> P (OpPush v # ops)"
    "\<And>ops. P ops \<Longrightarrow> P (OpTryPop # ops)" "\<And>ops. P ops \<Longrightarrow> P (OpClose # ops)"
  shows "P ops"
proof (induction ops)
  case (Cons op ops)
  then show ?case using assms by (cases op) auto
qed (rule assms)

section \<open>The contract of IFrameBuffer\<close>

locale frame_buffer =
  fixes push :: "'a \<Rightarrow> 's \<Rightarrow> bool \<times> 's"
    and pop :: "'s \<Rightarrow> 'a option \<times> 's"
    and close :: "'s \<Rightarrow> 's"
    and stats :: "'s \<Rightarrow> buffer_stats"
    and contents :: "'s \<Rightarrow> 'a list"
    and capacity :: "'s \<Rightarrow> nat"
    and closed :: "'s \<Rightarrow> bool"
    and inv :: "'s \<Rightarrow> bool"
  assumes inv_bound: "inv s \<Longrightarrow> 0 < capacity s \<and> length (contents s) \<le> capacity s"
    and inv_push: "inv s \<Longrightarrow> inv (snd (push v s))"
    and inv_pop: "inv s \<Longrightarrow> inv (snd (pop s))"
    and inv_close: "inv s \<Longrightarrow> inv (close s)"
    and capacity_keep: "capacity (snd (push v s)) = capacity s"
      "capacity (snd (pop s)) = capacity s" "capacity (close s) = capacity s"
    and closed_keep: "closed (snd (push v s)) = closed s"
      "closed (snd (pop s)) = closed s" "closed (close s)"
    and push_closed: "closed s \<Longrightarrow> contents (snd (push v s)) = contents s"
    and push_open: "\<lbrakk>inv s; \<not> closed s\<rbrakk> \<Longrightarrow>
      contents (snd (push v s)) =
        (if length (contents s) < capacity s then contents s else tl (contents s)) @ [v]"
    and push_result: "inv s \<Longrightarrow>
      fst (push v s) = (\<not> closed s \<and> length (contents s) < capacity s)"
    and pop_result: "fst (pop s) = (if contents s = [] then None else Some (hd (contents s)))"
    and pop_contents: "contents (snd (pop s)) = tl (contents s)"
    and close_contents: "contents (close s) = contents s"
    and stats_push: "bs_pushed (stats (snd (push v s))) =
        bs_pushed (stats s) + (if closed s then 0 else 1)"
      "bs_popped (stats (snd (push v s))) = bs_popped (stats s)"
    and stats_pop: "bs_pushed (stats (snd (pop s))) = bs_pushed (stats s)"
      "bs_popped (stats (snd (pop s))) =
        bs_popped (stats s) + (if contents s = [] then 0 else 1)"
      "bs_dropped (stats (snd (pop s))) = bs_dropped (stats s)"
    and stats_dropped: "inv s \<Longrightarrow> bs_dropped (stats (snd (push v s))) =
        bs_dropped (stats s) + (if fst (push v s) then 0 else 1)"
    and stats_close: "stats (close s) = stats s"
    and stats_depth: "bs_depth (stats s) = length (contents s)"
      "bs_capacity (stats s) = capacity s"
begin

abbreviation run :: "'a buf_op list \<Rightarrow> 's \<Rightarrow> 'a list \<times> 's" where
  "run \<equiv> buf_run push pop close"

lemma run_inv: "inv s \<Longrightarrow> inv (snd (run ops s))"
  by (induction ops arbitrary: s rule: buf_ops_induct)
     (auto simp: inv_push inv_close split: prod.splits, metis inv_pop snd_conv)

lemma run_capacity: "capacity (snd (run ops s)) = capacity s"
  by (induction ops arbitrary: s rule: buf_ops_induct)
     (auto simp: capacity_keep split: prod.splits, metis capacity_keep(2) snd_conv)

lemma run_depth: "inv s \<Longrightarrow> length (contents (snd (run ops s))) \<le> capacity s"
  using run_inv [of s ops] inv_bound run_capacity by metis

text \<open>
  Once closed, the buffer only drains: consumers get a prefix of what was left.
\<close>

lemma run_closed:
  "closed s \<Longrightarrow> fst (run ops s) @ contents (snd (run ops s)) = contents s"
proof (induction ops arbitrary: s rule: buf_ops_induct)
  case (Pop ops)
  obtain out s1 where P: "pop s = (out, s1)" by fastforce
  have "closed s1" using Pop(2) closed_keep(2) [of s] P by simp
  then have IH: "fst (run ops s1) @ contents (snd (run ops s1)) = contents s1" by (rule Pop(1))
  have "out = (if contents s = [] then None else Some (hd (contents s)))"
    "contents s1 = tl (contents s)"
    using pop_result [of s] pop_contents [of s] P by auto
  then show ?case using IH P by (cases "contents s") (auto split: prod.splits)
qed (simp_all add: closed_keep push_closed close_contents)

text \<open>
  Whatever the interleaving: what was delivered, followed by what is still stored,
  is an order preserving selection of what was there plus what was accepted, and the
  stored part is the newest.
\<close>

lemma run_selection:
  "inv s \<Longrightarrow> \<not> closed s \<Longrightarrow>
   subseq (fst (run ops s) @ contents (snd (run ops s))) (contents s @ accepted ops)"
proof (induction ops arbitrary: s rule: buf_ops_induct)
  case (Push v ops)
  let ?s = "snd (push v s)"
  have IH: "subseq (fst (run ops ?s) @ contents (snd (run ops ?s))) (contents ?s @ accepted ops)"
    using Push by (simp add: inv_push closed_keep)
  have "subseq (contents ?s) (contents s @ [v])"
    using Push push_open [of s v]
    by (cases "contents s") (auto intro!: list_emb_append_mono)
  then have "subseq (contents ?s @ accepted ops) ((contents s @ [v]) @ accepted ops)"
    by (intro list_emb_append_mono) auto
  then show ?case using IH subseq_order.trans by fastforce
next
  case (Pop ops)
  obtain out s1 where P: "pop s = (out, s1)" by fastforce
  have IH: "subseq (fst (run ops s1) @ contents (snd (run ops s1))) (contents s1 @ accepted ops)"
    using Pop P closed_keep(2) [of s] inv_pop [of s] by simp
  have "out = (if contents s = [] then None else Some (hd (contents s)))"
    "contents s1 = tl (contents s)"
    using pop_result [of s] pop_contents [of s] P by auto
  then show ?case using IH P by (cases "contents s") (auto split: prod.splits)
next
  case (Close ops)
  then show ?case using run_closed [of "close s" ops] by (simp add: closed_keep close_contents)
qed simp

lemma run_newest:
  "inv s \<Longrightarrow> \<not> closed s \<Longrightarrow> suffix (contents (snd (run ops s))) (contents s @ accepted ops)"
proof (induction ops arbitrary: s rule: buf_ops_induct)
  case (Push v ops)
  let ?s = "snd (push v s)"
  have IH: "suffix (contents (snd (run ops ?s))) (contents ?s @ accepted ops)"
    using Push by (simp add: inv_push closed_keep)
  have "suffix (contents ?s @ accepted ops) ((contents s @ [v]) @ accepted ops)"
    using Push push_open [of s v] by (cases "contents s") (auto simp: suffix_def)
  then show ?case using IH suffix_order.trans by fastforce
next
  case (Pop ops)
  obtain out s1 where P: "pop s = (out, s1)" by fastforce
  have "suffix (contents (snd (run ops s1))) (contents s1 @ accepted ops)"
    using Pop P closed_keep(2) [of s] inv_pop [of s] by simp
  moreover have "contents s1 = tl (contents s)" using pop_contents [of s] P by simp
  ultimately show ?case
    using P by (cases "contents s") (auto split: prod.splits intro: suffix_ConsI)
next
  case (Close ops)
  then show ?case using run_closed [of "close s" ops]
    by (simp add: closed_keep close_contents suffix_def) (metis)
qed simp

text \<open>
  Conservation, in the wrapping 64-bit counters: every value ever offered is delivered,
  dropped or still stored.
\<close>

lemma run_conservation:
  assumes "inv s"
  shows "bs_popped (stats (snd (run ops s))) + bs_dropped (stats (snd (run ops s)))
           + of_nat (bs_depth (stats (snd (run ops s)))) =
         bs_popped (stats s) + bs_dropped (stats s) + of_nat (bs_depth (stats s))
           + of_nat (length (offered ops))"
  using assms
proof (induction ops arbitrary: s rule: buf_ops_induct)
  case (Push v ops)
  have "bs_popped (stats (snd (push v s))) + bs_dropped (stats (snd (push v s)))
           + of_nat (bs_depth (stats (snd (push v s)))) =
        bs_popped (stats s) + bs_dropped (stats s) + of_nat (bs_depth (stats s)) + 1"
  proof (cases "closed s")
    case True
    then show ?thesis
      using Push push_result [of s v] push_closed [of s v]
      by (simp add: stats_push stats_dropped stats_depth)
  next
    case False
    then show ?thesis
      using Push inv_bound [of s] push_result [of s v] push_open [of s v]
      by (cases "contents s") (auto simp: stats_push stats_dropped stats_depth)
  qed
  then show ?case using Push inv_push [of s v] by simp
next
  case (Pop ops)
  obtain out s1 where P: "pop s = (out, s1)" by fastforce
  have "bs_popped (stats s1) + bs_dropped (stats s1) + of_nat (bs_depth (stats s1)) =
        bs_popped (stats s) + bs_dropped (stats s) + of_nat (bs_depth (stats s))"
    using stats_pop [of s] pop_contents [of s] P
    by (cases "contents s") (auto simp: stats_depth)
  moreover have "inv s1" using inv_pop [of s] Pop P by simp
  ultimately show ?case using Pop(1) [of s1] P by (auto split: prod.splits)
qed (simp_all add: inv_close stats_close)

end

section \<open>Both buffers meet the contract\<close>

definition ring_inv :: "'a ring \<Rightarrow> bool" where
  "ring_inv r \<longleftrightarrow> 0 < rg_capacity r \<and> length (rg_queue r) \<le> rg_capacity r"

lemma ring_new_inv: "ring_new cap = Inr r \<Longrightarrow>
    ring_inv r \<and> rg_queue r = [] \<and> rg_capacity r = cap \<and> \<not> rg_closed r \<and>
    rg_pushed r = 0 \<and> rg_popped r = 0 \<and> rg_dropped r = 0"
  by (auto simp: ring_new_def ring_inv_def split: if_splits)

interpretation rb: frame_buffer ring_push ring_try_pop ring_close ring_stats
    rg_queue rg_capacity rg_closed ring_inv
  by unfold_locales
     (auto simp: ring_defs ring_inv_def Let_def split: list.splits)

interpretation sb: frame_buffer slot_push slot_try_pop slot_close slot_stats
    "\<lambda>s. case sl_slot s of None \<Rightarrow> [] | Some x \<Rightarrow> [x]" "\<lambda>_. 1" sl_closed "\<lambda>_. True"
  by unfold_locales
     (auto simp: slot_defs Let_def split: option.splits)

abbreviation ring_run :: "'a buf_op list \<Rightarrow> 'a ring \<Rightarrow> 'a list \<times> 'a ring" where
  "ring_run \<equiv> buf_run ring_push ring_try_pop ring_close"

abbreviation slot_run :: "'a buf_op list \<Rightarrow> 'a slot \<Rightarrow> 'a list \<times> 'a slot" where
  "slot_run \<equiv> buf_run slot_push slot_try_pop slot_close"

section \<open>The slot is the ring of capacity one\<close>

definition slot_ring :: "'a slot \<Rightarrow> 'a ring" where
  "slot_ring s =
     \<lparr>rg_queue = (case sl_slot s of None \<Rightarrow> [] | Some x \<Rightarrow> [x]), rg_capacity = 1,
      rg_closed = sl_closed s, rg_pushed = sl_pushed s, rg_popped = sl_popped s,
      rg_dropped = sl_dropped s\<rparr>"

lemma slot_ring_push: "map_prod id slot_ring (slot_push v s) = ring_push v (slot_ring s)"
  by (auto simp: slot_ring_def slot_defs ring_defs Let_def split: option.splits)

lemma slot_ring_take: "map_prod id slot_ring (slot_try_pop s) = ring_try_pop (slot_ring s)"
  by (auto simp: slot_ring_def slot_defs ring_defs split: option.splits)

lemma slot_ring_close: "slot_ring (slot_close s) = ring_close (slot_ring s)"
  by (simp add: slot_ring_def slot_defs ring_defs)

lemma slot_ring_run: "map_prod id slot_ring (slot_run ops s) = ring_run ops (slot_ring s)"
proof (induction ops arbitrary: s rule: buf_ops_induct)
  case (Push v ops)
  show ?case using Push [of "snd (slot_push v s)"] slot_ring_push [of v s]
    by (metis buf_run.simps(2) snd_map_prod)
next
  case (Pop ops)
  obtain out s1 where P: "slot_try_pop s = (out, s1)" by fastforce
  then have "ring_try_pop (slot_ring s) = (out, slot_ring s1)"
    using slot_ring_take [of s] by simp
  then show ?case using Pop [of s1] P
    by (cases "slot_run ops s1") (auto split: prod.splits)
qed (simp_all add: slot_ring_close)

section \<open>The waiting Pop\<close>

definition after_steps :: "('s \<Rightarrow> 's) list \<Rightarrow> 's \<Rightarrow> nat \<Rightarrow> 's" where
  "after_steps es s k = fold (\<lambda>e. e) (take k es) s"

lemma after_steps_simps [simp]:
  "after_steps es s 0 = s"
  "after_steps (e # es) s (Suc k) = after_steps es (e s) k"
  by (simp_all add: after_steps_def)

lemma wait_for_first:
  "wait_for ready es s =
     (if \<exists>k \<le> length es. ready (after_steps es s k)
      then (True, after_steps es s (LEAST k. ready (after_steps es s k)))
      else (False, after_steps es s (length es)))"
proof (induction es arbitrary: s)
  case (Cons e es)
  show ?case
  proof (cases "ready s")
    case True
    then have "(LEAST k. ready (after_steps (e # es) s k)) = 0" by (intro Least_equality) auto
    then show ?thesis using True by (auto intro!: exI [of _ 0])
  next
    case F: False
    have shift: "(\<exists>k \<le> length (e # es). ready (after_steps (e # es) s k)) \<longleftrightarrow>
        (\<exists>k \<le> length es. ready (after_steps es (e s) k))" (is "?L \<longleftrightarrow> ?R")
    proof
      assume ?L
      then obtain k where k: "k \<le> length (e # es)" "ready (after_steps (e # es) s k)" by blast
      then show ?R using F by (cases k) auto
    next
      assume ?R
      then obtain k where "k \<le> length es" "ready (after_steps es (e s) k)" by blast
      then show ?L by (intro exI [of _ "Suc k"]) simp
    qed
    have least: "(LEAST k. ready (after_steps (e # es) s k)) =
        Suc (LEAST k. ready (after_steps es (e s) k))" if "\<exists>k \<le> length es. ready (after_steps es (e s) k)"
    proof -
      from that obtain k where "ready (after_steps (e # es) s (Suc k))" by auto
      then show ?thesis using F
        by (subst Least_Suc [of _ "Suc k"]) auto
    qed
    show ?thesis using F Cons [of "e s"] shift least by simp
  qed
qed (auto intro!: arg_cong [of _ _ "after_steps [] s"] Least_equality simp: after_steps_def)

section \<open>Properties\<close>

text \<open>C19: however the producer's pushes, the consumer's pops and Close interleave, what a fresh
  DropOldestRing has handed out followed by what it still stores is an order preserving
  selection of the values pushed before Close, the stored part is exactly the newest of
  them, and it never exceeds the capacity.\<close>

theorem ring_history:
  assumes "ring_new cap = Inr r0"
  shows "let (outs, r) = ring_run ops r0
         in subseq (outs @ rg_queue r) (accepted ops) \<and> suffix (rg_queue r) (accepted ops) \<and>
            length (rg_queue r) \<le> cap"
  using ring_new_inv [OF assms] rb.run_selection [of r0 ops] rb.run_newest [of r0 ops]
    rb.run_depth [of r0 ops]
  by (simp add: split_beta)

theorem ring_history_witness:
  "let (outs, r) = ring_run [OpPush (1::nat), OpPush 2, OpTryPop, OpPush 3, OpPush 4, OpClose, OpPush 5]
         \<lparr>rg_queue = [], rg_capacity = 2, rg_closed = False, rg_pushed = 0, rg_popped = 0,
          rg_dropped = 0\<rparr>
   in subseq (outs @ rg_queue r) [1, 2, 3, 4] \<and> suffix (rg_queue r) [1, 2, 3, 4] \<and>
      length (rg_queue r) \<le> 2"
  using ring_history [of 2 "\<lparr>rg_queue = [], rg_capacity = 2, rg_closed = False, rg_pushed = 0,
      rg_popped = 0, rg_dropped = 0\<rparr>"
      "[OpPush (1::nat), OpPush 2, OpTryPop, OpPush 3, OpPush 4, OpClose, OpPush 5]"]
  by (simp add: ring_new_def)

text \<open>no value is lost without being counted: in both buffers and after any history from
  an empty buffer, delivered + dropped + stored equals the number of values offered (in
  the wrapping 64-bit counters that Stats reports).\<close>

theorem buffer_conservation:
  "(case ring_new cap of
      Inl _ \<Rightarrow> cap = 0
    | Inr r0 \<Rightarrow>
        let st = ring_stats (snd (ring_run ops r0))
        in bs_popped st + bs_dropped st + of_nat (bs_depth st) = of_nat (length (offered ops))) \<and>
   (let st = slot_stats (snd (slot_run ops slot_new))
    in bs_popped st + bs_dropped st + of_nat (bs_depth st) = of_nat (length (offered ops)))"
proof (cases "ring_new cap :: string + 'a ring")
  case (Inl e)
  then show ?thesis
    using sb.run_conservation [of ops slot_new]
    by (simp add: Let_def ring_new_def slot_new_def slot_stats_def split: if_splits)
next
  case (Inr r0)
  note n = ring_new_inv [OF Inr]
  show ?thesis
    using Inr n rb.run_conservation [of r0 ops] sb.run_conservation [of ops slot_new]
    by (simp add: Let_def) (simp add: ring_stats_def slot_new_def slot_stats_def)
qed

text \<open>LatestOnlySlot behaves in every history exactly as a DropOldestRing of capacity one:
  the same deliveries, the same final contents, flags and counters.\<close>

theorem slot_refines_ring:
  "map_prod id slot_ring (slot_run ops slot_new) = ring_run ops (slot_ring slot_new) \<and>
   ring_new 1 = Inr (slot_ring (slot_new :: 'b slot)) \<and>
   (\<forall>s :: 'c slot. slot_stats s = (ring_stats (slot_ring s))\<lparr>bs_policy := LatestOnly\<rparr>)"
  using slot_ring_run [of ops slot_new]
  by (auto simp: ring_new_def slot_new_def slot_ring_def slot_stats_def ring_stats_def
      split: option.splits)

text \<open>the waiting Pop takes the oldest value at the first moment the buffer is non-empty or
  closed, and gives up only if that never happened before the timeout: an empty result means
  a timeout with nothing stored, or a closed and drained buffer.\<close>

theorem ring_pop_waits:
  "ring_pop others r =
     (if \<exists>k \<le> length others. ring_ready (after_steps others r k)
      then let r1 = after_steps others r (LEAST k. ring_ready (after_steps others r k))
           in case rg_queue r1 of
                [] \<Rightarrow> (None, r1\<lparr>rg_closed := True\<rparr>)
              | x # xs \<Rightarrow> (Some x, r1\<lparr>rg_queue := xs, rg_popped := rg_popped r1 + 1\<rparr>)
      else (None, after_steps others r (length others)))"
proof (cases "\<exists>k \<le> length others. ring_ready (after_steps others r k)")
  case True
  let ?r1 = "after_steps others r (LEAST k. ring_ready (after_steps others r k))"
  from True have "ring_ready ?r1" by (auto intro: LeastI)
  then show ?thesis using True
    by (auto simp: ring_pop_def wait_for_first Let_def ring_take_def ring_ready_def
        split: list.splits)
next
  case False
  then show ?thesis unfolding ring_pop_def wait_for_first if_not_P [OF False] by simp
qed

end
