(* ===== verification/Chunks.thy ===== *)
theory Chunks
  imports Prelude
begin

text \<open>
  Framing of the BLE control channel: \<^verbatim>\<open>adapters/control/ble/bluez/chunk-assembler.{hpp,cpp}\<close>
  and \<^verbatim>\<open>app/control/services/chunk-ack/chunk-ack.hpp\<close>.  The protobuf classes ChunkedPayload
  and ChunkAck are generated from a submodule; they are represented by the fields the code
  reads and writes.  The two hash maps are association lists (size, find, emplace, erase), the
  insertion order list is a list.  The send callback of an outbound transfer is the flag that
  it is non-null; the chunks handed to it are returned.
\<close>

section \<open>Messages and state\<close>

record chunked_payload =
  cp_corr :: string
  cp_index :: u32
  cp_total :: u32
  cp_data :: string

record chunk_ack =
  ca_corr :: string
  ca_index :: u32

definition kChunkAckTotalChunks :: u32 where
  "kChunkAckTotalChunks = 0"

definition build_inbound_ack :: "string \<Rightarrow> u32 \<Rightarrow> chunk_ack" where
  "build_inbound_ack corr index = \<lparr>ca_corr = corr, ca_index = index\<rparr>"

record chunk_cfg =
  max_chunk_payload_bytes :: u64
  max_inflight_inbound :: nat
  max_total_chunks :: u32

definition default_chunk_cfg :: chunk_cfg where
  "default_chunk_cfg =
     \<lparr>max_chunk_payload_bytes = 400, max_inflight_inbound = 16, max_total_chunks = 8192\<rparr>"

record offer_result =
  of_accepted :: bool
  of_payload :: "string option"

record inbound_state =
  is_total :: u32
  is_received :: u32
  is_parts :: "string list"
  is_have :: "bool list"

record outbound_state =
  os_chunks :: "chunked_payload list"
  os_next :: u32
  os_send :: bool

record assembler =
  as_inbound :: "(string \<times> inbound_state) list"
  as_order :: "string list"
  as_outbound :: "(string \<times> outbound_state) list"

definition assembler_new :: assembler where
  "assembler_new = \<lparr>as_inbound = [], as_order = [], as_outbound = []\<rparr>"

definition inflight_inbound_count :: "assembler \<Rightarrow> nat" where
  "inflight_inbound_count s = length (as_inbound s)"

definition pending_outbound_count :: "assembler \<Rightarrow> nat" where
  "pending_outbound_count s = length (as_outbound s)"

section \<open>Inbound: reassembly\<close>

fun evict_oldest ::
  "nat \<Rightarrow> (string \<times> inbound_state) list \<Rightarrow> string list \<Rightarrow>
   (string \<times> inbound_state) list \<times> string list" where
  "evict_oldest cap inb [] = (inb, [])"
| "evict_oldest cap inb (victim # order) =
     (if cap \<le> length inb then evict_oldest cap (AList.delete victim inb) order
      else (inb, victim # order))"

definition fresh_inbound :: "u32 \<Rightarrow> inbound_state" where
  "fresh_inbound tot =
     \<lparr>is_total = tot, is_received = 0, is_parts = replicate (unat tot) '''',
      is_have = replicate (unat tot) False\<rparr>"

text \<open>The entry for the chunk's correlation id, created (after eviction) or reset first.\<close>

definition open_inbound :: "chunk_cfg \<Rightarrow> string \<Rightarrow> u32 \<Rightarrow> assembler \<Rightarrow> inbound_state \<times> assembler" where
  "open_inbound cfg corr tot s =
     (case map_of (as_inbound s) corr of
        None \<Rightarrow>
          (case evict_oldest (max_inflight_inbound cfg) (as_inbound s) (as_order s) of
             (inb, order) \<Rightarrow>
               (fresh_inbound tot,
                s\<lparr>as_inbound := (corr, fresh_inbound tot) # inb, as_order := order @ [corr]\<rparr>))
      | Some st \<Rightarrow>
          if is_total st \<noteq> tot
          then (fresh_inbound tot,
                s\<lparr>as_inbound := AList.update corr (fresh_inbound tot) (as_inbound s)\<rparr>)
          else (st, s))"

definition store_chunk :: "inbound_state \<Rightarrow> chunked_payload \<Rightarrow> inbound_state" where
  "store_chunk st c =
     st\<lparr>is_parts := (is_parts st)[unat (cp_index c) := cp_data c],
        is_have := (is_have st)[unat (cp_index c) := True],
        is_received := is_received st + 1\<rparr>"

definition offer_inbound :: "chunk_cfg \<Rightarrow> chunked_payload \<Rightarrow> assembler \<Rightarrow> offer_result \<times> assembler" where
  "offer_inbound cfg c s =
     (if cp_total c = 0 \<or> max_total_chunks cfg < cp_total c
      then (\<lparr>of_accepted = False, of_payload = None\<rparr>, s)
      else if cp_total c \<le> cp_index c
      then (\<lparr>of_accepted = False, of_payload = None\<rparr>, s)
      else if cp_total c = 1
      then (\<lparr>of_accepted = True, of_payload = Some (cp_data c)\<rparr>, s)
      else
        case open_inbound cfg (cp_corr c) (cp_total c) s of (st, s1) \<Rightarrow>
          if is_have st ! unat (cp_index c)
          then (\<lparr>of_accepted = True, of_payload = None\<rparr>, s1)
          else
            let st1 = store_chunk st c
            in if is_received st1 < is_total st1
               then (\<lparr>of_accepted = True, of_payload = None\<rparr>,
                     s1\<lparr>as_inbound := AList.update (cp_corr c) st1 (as_inbound s1)\<rparr>)
               else (\<lparr>of_accepted = True, of_payload = Some (concat (is_parts st1))\<rparr>,
                     s1\<lparr>as_inbound := AList.delete (cp_corr c) (as_inbound s1),
                        as_order := removeAll (cp_corr c) (as_order s1)\<rparr>))"

section \<open>Outbound: flow control by acknowledgements\<close>

definition chunk_size_of :: "chunk_cfg \<Rightarrow> u64" where
  "chunk_size_of cfg = max (max_chunk_payload_bytes cfg) 1"

definition total_chunks_of :: "chunk_cfg \<Rightarrow> string \<Rightarrow> u32" where
  "total_chunks_of cfg data =
     (if data = [] then 1
      else ucast ((of_nat (length data) + chunk_size_of cfg - 1) div chunk_size_of cfg))"

definition make_chunk :: "chunk_cfg \<Rightarrow> string \<Rightarrow> string \<Rightarrow> nat \<Rightarrow> chunked_payload" where
  "make_chunk cfg corr data i =
     \<lparr>cp_corr = corr, cp_index = of_nat i, cp_total = total_chunks_of cfg data,
      cp_data = take (unat (chunk_size_of cfg)) (drop (i * unat (chunk_size_of cfg)) data)\<rparr>"

definition make_chunks :: "chunk_cfg \<Rightarrow> string \<Rightarrow> string \<Rightarrow> chunked_payload list" where
  "make_chunks cfg corr data =
     map (make_chunk cfg corr data) [0 ..< unat (total_chunks_of cfg data)]"

text \<open>The result is the chunks sent, the total and the new state; None when the total wraps to
  zero and \<^verbatim>\<open>chunks[0]\<close> reads past the vector.\<close>

definition begin_outbound ::
  "chunk_cfg \<Rightarrow> string \<Rightarrow> string \<Rightarrow> bool \<Rightarrow> assembler \<Rightarrow>
   (chunked_payload list \<times> u32 \<times> assembler) option" where
  "begin_outbound cfg corr data send s =
     (case make_chunks cfg corr data of
        [] \<Rightarrow> None
      | c # cs \<Rightarrow>
          Some (if send then [c] else [],
                total_chunks_of cfg data,
                if 1 < total_chunks_of cfg data
                then s\<lparr>as_outbound :=
                         AList.update corr \<lparr>os_chunks = c # cs, os_next = 1, os_send = send\<rparr>
                           (as_outbound s)\<rparr>
                else s))"

definition on_ack :: "string \<Rightarrow> u32 \<Rightarrow> assembler \<Rightarrow> bool \<times> chunked_payload list \<times> assembler" where
  "on_ack corr index s =
     (case map_of (as_outbound s) corr of
        None \<Rightarrow> (False, [], s)
      | Some st \<Rightarrow>
          if index \<noteq> os_next st - 1 then (False, [], s)
          else if os_next st < of_nat (length (os_chunks st))
          then (False,
                if os_send st then [os_chunks st ! unat (os_next st)] else [],
                s\<lparr>as_outbound :=
                    AList.update corr (st\<lparr>os_next := os_next st + 1\<rparr>) (as_outbound s)\<rparr>)
          else (True, [], s\<lparr>as_outbound := AList.delete corr (as_outbound s)\<rparr>))"

definition assembler_reset :: "assembler \<Rightarrow> assembler" where
  "assembler_reset s = s\<lparr>as_inbound := [], as_order := [], as_outbound := []\<rparr>"

section \<open>Invariant\<close>

definition inbound_ok :: "chunk_cfg \<Rightarrow> inbound_state \<Rightarrow> bool" where
  "inbound_ok cfg st \<longleftrightarrow>
     1 < is_total st \<and> is_total st \<le> max_total_chunks cfg \<and>
     length (is_parts st) = unat (is_total st) \<and> length (is_have st) = unat (is_total st) \<and>
     unat (is_received st) = length (filter id (is_have st)) \<and> is_received st < is_total st"

definition outbound_ok :: "outbound_state \<Rightarrow> bool" where
  "outbound_ok st \<longleftrightarrow>
     1 < length (os_chunks st) \<and> length (os_chunks st) < 2 ^ 32 \<and>
     1 \<le> unat (os_next st) \<and> unat (os_next st) \<le> length (os_chunks st)"

definition assembler_inv :: "chunk_cfg \<Rightarrow> assembler \<Rightarrow> bool" where
  "assembler_inv cfg s \<longleftrightarrow>
     distinct (map fst (as_inbound s)) \<and> distinct (as_order s) \<and>
     set (as_order s) = fst ` set (as_inbound s) \<and>
     length (as_inbound s) \<le> max 1 (max_inflight_inbound cfg) \<and>
     (\<forall>(k, st) \<in> set (as_inbound s). inbound_ok cfg st) \<and>
     distinct (map fst (as_outbound s)) \<and> (\<forall>(k, st) \<in> set (as_outbound s). outbound_ok st)"

lemma evict_oldest_props:
  assumes "evict_oldest cap inb order = (inb', order')" "distinct (map fst inb)" "distinct order"
    "set order = fst ` set inb"
  shows "distinct (map fst inb') \<and> distinct order' \<and> set order' = fst ` set inb' \<and>
    set inb' \<subseteq> set inb \<and> set order' \<subseteq> set order \<and> (length inb' < cap \<or> inb' = [])"
  using assms
proof (induction cap inb order rule: evict_oldest.induct)
  case (2 cap inb victim order)
  show ?case
  proof (cases "cap \<le> length inb")
    case True
    let ?inb = "AList.delete victim inb"
    have "set order = set (victim # order) - {victim}" using 2(4) by auto
    also have "\<dots> = fst ` set ?inb" unfolding 2(5) by (auto simp: alist_delete_set)
    finally have "set order = fst ` set ?inb" .
    then have "distinct (map fst inb') \<and> distinct order' \<and> set order' = fst ` set inb' \<and>
      set inb' \<subseteq> set ?inb \<and> set order' \<subseteq> set order \<and> (length inb' < cap \<or> inb' = [])"
      using 2 True by (intro 2(1)) (simp_all add: AList.distinct_delete)
    then show ?thesis by (auto simp: alist_delete_set)
  next
    case False
    then show ?thesis using 2 by auto
  qed
qed auto

lemma filter_id_list_update:
  "\<lbrakk>i < length bs; \<not> bs ! i\<rbrakk> \<Longrightarrow> length (filter id (bs[i := True])) = Suc (length (filter id bs))"
proof (induction bs arbitrary: i)
  case (Cons b bs)
  then show ?case by (cases i) auto
qed simp

lemma filter_id_all: "length (filter id bs) = length bs \<longleftrightarrow> (\<forall>i < length bs. bs ! i)"
  by (metis filter_id_conv id_apply in_set_conv_nth length_filter_less less_irrefl nth_mem)

lemma store_chunk_fields [simp]:
  "is_total (store_chunk st c) = is_total st"
  "is_parts (store_chunk st c) = (is_parts st)[unat (cp_index c) := cp_data c]"
  "is_have (store_chunk st c) = (is_have st)[unat (cp_index c) := True]"
  "is_received (store_chunk st c) = is_received st + 1"
  by (simp_all add: store_chunk_def)

lemma store_chunk_ok:
  assumes "inbound_ok cfg st" "cp_index c < is_total st" "\<not> is_have st ! unat (cp_index c)"
  shows "unat (is_received (store_chunk st c)) = length (filter id (is_have (store_chunk st c)))"
    "is_received (store_chunk st c) < is_total st \<Longrightarrow> inbound_ok cfg (store_chunk st c)"
proof -
  have "unat (is_received st + 1) = Suc (unat (is_received st))"
    using assms(1) unat_plus_one unfolding inbound_ok_def by blast
  then show "unat (is_received (store_chunk st c)) = length (filter id (is_have (store_chunk st c)))"
    using assms by (simp add: inbound_ok_def filter_id_list_update word_less_nat_alt)
  then show "is_received (store_chunk st c) < is_total st \<Longrightarrow> inbound_ok cfg (store_chunk st c)"
    using assms(1) by (simp add: inbound_ok_def)
qed

lemma fresh_inbound_ok:
  "\<lbrakk>1 < tot; tot \<le> max_total_chunks cfg\<rbrakk> \<Longrightarrow> inbound_ok cfg (fresh_inbound tot)"
  using order.strict_trans [of 0 1 tot] by (simp add: inbound_ok_def fresh_inbound_def)

text \<open>Every operation that touches one inbound entry keeps the invariant.\<close>

lemma update_inbound_inv:
  assumes "assembler_inv cfg s" "corr \<in> fst ` set (as_inbound s)" "inbound_ok cfg st"
  shows "assembler_inv cfg (s\<lparr>as_inbound := AList.update corr st (as_inbound s)\<rparr>)"
proof -
  have "distinct (map fst (as_inbound s))" using assms(1) by (simp add: assembler_inv_def)
  note upd = alist_update_set [OF this, of corr st]
  have "\<forall>(k, x) \<in> set (AList.update corr st (as_inbound s)). inbound_ok cfg x"
    using assms(1,3) upd unfolding assembler_inv_def by blast
  then show ?thesis
    using assms(1,2) unfolding assembler_inv_def
    by (simp add: AList.distinct_update AList.dom_update alist_update_length insert_absorb)
qed

lemma open_inbound_inv:
  assumes "assembler_inv cfg s" "1 < tot" "tot \<le> max_total_chunks cfg"
    "open_inbound cfg corr tot s = (st, s1)"
  shows "assembler_inv cfg s1 \<and> map_of (as_inbound s1) corr = Some st \<and> is_total st = tot \<and>
    inbound_ok cfg st"
proof (cases "map_of (as_inbound s) corr")
  case None
  obtain inb order where E:
    "evict_oldest (max_inflight_inbound cfg) (as_inbound s) (as_order s) = (inb, order)"
    by fastforce
  note P = evict_oldest_props [OF E]
  have inv: "distinct (map fst (as_inbound s))" "distinct (as_order s)"
    "set (as_order s) = fst ` set (as_inbound s)"
    "\<forall>(k, st) \<in> set (as_inbound s). inbound_ok cfg st"
    "distinct (map fst (as_outbound s))" "\<forall>(k, st) \<in> set (as_outbound s). outbound_ok st"
    using assms(1) by (simp_all add: assembler_inv_def)
  from P [OF inv(1-3)] have Q: "distinct (map fst inb)" "distinct order"
    "set order = fst ` set inb" "set inb \<subseteq> set (as_inbound s)"
    "length inb < max_inflight_inbound cfg \<or> inb = []"
    by simp_all
  have R: "st = fresh_inbound tot"
    "s1 = s\<lparr>as_inbound := (corr, fresh_inbound tot) # inb, as_order := order @ [corr]\<rparr>"
    using assms(4) None E by (auto simp: open_inbound_def)
  have new: "corr \<notin> fst ` set inb"
    using None Q(4) by (auto simp: map_of_eq_None_iff)
  have "assembler_inv cfg s1"
    unfolding assembler_inv_def R
    using Q new inv(4-6) fresh_inbound_ok [OF assms(2,3)] by auto
  then show ?thesis
    using R fresh_inbound_ok [OF assms(2,3)] by (simp add: fresh_inbound_def)
next
  case (Some st0)
  then have ok: "inbound_ok cfg st0"
    using assms(1) by (auto simp: assembler_inv_def dest: map_of_SomeD)
  have key: "corr \<in> fst ` set (as_inbound s)" using Some by (force dest: map_of_SomeD)
  have upd: "assembler_inv cfg
      (s\<lparr>as_inbound := AList.update corr (fresh_inbound tot) (as_inbound s)\<rparr>)"
    using assms(1) key fresh_inbound_ok [OF assms(2,3)] by (rule update_inbound_inv)
  show ?thesis
    using assms Some ok upd fresh_inbound_ok [OF assms(2,3)]
    by (auto simp: open_inbound_def fresh_inbound_def AList.update_conv' split: if_splits)
qed

lemma one_word_less:
  assumes "n \<noteq> 0" "n \<noteq> (1 :: u32)"
  shows "1 < n"
proof -
  have A: "unat n \<noteq> unat (0 :: u32)" "unat n \<noteq> unat (1 :: u32)"
    using assms word_unat_eq_iff by blast+
  show ?thesis
    unfolding word_less_nat_alt using A by (simp only: unat_0 unat_1)
qed

lemma offer_inbound_inv:
  assumes "assembler_inv cfg s"
  shows "assembler_inv cfg (snd (offer_inbound cfg c s))"
proof (cases "cp_total c = 0 \<or> max_total_chunks cfg < cp_total c \<or> cp_total c \<le> cp_index c \<or>
    cp_total c = 1")
  case True
  then show ?thesis using assms by (auto simp: offer_inbound_def)
next
  case False
  then have tot: "1 < cp_total c" "cp_total c \<le> max_total_chunks cfg" "cp_index c < cp_total c"
    using one_word_less by auto
  obtain st s1 where O: "open_inbound cfg (cp_corr c) (cp_total c) s = (st, s1)" by fastforce
  note I = open_inbound_inv [OF assms tot(1,2) O]
  then have key: "cp_corr c \<in> fst ` set (as_inbound s1)" by (force dest: map_of_SomeD)
  show ?thesis
  proof (cases "is_have st ! unat (cp_index c)")
    case True
    then show ?thesis using False O I by (simp add: offer_inbound_def)
  next
    case new: False
    let ?st = "store_chunk st c"
    show ?thesis
    proof (cases "is_received ?st < is_total ?st")
      case True
      then have "inbound_ok cfg ?st" using I tot(3) new store_chunk_ok(2) [of cfg st c] by simp
      then have "assembler_inv cfg
          (s1\<lparr>as_inbound := AList.update (cp_corr c) ?st (as_inbound s1)\<rparr>)"
        using I key update_inbound_inv by blast
      then show ?thesis using False True O new by (simp add: offer_inbound_def Let_def)
    next
      case complete: False
      have "assembler_inv cfg
          (s1\<lparr>as_inbound := AList.delete (cp_corr c) (as_inbound s1),
              as_order := removeAll (cp_corr c) (as_order s1)\<rparr>)"
        using I AList.length_delete_le [of "cp_corr c" "as_inbound s1"]
        by (auto simp: assembler_inv_def AList.distinct_delete alist_delete_set distinct_removeAll)
      then show ?thesis using False complete O new by (simp add: offer_inbound_def Let_def)
    qed
  qed
qed

lemma update_outbound_inv:
  assumes "assembler_inv cfg s" "outbound_ok st"
  shows "assembler_inv cfg (s\<lparr>as_outbound := AList.update corr st (as_outbound s)\<rparr>)"
proof -
  have d: "distinct (map fst (as_outbound s))" using assms(1) by (simp add: assembler_inv_def)
  have "\<forall>(k, x) \<in> set (AList.update corr st (as_outbound s)). outbound_ok x"
    using assms alist_update_set [OF d, of corr st] unfolding assembler_inv_def by blast
  then show ?thesis
    using assms(1) d unfolding assembler_inv_def by (simp add: AList.distinct_update)
qed

lemma delete_outbound_inv:
  "assembler_inv cfg s \<Longrightarrow>
   assembler_inv cfg (s\<lparr>as_outbound := AList.delete corr (as_outbound s)\<rparr>)"
  unfolding assembler_inv_def by (simp add: AList.distinct_delete alist_delete_set)

lemma assembler_reset_inv: "assembler_inv cfg (assembler_reset s)"
  by (simp add: assembler_inv_def assembler_reset_def)

lemma begin_outbound_inv:
  assumes "assembler_inv cfg s" "begin_outbound cfg corr data send s = Some (sent, n, s1)"
  shows "assembler_inv cfg s1"
proof -
  obtain c cs where C: "make_chunks cfg corr data = c # cs"
    using assms(2) by (auto simp: begin_outbound_def split: list.splits)
  have "length (make_chunks cfg corr data) = unat (total_chunks_of cfg data)"
    by (simp add: make_chunks_def)
  then have len: "length (c # cs) = unat (total_chunks_of cfg data)" using C by simp
  have "length (c # cs) < 2 ^ 32"
    unfolding len using unsigned_less [of "total_chunks_of cfg data", where ?'a = nat] by simp
  then have ok: "outbound_ok \<lparr>os_chunks = c # cs, os_next = 1, os_send = send\<rparr>"
    if "1 < total_chunks_of cfg data"
    using that len by (simp add: outbound_ok_def word_less_nat_alt)
  show ?thesis
  proof (cases "1 < total_chunks_of cfg data")
    case True
    then have "s1 = s\<lparr>as_outbound := AList.update corr
        \<lparr>os_chunks = c # cs, os_next = 1, os_send = send\<rparr> (as_outbound s)\<rparr>"
      using assms(2) C by (simp add: begin_outbound_def)
    then show ?thesis using update_outbound_inv [OF assms(1) ok [OF True]] by simp
  next
    case False
    then show ?thesis using assms C by (simp add: begin_outbound_def)
  qed
qed

lemma on_ack_inv:
  assumes "assembler_inv cfg s"
  shows "assembler_inv cfg (snd (snd (on_ack corr index s)))"
proof (cases "map_of (as_outbound s) corr")
  case None
  then show ?thesis using assms by (simp add: on_ack_def)
next
  case (Some st)
  have ok: "outbound_ok st"
    using assms Some by (auto simp: assembler_inv_def dest: map_of_SomeD)
  have next_ok: "outbound_ok (st\<lparr>os_next := os_next st + 1\<rparr>)"
    if lt: "os_next st < of_nat (length (os_chunks st))"
  proof -
    have "unat (of_nat (length (os_chunks st)) :: u32) = length (os_chunks st)"
      using ok by (simp add: outbound_ok_def unat_of_nat)
    then show ?thesis
      using ok lt unat_plus_one [OF lt] by (simp add: outbound_ok_def word_less_nat_alt)
  qed
  show ?thesis
    using Some assms update_outbound_inv [OF assms next_ok] delete_outbound_inv [OF assms]
    by (simp add: on_ack_def)
qed

section \<open>Histories\<close>

datatype asm_op =
    Offer chunked_payload
  | BeginTransfer string string bool
  | Ack string u32
  | ResetAll

fun asm_step :: "chunk_cfg \<Rightarrow> asm_op \<Rightarrow> assembler \<Rightarrow> assembler" where
  "asm_step cfg (Offer c) s = snd (offer_inbound cfg c s)"
| "asm_step cfg (BeginTransfer corr data send) s =
     (case begin_outbound cfg corr data send s of None \<Rightarrow> s | Some (_, _, s1) \<Rightarrow> s1)"
| "asm_step cfg (Ack corr index) s = snd (snd (on_ack corr index s))"
| "asm_step cfg ResetAll s = assembler_reset s"

lemma asm_step_inv: "assembler_inv cfg s \<Longrightarrow> assembler_inv cfg (asm_step cfg op s)"
proof (cases op)
  case (BeginTransfer corr data send)
  then show "assembler_inv cfg s \<Longrightarrow> ?thesis"
    by (auto split: option.splits dest: begin_outbound_inv)
qed (simp_all add: offer_inbound_inv on_ack_inv assembler_reset_inv)

lemma asm_run_inv: "assembler_inv cfg s \<Longrightarrow> assembler_inv cfg (fold (asm_step cfg) ops s)"
  by (induction ops arbitrary: s) (simp_all add: asm_step_inv)

section \<open>Splitting and reassembling\<close>

definition chunk_count :: "chunk_cfg \<Rightarrow> string \<Rightarrow> nat" where
  "chunk_count cfg data = length (make_chunks cfg [] data)"

text \<open>The payload's size fits the 64-bit arithmetic and the receiver's cap on chunks.\<close>

definition chunkable :: "chunk_cfg \<Rightarrow> string \<Rightarrow> bool" where
  "chunkable cfg data \<longleftrightarrow>
     length data + unat (chunk_size_of cfg) \<le> 2 ^ 64 \<and>
     length data \<le> unat (max_total_chunks cfg) * unat (chunk_size_of cfg) \<and>
     max_total_chunks cfg \<noteq> 0"

lemma chunk_size_pos: "0 < unat (chunk_size_of cfg)"
proof -
  have "1 \<le> chunk_size_of cfg" by (simp add: chunk_size_of_def)
  then show ?thesis by (simp add: word_le_nat_alt)
qed

lemma chunk_count_unat: "unat (total_chunks_of cfg data) = chunk_count cfg data"
  by (simp add: chunk_count_def make_chunks_def)

lemma length_make_chunks: "length (make_chunks cfg corr data) = chunk_count cfg data"
  by (simp add: chunk_count_def make_chunks_def)

lemma make_chunks_map: "make_chunks cfg corr data = map (make_chunk cfg corr data) [0 ..< chunk_count cfg data]"
  by (simp add: make_chunks_def chunk_count_unat)

lemma chunk_count_bound: "chunk_count cfg data < 2 ^ 32"
  using unsigned_less [of "total_chunks_of cfg data", where ?'a = nat]
  by (simp add: chunk_count_unat)

lemma ceil_div_bounds:
  fixes n k :: nat
  assumes "0 < k"
  shows "n \<le> (n + k - 1) div k * k" "n \<le> m * k \<Longrightarrow> (n + k - 1) div k \<le> m"
proof -
  have "(n + k - 1) div k * k = n + k - 1 - (n + k - 1) mod k"
    by (simp add: minus_mod_eq_div_mult)
  moreover have "(n + k - 1) mod k < k" using assms by simp
  ultimately show "n \<le> (n + k - 1) div k * k" using assms by linarith
  assume "n \<le> m * k"
  then have "n + k - 1 < Suc m * k" using assms by simp
  then show "(n + k - 1) div k \<le> m" by (simp add: less_mult_imp_div_less less_Suc_eq_le [symmetric])
qed

lemma total_chunks_value:
  assumes "chunkable cfg data" "data \<noteq> []"
  shows "chunk_count cfg data = (length data + unat (chunk_size_of cfg) - 1) div unat (chunk_size_of cfg)"
proof -
  let ?k = "chunk_size_of cfg"
  let ?n = "(length data + unat ?k - 1) div unat ?k"
  have pos: "0 < unat ?k" by (rule chunk_size_pos)
  have "length data + unat ?k - 1 < 2 ^ 64"
    using assms pos by (simp add: chunkable_def) linarith
  moreover have "of_nat (length data) + ?k - 1 = (of_nat (length data + unat ?k - 1) :: u64)"
    using pos by (simp add: of_nat_diff)
  ultimately have "unat (of_nat (length data) + ?k - 1) = length data + unat ?k - 1"
    by (simp only: unat_of_nat) simp
  then have q: "unat ((of_nat (length data) + ?k - 1) div ?k) = ?n"
    by (simp only: unat_div)
  have "?n \<le> unat (max_total_chunks cfg)"
    using assms(1) pos by (intro ceil_div_bounds) (simp_all add: chunkable_def)
  then have "?n < 2 ^ 32"
    using unsigned_less [of "max_total_chunks cfg", where ?'a = nat] by simp
  then show ?thesis
    using assms(2) q by (simp add: chunk_count_unat [symmetric] total_chunks_of_def unat_ucast_small)
qed

lemma concat_blocks:
  "concat (map (\<lambda>i. take k (drop (i * k) xs)) [0 ..< n]) = take (n * k) xs"
proof (induction n)
  case (Suc n)
  have "take (n * k + k) xs = take (n * k) xs @ take k (drop (n * k) xs)" by (rule take_add)
  then show ?case using Suc by (simp add: add.commute)
qed simp

lemma chunk_count_pos: "chunkable cfg data \<Longrightarrow> 0 < chunk_count cfg data"
proof (cases "data = []")
  case True
  then show ?thesis by (simp add: chunk_count_unat [symmetric] total_chunks_of_def)
next
  case False
  assume c: "chunkable cfg data"
  have "length data \<le> chunk_count cfg data * unat (chunk_size_of cfg)"
    unfolding total_chunks_value [OF c False] by (rule ceil_div_bounds(1)) (rule chunk_size_pos)
  then show ?thesis using False by (cases "chunk_count cfg data") auto
qed

lemma concat_make_chunks:
  assumes "chunkable cfg data"
  shows "concat (map cp_data (make_chunks cfg corr data)) = data"
proof -
  have "length data \<le> chunk_count cfg data * unat (chunk_size_of cfg)"
  proof (cases "data = []")
    case False
    show ?thesis unfolding total_chunks_value [OF assms False]
      by (rule ceil_div_bounds(1)) (rule chunk_size_pos)
  qed simp
  then show ?thesis
    by (simp add: make_chunks_map make_chunk_def comp_def concat_blocks)
qed

lemma chunk_count_cap:
  assumes "chunkable cfg data" "1 < chunk_count cfg data"
  shows "chunk_count cfg data \<le> unat (max_total_chunks cfg)"
proof -
  have "data \<noteq> []"
    using assms(2) by (auto simp: chunk_count_unat [symmetric] total_chunks_of_def)
  then show ?thesis
    using assms total_chunks_value ceil_div_bounds(2) [OF chunk_size_pos]
    by (metis chunkable_def)
qed

fun offer_all :: "chunk_cfg \<Rightarrow> chunked_payload list \<Rightarrow> assembler \<Rightarrow> offer_result list \<times> assembler" where
  "offer_all cfg [] s = ([], s)"
| "offer_all cfg (c # cs) s =
     (case offer_inbound cfg c s of (r, s1) \<Rightarrow>
        case offer_all cfg cs s1 of (rs, s2) \<Rightarrow> (r # rs, s2))"

lemma offer_all_append:
  "offer_all cfg (xs @ ys) s =
     (case offer_all cfg xs s of (rs, s1) \<Rightarrow>
        case offer_all cfg ys s1 of (qs, s2) \<Rightarrow> (rs @ qs, s2))"
  by (induction xs arbitrary: s) (auto split: prod.splits)

definition partly :: "chunked_payload list \<Rightarrow> nat set \<Rightarrow> inbound_state \<Rightarrow> bool" where
  "partly cs K st \<longleftrightarrow>
     unat (is_total st) = length cs \<and> K \<subseteq> {..<length cs} \<and>
     is_parts st = map (\<lambda>i. if i \<in> K then cp_data (cs ! i) else []) [0 ..< length cs] \<and>
     is_have st = map (\<lambda>i. i \<in> K) [0 ..< length cs] \<and> unat (is_received st) = card K"

text \<open>The entry the next chunk of the transfer finds holds the chunks K.\<close>

definition awaiting :: "chunk_cfg \<Rightarrow> chunked_payload list \<Rightarrow> nat set \<Rightarrow> assembler \<Rightarrow> bool" where
  "awaiting cfg cs K s \<longleftrightarrow>
     (case open_inbound cfg (cp_corr (hd cs)) (cp_total (hd cs)) s of (st, _) \<Rightarrow> partly cs K st)"

text \<open>A complete, well-formed split of one message into at least two chunks.\<close>

definition chunk_row :: "chunk_cfg \<Rightarrow> chunked_payload list \<Rightarrow> bool" where
  "chunk_row cfg cs \<longleftrightarrow>
     1 < length cs \<and> length cs \<le> unat (max_total_chunks cfg) \<and>
     (\<forall>i < length cs. cp_corr (cs ! i) = cp_corr (hd cs) \<and> cp_total (cs ! i) = of_nat (length cs) \<and>
        unat (cp_index (cs ! i)) = i)"

lemma chunk_row_hd:
  assumes "chunk_row cfg cs"
  shows "unat (cp_total (hd cs)) = length cs" "1 < cp_total (hd cs)"
    "cp_total (hd cs) \<le> max_total_chunks cfg"
    "i < length cs \<Longrightarrow> cp_corr (cs ! i) = cp_corr (hd cs)"
    "i < length cs \<Longrightarrow> cp_total (cs ! i) = cp_total (hd cs)"
    "i < length cs \<Longrightarrow> unat (cp_index (cs ! i)) = i"
proof -
  have "cs ! 0 = hd cs" "0 < length cs"
    using assms by (cases cs; simp add: chunk_row_def)+
  moreover from this(2) have "cp_total (cs ! 0) = of_nat (length cs)"
    using assms unfolding chunk_row_def by blast
  ultimately have hd: "cp_total (hd cs) = of_nat (length cs)" by simp
  have "length cs < 2 ^ 32"
    using assms unsigned_less [of "max_total_chunks cfg", where ?'a = nat]
    by (simp add: chunk_row_def)
  then show U: "unat (cp_total (hd cs)) = length cs" unfolding hd by (intro unat_word_of_nat) simp
  show "1 < cp_total (hd cs)" "cp_total (hd cs) \<le> max_total_chunks cfg"
    using assms U by (simp_all add: chunk_row_def word_less_nat_alt word_le_nat_alt)
  show "i < length cs \<Longrightarrow> cp_corr (cs ! i) = cp_corr (hd cs)"
    "i < length cs \<Longrightarrow> cp_total (cs ! i) = cp_total (hd cs)"
    "i < length cs \<Longrightarrow> unat (cp_index (cs ! i)) = i"
    using assms hd by (simp_all add: chunk_row_def)
qed

lemma awaiting_fresh:
  assumes "chunk_row cfg cs" "map_of (as_inbound s) (cp_corr (hd cs)) = None"
  shows "awaiting cfg cs {} s"
  using assms(2) chunk_row_hd(1) [OF assms(1)]
  by (auto simp: awaiting_def open_inbound_def fresh_inbound_def partly_def map_replicate_const
      split: prod.splits)

lemma partly_store:
  assumes "chunk_row cfg cs" "partly cs K st" "i < length cs" "i \<notin> K"
  shows "partly cs (insert i K) (store_chunk st (cs ! i))"
proof -
  have fin: "finite K" using assms(2) by (auto simp: partly_def intro: finite_subset)
  have "K \<subset> {..<length cs}" using assms by (auto simp: partly_def)
  then have "card K < length cs" by (metis card_lessThan finite_lessThan psubset_card_mono)
  then have "unat (is_received st) < unat (is_total st)" using assms(2) by (simp add: partly_def)
  then have "unat (is_received st + 1) = Suc (card K)"
    using assms(2) unat_plus_one [of "is_received st" "is_total st"]
    by (simp add: partly_def word_less_nat_alt)
  then show ?thesis
    using assms(2-4) fin chunk_row_hd(6) [OF assms(1,3)]
    by (auto simp: partly_def store_chunk_def intro!: nth_equalityI simp: nth_list_update split: if_splits)
qed

lemma partly_full: "partly cs {..<length cs} st \<Longrightarrow> concat (is_parts st) = concat (map cp_data cs)"
proof -
  assume "partly cs {..<length cs} st"
  then have "is_parts st = map cp_data cs"
    by (auto simp: partly_def intro!: nth_equalityI)
  then show ?thesis by simp
qed

lemma partly_received:
  assumes "chunk_row cfg cs" "partly cs K st" "i < length cs" "i \<notin> K"
  shows "is_received (store_chunk st (cs ! i)) < is_total st \<longleftrightarrow> insert i K \<noteq> {..<length cs}"
proof -
  have Q: "partly cs (insert i K) (store_chunk st (cs ! i))" using assms by (rule partly_store)
  then have "insert i K \<subseteq> {..<length cs}" by (simp add: partly_def)
  then have "card (insert i K) < length cs \<longleftrightarrow> insert i K \<noteq> {..<length cs}"
    by (metis card_lessThan card_subset_eq finite_lessThan less_irrefl psubsetI psubset_card_mono)
  then show ?thesis using Q assms(2) by (simp add: partly_def word_less_nat_alt)
qed

text \<open>A chunk of the row passes every check; it is stored when it is new, and the transfer ends with
  the last one.\<close>

lemma offer_row_cases:
  assumes "chunk_row cfg cs" "open_inbound cfg (cp_corr (hd cs)) (cp_total (hd cs)) s = (st, s1)"
    and "partly cs K st" "i < length cs"
  shows "offer_inbound cfg (cs ! i) s =
    (if i \<in> K then (\<lparr>of_accepted = True, of_payload = None\<rparr>, s1)
     else if insert i K \<noteq> {..<length cs}
     then (\<lparr>of_accepted = True, of_payload = None\<rparr>,
           s1\<lparr>as_inbound := AList.update (cp_corr (hd cs)) (store_chunk st (cs ! i)) (as_inbound s1)\<rparr>)
     else (\<lparr>of_accepted = True, of_payload = Some (concat (is_parts (store_chunk st (cs ! i))))\<rparr>,
           s1\<lparr>as_inbound := AList.delete (cp_corr (hd cs)) (as_inbound s1),
              as_order := removeAll (cp_corr (hd cs)) (as_order s1)\<rparr>))"
proof -
  let ?c = "cs ! i" and ?tot = "cp_total (hd cs)"
  note h = chunk_row_hd [OF assms(1)]
  have idx: "cp_index ?c < ?tot" using h(1) h(6) [OF assms(4)] assms(4) by (simp add: word_less_nat_alt)
  have guards: "\<not> (cp_total ?c = 0 \<or> max_total_chunks cfg < cp_total ?c)"
    "\<not> cp_total ?c \<le> cp_index ?c" "cp_total ?c \<noteq> 1" "cp_corr ?c = cp_corr (hd cs)" "cp_total ?c = ?tot"
    using h(2,3) h(4,5) [OF assms(4)] idx by auto
  have dup: "is_have st ! unat (cp_index ?c) \<longleftrightarrow> i \<in> K"
    using assms(3,4) h(6) [OF assms(4)] by (simp add: partly_def)
  have tot: "is_total st = ?tot"
    using assms(2) by (auto simp: open_inbound_def fresh_inbound_def split: option.splits prod.splits if_splits)
  show ?thesis
    using guards assms(2) dup tot partly_received [OF assms(1,3,4)]
    by (auto simp: offer_inbound_def Let_def)
qed

text \<open>What one chunk of the row does to a transfer that holds the chunks K.\<close>

lemma offer_row_step:
  assumes row: "chunk_row cfg cs" and w: "awaiting cfg cs K s" and i: "i < length cs"
  shows "insert i K \<noteq> {..<length cs} \<Longrightarrow>
      fst (offer_inbound cfg (cs ! i) s) = \<lparr>of_accepted = True, of_payload = None\<rparr> \<and>
      awaiting cfg cs (insert i K) (snd (offer_inbound cfg (cs ! i) s))"
    and "\<lbrakk>insert i K = {..<length cs}; i \<notin> K\<rbrakk> \<Longrightarrow>
      fst (offer_inbound cfg (cs ! i) s) =
        \<lparr>of_accepted = True, of_payload = Some (concat (map cp_data cs))\<rparr> \<and>
      map_of (as_inbound (snd (offer_inbound cfg (cs ! i) s))) (cp_corr (hd cs)) = None"
proof -
  let ?corr = "cp_corr (hd cs)" and ?tot = "cp_total (hd cs)"
  obtain st s1 where O: "open_inbound cfg ?corr ?tot s = (st, s1)" by fastforce
  have P: "partly cs K st" using w O by (simp add: awaiting_def)
  note cases = offer_row_cases [OF row O P i]
  have stored: "map_of (as_inbound s1) ?corr = Some st" and tot: "is_total st = ?tot"
    using O by (auto simp: open_inbound_def fresh_inbound_def AList.update_conv'
        split: option.splits prod.splits if_splits)
  have keep: "awaiting cfg cs K' s'"
    if "map_of (as_inbound s') ?corr = Some st'" "partly cs K' st'" "is_total st' = ?tot" for s' st' K'
    using that by (simp add: awaiting_def open_inbound_def)
  show "fst (offer_inbound cfg (cs ! i) s) = \<lparr>of_accepted = True, of_payload = None\<rparr> \<and>
      awaiting cfg cs (insert i K) (snd (offer_inbound cfg (cs ! i) s))" if "insert i K \<noteq> {..<length cs}"
    using that keep [OF stored P tot] keep [OF _ partly_store [OF row P i]] tot
    by (cases "i \<in> K") (simp_all add: cases insert_absorb AList.update_conv')
  show "fst (offer_inbound cfg (cs ! i) s) =
        \<lparr>of_accepted = True, of_payload = Some (concat (map cp_data cs))\<rparr> \<and>
      map_of (as_inbound (snd (offer_inbound cfg (cs ! i) s))) ?corr = None"
    if full: "insert i K = {..<length cs}" and new: "i \<notin> K"
    using partly_full [OF partly_store [OF row P i new, unfolded full]] full new
    by (simp add: cases AList.delete_conv')
qed

lemma offer_rows:
  assumes "chunk_row cfg cs" "awaiting cfg cs K s" "set is \<subseteq> {..<length cs}"
    "K \<union> set is \<noteq> {..<length cs}" "K \<subseteq> {..<length cs}"
  shows "fst (offer_all cfg (map ((!) cs) is) s) =
      replicate (length is) \<lparr>of_accepted = True, of_payload = None\<rparr> \<and>
    awaiting cfg cs (K \<union> set is) (snd (offer_all cfg (map ((!) cs) is) s))"
  using assms(2-)
proof (induction "is" arbitrary: K s)
  case (Cons i "is")
  have "insert i K \<noteq> {..<length cs}" using Cons.prems by auto
  note step = offer_row_step(1) [OF assms(1) Cons.prems(1) _ this]
  have "fst (offer_all cfg (map ((!) cs) is) (snd (offer_inbound cfg (cs ! i) s))) =
      replicate (length is) \<lparr>of_accepted = True, of_payload = None\<rparr> \<and>
    awaiting cfg cs (insert i K \<union> set is)
      (snd (offer_all cfg (map ((!) cs) is) (snd (offer_inbound cfg (cs ! i) s))))"
    using Cons.prems step by (intro Cons.IH) auto
  then show ?case using step Cons.prems by (simp add: split_beta)
qed simp

lemma offer_rows_complete:
  assumes "chunk_row cfg cs" "map_of (as_inbound s) (cp_corr (hd cs)) = None"
    "set is \<union> {j} = {..<length cs}" "j \<notin> set is"
  shows "fst (offer_all cfg (map ((!) cs) (is @ [j])) s) =
      replicate (length is) \<lparr>of_accepted = True, of_payload = None\<rparr> @
      [\<lparr>of_accepted = True, of_payload = Some (concat (map cp_data cs))\<rparr>] \<and>
    map_of (as_inbound (snd (offer_all cfg (map ((!) cs) (is @ [j])) s))) (cp_corr (hd cs)) = None"
proof -
  let ?s = "snd (offer_all cfg (map ((!) cs) is) s)"
  have "j < length cs" "set is \<subseteq> {..<length cs}" "{} \<union> set is \<noteq> {..<length cs}"
    using assms(3,4) by auto
  note pre = offer_rows [OF assms(1) awaiting_fresh [OF assms(1,2)] this(2,3)]
  have "insert j (set is) = {..<length cs}" using assms(3) by auto
  then show ?thesis
    using pre offer_row_step(2) [OF assms(1) _ \<open>j < length cs\<close>, of "set is" ?s] assms(4)
    by (simp add: offer_all_append split_beta)
qed

lemma make_chunks_row:
  assumes "chunkable cfg data" "1 < chunk_count cfg data"
  shows "chunk_row cfg (make_chunks cfg corr data)"
proof -
  have hd: "hd (make_chunks cfg corr data) = make_chunk cfg corr data 0"
    using assms(2) by (simp add: make_chunks_map hd_map)
  have "of_nat (chunk_count cfg data) = total_chunks_of cfg data"
    by (simp add: chunk_count_unat [symmetric])
  then show ?thesis
    using chunk_count_cap [OF assms] assms(2) chunk_count_bound [of cfg data]
    by (auto simp: chunk_row_def length_make_chunks hd) (simp_all add: make_chunks_map make_chunk_def unat_word_of_nat)
qed

lemma make_chunks_hd_corr:
  "0 < chunk_count cfg data \<Longrightarrow> cp_corr (hd (make_chunks cfg corr data)) = corr"
  by (simp add: make_chunks_map hd_map make_chunk_def)

lemma single_chunk:
  assumes "chunkable cfg data" "chunk_count cfg data = 1"
  shows "make_chunks cfg corr data = [\<lparr>cp_corr = corr, cp_index = 0, cp_total = 1, cp_data = data\<rparr>]"
proof -
  have "total_chunks_of cfg data = 1"
    using assms(2) by (simp add: chunk_count_unat [symmetric] word_unat_eq_iff)
  then have mk: "make_chunks cfg corr data =
      [\<lparr>cp_corr = corr, cp_index = 0, cp_total = 1, cp_data = take (unat (chunk_size_of cfg)) data\<rparr>]"
    using assms(2) by (simp add: make_chunks_map make_chunk_def)
  then show ?thesis using concat_make_chunks [OF assms(1), of corr] by simp
qed

section \<open>Acknowledgement driven sending\<close>

fun ack_all :: "string \<Rightarrow> u32 list \<Rightarrow> assembler \<Rightarrow> bool list \<times> chunked_payload list \<times> assembler" where
  "ack_all corr [] s = ([], [], s)"
| "ack_all corr (a # as) s =
     (case on_ack corr a s of (d, out, s1) \<Rightarrow>
        case ack_all corr as s1 of (ds, outs, s2) \<Rightarrow> (d # ds, out @ outs, s2))"

text \<open>How many chunks of n the acknowledgements confirm, given that k are confirmed: each one
  counts only when it names the chunk sent last.\<close>

fun confirmed :: "nat \<Rightarrow> nat \<Rightarrow> u32 list \<Rightarrow> nat" where
  "confirmed n k [] = k"
| "confirmed n k (a # as) = confirmed n (if k < n \<and> unat a = k then Suc k else k) as"

lemma confirmed_le: "k \<le> n \<Longrightarrow> k \<le> confirmed n k as \<and> confirmed n k as \<le> n"
proof (induction as arbitrary: k)
  case (Cons a as)
  show ?case
  proof (cases "k < n \<and> unat a = k")
    case True
    then show ?thesis using Cons.IH [of "Suc k"] by simp
  next
    case False
    then show ?thesis
      using Cons.IH [OF Cons.prems] False by (simp only: confirmed.simps if_False)
  qed
qed simp

lemma confirmed_full [simp]: "confirmed n n as = n"
  by (induction as) auto

lemma ack_all_none:
  "map_of (as_outbound s) corr = None \<Longrightarrow> ack_all corr as s = (replicate (length as) False, [], s)"
  by (induction as) (simp_all add: on_ack_def)

text \<open>One acknowledgement of a transfer whose chunks up to \<^verbatim>\<open>k\<close> are out: of another chunk, of the last
  one out with more to come, of the last one of all.\<close>

lemma on_ack_cases:
  assumes "map_of (as_outbound s) corr = Some \<lparr>os_chunks = cs, os_next = of_nat (Suc k), os_send = True\<rparr>"
    "k < length cs" "length cs < 2 ^ 32"
  shows "unat a \<noteq> k \<Longrightarrow> on_ack corr a s = (False, [], s)"
    and "\<lbrakk>unat a = k; Suc k < length cs\<rbrakk> \<Longrightarrow> on_ack corr a s =
      (False, [cs ! Suc k], s\<lparr>as_outbound := AList.update corr
         \<lparr>os_chunks = cs, os_next = of_nat (Suc (Suc k)), os_send = True\<rparr> (as_outbound s)\<rparr>)"
    and "\<lbrakk>unat a = k; Suc k = length cs\<rbrakk> \<Longrightarrow> on_ack corr a s =
      (True, [], s\<lparr>as_outbound := AList.delete corr (as_outbound s)\<rparr>)"
proof -
  have nk: "unat (of_nat (Suc k) :: u32) = Suc k" "unat (of_nat k :: u32) = k"
    "unat (of_nat (length cs) :: u32) = length cs"
    using assms(2,3) by (auto intro!: unat_word_of_nat simp del: of_nat_Suc)
  have last: "of_nat (Suc k) - 1 = (of_nat k :: u32)" by simp
  have idx: "a = of_nat k \<longleftrightarrow> unat a = k" by (metis nk(2) word_unat_eq_iff)
  show "unat a \<noteq> k \<Longrightarrow> on_ack corr a s = (False, [], s)"
    using assms(1) idx last by (simp add: on_ack_def del: of_nat_Suc)
  show "on_ack corr a s =
      (False, [cs ! Suc k], s\<lparr>as_outbound := AList.update corr
         \<lparr>os_chunks = cs, os_next = of_nat (Suc (Suc k)), os_send = True\<rparr> (as_outbound s)\<rparr>)"
    if "unat a = k" "Suc k < length cs"
  proof -
    have "(of_nat (Suc k) :: u32) < of_nat (length cs)"
      unfolding word_less_nat_alt nk using that by simp
    then show ?thesis
      using assms(1) that idx last nk(1)
      by (simp add: on_ack_def add.commute del: of_nat_Suc) (simp add: add.assoc)
  qed
  show "\<lbrakk>unat a = k; Suc k = length cs\<rbrakk> \<Longrightarrow> on_ack corr a s =
      (True, [], s\<lparr>as_outbound := AList.delete corr (as_outbound s)\<rparr>)"
    using assms(1) idx last by (simp add: on_ack_def del: of_nat_Suc)
qed

lemma ack_all_progress:
  assumes "map_of (as_outbound s) corr = Some \<lparr>os_chunks = cs, os_next = of_nat (Suc k), os_send = True\<rparr>"
    "k < length cs" "length cs < 2 ^ 32"
  shows "fst (snd (ack_all corr as s)) =
      drop (Suc k) (take (Suc (confirmed (length cs) k as)) cs) \<and>
    (True \<in> set (fst (ack_all corr as s)) \<longleftrightarrow> confirmed (length cs) k as = length cs) \<and>
    (map_of (as_outbound (snd (snd (ack_all corr as s)))) corr = None \<longleftrightarrow>
       confirmed (length cs) k as = length cs)"
  using assms
proof (induction as arbitrary: k s)
  case (Cons a as)
  let ?n = "length cs"
  note ack = on_ack_cases [OF Cons.prems, of a]
  consider "unat a \<noteq> k" | (more) "unat a = k" "Suc k < ?n" | (last) "unat a = k" "Suc k = ?n"
    using Cons.prems(2) by linarith
  then show ?case
  proof cases
    case 1
    then show ?thesis using ack(1) Cons.IH [OF Cons.prems] by (simp add: split_beta)
  next
    case more
    let ?s = "s\<lparr>as_outbound := AList.update corr
        \<lparr>os_chunks = cs, os_next = of_nat (Suc (Suc k)), os_send = True\<rparr> (as_outbound s)\<rparr>"
    have IH: "fst (snd (ack_all corr as ?s)) =
          drop (Suc (Suc k)) (take (Suc (confirmed ?n (Suc k) as)) cs) \<and>
        (True \<in> set (fst (ack_all corr as ?s)) \<longleftrightarrow> confirmed ?n (Suc k) as = ?n) \<and>
        (map_of (as_outbound (snd (snd (ack_all corr as ?s)))) corr = None \<longleftrightarrow>
           confirmed ?n (Suc k) as = ?n)"
      using more Cons.prems(3) by (intro Cons.IH) (simp_all add: AList.update_conv')
    have "Suc k \<le> confirmed ?n (Suc k) as" using confirmed_le [of "Suc k" ?n as] more by simp
    then have "drop (Suc k) (take (Suc (confirmed ?n (Suc k) as)) cs) =
        cs ! Suc k # drop (Suc (Suc k)) (take (Suc (confirmed ?n (Suc k) as)) cs)"
      using more by (subst Cons_nth_drop_Suc [symmetric]) auto
    then show ?thesis using ack(2) IH more Cons.prems(2) by (simp add: split_beta)
  next
    case last
    have "map_of (as_outbound (s\<lparr>as_outbound := AList.delete corr (as_outbound s)\<rparr>)) corr = None"
      by (simp add: AList.delete_conv')
    then show ?thesis
      using ack(3) ack_all_none [of _ corr as] last Cons.prems(2) by (simp add: split_beta)
  qed
qed simp

lemma begin_then_acks:
  assumes "make_chunks cfg corr data \<noteq> []" "map_of (as_outbound s) corr = None"
  shows "\<exists>sent s1. begin_outbound cfg corr data True s = Some (sent, total_chunks_of cfg data, s1) \<and>
    sent @ fst (snd (ack_all corr as s1)) =
      take (Suc (confirmed (chunk_count cfg data) 0 as)) (make_chunks cfg corr data) \<and>
    (True \<in> set (fst (ack_all corr as s1)) \<longleftrightarrow>
       1 < chunk_count cfg data \<and>
       confirmed (chunk_count cfg data) 0 as = chunk_count cfg data)"
proof -
  let ?n = "chunk_count cfg data"
  obtain c cs where C: "make_chunks cfg corr data = c # cs" using assms(1) by (cases "make_chunks cfg corr data") auto
  have len: "length (c # cs) = ?n" using length_make_chunks [of cfg corr data] C by simp
  show ?thesis
  proof (cases "1 < total_chunks_of cfg data")
    case True
    let ?s = "s\<lparr>as_outbound := AList.update corr
        \<lparr>os_chunks = c # cs, os_next = 1, os_send = True\<rparr> (as_outbound s)\<rparr>"
    have n1: "1 < ?n" using True by (simp add: word_less_nat_alt chunk_count_unat)
    have "map_of (as_outbound ?s) corr =
        Some \<lparr>os_chunks = c # cs, os_next = of_nat (Suc 0), os_send = True\<rparr>"
      by (simp add: AList.update_conv')
    moreover have "length (c # cs) < 2 ^ 32" unfolding len by (rule chunk_count_bound)
    ultimately have P: "fst (snd (ack_all corr as ?s)) =
        drop (Suc 0) (take (Suc (confirmed ?n 0 as)) (c # cs)) \<and>
      (True \<in> set (fst (ack_all corr as ?s)) \<longleftrightarrow> confirmed ?n 0 as = ?n)"
      using ack_all_progress [of ?s corr "c # cs" 0 as] n1 unfolding len by simp
    have "begin_outbound cfg corr data True s = Some ([c], total_chunks_of cfg data, ?s)"
      using C True by (simp add: begin_outbound_def)
    then show ?thesis using P C n1 by (auto intro!: exI [of _ ?s])
  next
    case False
    have "?n = 1" using False len
      by (cases ?n) (auto simp: word_less_nat_alt chunk_count_unat)
    then have "cs = []" "make_chunks cfg corr data = [c]" using len C by auto
    moreover have "begin_outbound cfg corr data True s = Some ([c], total_chunks_of cfg data, s)"
      using C False by (simp add: begin_outbound_def)
    ultimately show ?thesis
      using ack_all_none [OF assms(2), of "as"] \<open>?n = 1\<close> by simp
  qed
qed

section \<open>Properties\<close>

text \<open>in every history of chunks, transfers, acknowledgements and resets the assembler stays
  well formed: at most max_inflight_inbound reassemblies (at least one), the eviction order
  lists exactly their ids once each, every reassembly is incomplete and counts its chunks
  right, and every pending transfer points inside its chunks.\<close>

theorem assembler_bounded:
  "assembler_inv cfg (fold (asm_step cfg) ops assembler_new)"
  by (rule asm_run_inv) (simp add: assembler_inv_def assembler_new_def)

text \<open>C14: a message split by BeginOutbound and offered chunk by chunk, in any order and with any
  repetitions, is accepted throughout, yields nothing before the last missing chunk and the
  original bytes on it, and leaves no reassembly behind.\<close>

theorem chunk_roundtrip:
  assumes "chunkable cfg data" "1 < chunk_count cfg data"
    and "map_of (as_inbound s) corr = None"
    and "set is \<union> {j} = {..<chunk_count cfg data}" "j \<notin> set is"
  shows "let (rs, s1) = offer_all cfg (map ((!) (make_chunks cfg corr data)) (is @ [j])) s
         in rs = replicate (length is) \<lparr>of_accepted = True, of_payload = None\<rparr> @
                 [\<lparr>of_accepted = True, of_payload = Some data\<rparr>] \<and>
            map_of (as_inbound s1) corr = None"
  using offer_rows_complete [OF make_chunks_row [OF assms(1,2), of corr], of s "is" j]
    make_chunks_hd_corr [of cfg data corr] assms concat_make_chunks [OF assms(1), of corr]
  by (simp add: length_make_chunks split_beta del: map_append)

definition tiny_chunk_cfg :: chunk_cfg where
  "tiny_chunk_cfg = \<lparr>max_chunk_payload_bytes = 2, max_inflight_inbound = 1, max_total_chunks = 8\<rparr>"

lemma tiny_hello:
  "chunkable tiny_chunk_cfg ''hello''" "chunk_count tiny_chunk_cfg ''hello'' = 3"
  by (simp_all add: chunkable_def chunk_size_of_def tiny_chunk_cfg_def max_def
      chunk_count_unat [symmetric] total_chunks_of_def word_le_nat_alt)

theorem chunk_roundtrip_witness:
  "let (rs, s1) = offer_all tiny_chunk_cfg
         (map ((!) (make_chunks tiny_chunk_cfg ''id'' ''hello'')) ([2, 0, 2] @ [1])) assembler_new
   in rs = replicate (length [2, 0, 2 :: nat]) \<lparr>of_accepted = True, of_payload = None\<rparr> @
           [\<lparr>of_accepted = True, of_payload = Some ''hello''\<rparr>] \<and>
      map_of (as_inbound s1) ''id'' = None"
proof (rule chunk_roundtrip)
  show "set [2, 0, 2] \<union> {1} = {..<chunk_count tiny_chunk_cfg ''hello''}"
    unfolding tiny_hello by auto
qed (simp_all add: assembler_new_def tiny_hello)

text \<open>C15: flow control: whatever acknowledgements the central sends, the chunks emitted so far are
  exactly the first 1 + k of the message, where k is the number of in-order acknowledgements
  (never a chunk ahead of its predecessor's ack), and the transfer is reported complete exactly
  when all of them are acknowledged.\<close>

theorem outbound_flow_control:
  assumes "chunkable cfg data" "map_of (as_outbound s) corr = None"
  shows "case begin_outbound cfg corr data True s of
      None \<Rightarrow> False
    | Some (sent, n, s1) \<Rightarrow>
        sent @ fst (snd (ack_all corr as s1)) =
          take (Suc (confirmed (chunk_count cfg data) 0 as)) (make_chunks cfg corr data) \<and>
        n = total_chunks_of cfg data \<and>
        (True \<in> set (fst (ack_all corr as s1)) \<longleftrightarrow>
           1 < chunk_count cfg data \<and> confirmed (chunk_count cfg data) 0 as = chunk_count cfg data)"
proof -
  have "make_chunks cfg corr data \<noteq> []"
    using chunk_count_pos [OF assms(1)] length_make_chunks [of cfg corr data] by auto
  from begin_then_acks [OF this assms(2), of "as"] show ?thesis by auto
qed

theorem outbound_flow_control_witness:
  "case begin_outbound tiny_chunk_cfg ''id'' ''hello'' True assembler_new of
      None \<Rightarrow> False
    | Some (sent, n, s1) \<Rightarrow>
        sent @ fst (snd (ack_all ''id'' [0, 7, 0, 1] s1)) =
          take (Suc (confirmed (chunk_count tiny_chunk_cfg ''hello'') 0 [0, 7, 0, 1]))
            (make_chunks tiny_chunk_cfg ''id'' ''hello'') \<and>
        n = total_chunks_of tiny_chunk_cfg ''hello'' \<and>
        (True \<in> set (fst (ack_all ''id'' [0, 7, 0, 1] s1)) \<longleftrightarrow>
           1 < chunk_count tiny_chunk_cfg ''hello'' \<and>
           confirmed (chunk_count tiny_chunk_cfg ''hello'') 0 [0, 7, 0, 1] =
             chunk_count tiny_chunk_cfg ''hello'')"
  by (rule outbound_flow_control) (simp_all add: assembler_new_def tiny_hello)

text \<open>C16: end to end: once the central has confirmed all chunks but the last, the emitted chunks
  offered in order to an assembler on the other side rebuild the response byte for byte.\<close>

theorem response_delivered:
  assumes "chunkable cfg data" "map_of (as_outbound s) corr = None"
    and "map_of (as_inbound peer) corr = None"
    and "chunk_count cfg data \<le> Suc (confirmed (chunk_count cfg data) 0 as)"
  shows "case begin_outbound cfg corr data True s of
      None \<Rightarrow> False
    | Some (sent, n, s1) \<Rightarrow>
        last (fst (offer_all cfg (sent @ fst (snd (ack_all corr as s1))) peer)) =
          \<lparr>of_accepted = True, of_payload = Some data\<rparr>"
proof -
  let ?n = "chunk_count cfg data" and ?cs = "make_chunks cfg corr data"
  have pos: "0 < ?n" by (rule chunk_count_pos [OF assms(1)])
  then have "?cs \<noteq> []" using length_make_chunks [of cfg corr data] by auto
  from begin_then_acks [OF this assms(2), of "as"] obtain sent s1 where
    B: "begin_outbound cfg corr data True s = Some (sent, total_chunks_of cfg data, s1)" and
    E: "sent @ fst (snd (ack_all corr as s1)) = ?cs"
    using assms(4) length_make_chunks [of cfg corr data] by auto
  have "last (fst (offer_all cfg ?cs peer)) = \<lparr>of_accepted = True, of_payload = Some data\<rparr>"
  proof (cases "1 < ?n")
    case True
    have "[0 ..< ?n] = [0 ..< ?n - 1] @ [?n - 1]"
      using pos by (metis Suc_diff_1 upt_Suc_append zero_le)
    then have "map ((!) ?cs) ([0 ..< ?n - 1] @ [?n - 1]) = ?cs"
      by (metis length_make_chunks map_nth)
    moreover have "set [0 ..< ?n - 1] \<union> {?n - 1} = {..<?n}" "?n - 1 \<notin> set [0 ..< ?n - 1]"
      using pos by auto
    moreover have "map_of (as_inbound peer) (cp_corr (hd ?cs)) = None"
      using assms(3) make_chunks_hd_corr [OF pos, of corr] by simp
    ultimately show ?thesis
      using offer_rows_complete [OF make_chunks_row [OF assms(1) True, of corr], of peer
          "[0 ..< ?n - 1]" "?n - 1"] concat_make_chunks [OF assms(1), of corr]
      by (simp add: length_make_chunks)
  next
    case False
    then have "?n = 1" using pos by simp
    moreover have "1 \<le> max_total_chunks cfg"
      using assms(1) by (simp add: chunkable_def word_le_nat_alt Suc_le_eq unat_gt_0)
    ultimately show ?thesis using single_chunk [OF assms(1), of corr]
      using assms(1) by (simp add: offer_inbound_def not_less chunkable_def)
  qed
  then show ?thesis using B E by simp
qed

theorem response_delivered_witness:
  "case begin_outbound tiny_chunk_cfg ''id'' ''hello'' True assembler_new of
      None \<Rightarrow> False
    | Some (sent, n, s1) \<Rightarrow>
        last (fst (offer_all tiny_chunk_cfg (sent @ fst (snd (ack_all ''id'' [0, 1] s1)))
                 assembler_new)) =
          \<lparr>of_accepted = True, of_payload = Some ''hello''\<rparr>"
  by (rule response_delivered) (simp_all add: assembler_new_def tiny_hello)

end
