(* ===== verification/Frames.thy ===== *)
theory Frames
  imports Prelude
begin

text \<open>
  Frames and the bytes they point to: \<^verbatim>\<open>domain/capture/models/frame.hpp\<close>,
  \<^verbatim>\<open>domain/common/models\<close>, MaterializeFrame
  (\<^verbatim>\<open>domain/buffer/services/materialize-frame.cpp\<close>) and the fan-out sink.

  A plane holds a raw pointer, so the bytes live in an explicit memory: blocks of bytes named
  by numbers.  A pointer is null or a block and an offset.  Reading or writing outside a block
  is undefined behaviour in the code and has no result here.
\<close>

section \<open>Data\<close>

datatype pixel_format = NV12 | I420 | YUYV | RGB8 | BGR8 | RGBA8 | BGRA8 | GRAY8

fun pixel_format_to_string :: "pixel_format \<Rightarrow> string" where
  "pixel_format_to_string NV12 = ''NV12''"
| "pixel_format_to_string I420 = ''I420''"
| "pixel_format_to_string YUYV = ''YUYV''"
| "pixel_format_to_string RGB8 = ''RGB8''"
| "pixel_format_to_string BGR8 = ''BGR8''"
| "pixel_format_to_string RGBA8 = ''RGBA8''"
| "pixel_format_to_string BGRA8 = ''BGRA8''"
| "pixel_format_to_string GRAY8 = ''GRAY8''"

datatype memory_type = CPU | GPU | NVMM

datatype rotation = DEGREE_0 | DEGREE_90 | DEGREE_180 | DEGREE_270

record output_size =
  osz_width :: u32
  osz_height :: u32

type_synonym address = "(nat \<times> nat) option"

record frame_plane =
  fp_stride :: u32
  fp_data :: address
  fp_size :: nat

record frame_geometry =
  fg_width :: u32
  fg_height :: u32

record frame =
  fr_id :: u64
  fr_format :: pixel_format
  fr_memory :: memory_type
  fr_geometry :: frame_geometry
  fr_planes :: "frame_plane list"
  fr_captured_at :: int
  fr_owner :: "nat option"

section \<open>Memory\<close>

type_synonym memory = "nat \<Rightarrow> u8 list option"

definition read_bytes :: "memory \<Rightarrow> address \<Rightarrow> nat \<Rightarrow> u8 list option" where
  "read_bytes m a n =
     (case a of
        None \<Rightarrow> None
      | Some (b, off) \<Rightarrow>
          (case m b of
             None \<Rightarrow> None
           | Some bs \<Rightarrow> if off + n \<le> length bs then Some (take n (drop off bs)) else None))"

definition write_bytes :: "memory \<Rightarrow> nat \<Rightarrow> nat \<Rightarrow> u8 list \<Rightarrow> memory option" where
  "write_bytes m b off xs =
     (case m b of
        None \<Rightarrow> None
      | Some bs \<Rightarrow>
          if off + length xs \<le> length bs
          then Some (m(b \<mapsto> take off bs @ xs @ drop (off + length xs) bs))
          else None)"

section \<open>MaterializeFrame\<close>

definition total_plane_size :: "frame_plane list \<Rightarrow> nat" where
  "total_plane_size ps = sum_list (map fp_size ps)"

text \<open>The copy loop, from offset \<^verbatim>\<open>off\<close> of the owned block.\<close>

fun copy_planes :: "nat \<Rightarrow> nat \<Rightarrow> frame_plane list \<Rightarrow> memory \<Rightarrow> (frame_plane list \<times> memory) option" where
  "copy_planes b off [] m = Some ([], m)"
| "copy_planes b off (p # ps) m =
     (case (if 0 < fp_size p \<and> fp_data p \<noteq> None
            then (case read_bytes m (fp_data p) (fp_size p) of
                    None \<Rightarrow> None
                  | Some xs \<Rightarrow> write_bytes m b off xs)
            else Some m) of
        None \<Rightarrow> None
      | Some m1 \<Rightarrow>
          (case copy_planes b (off + fp_size p) ps m1 of
             None \<Rightarrow> None
           | Some (qs, m2) \<Rightarrow>
               Some (\<lparr>fp_stride = fp_stride p, fp_data = Some (b, off), fp_size = fp_size p\<rparr> # qs,
                     m2)))"

text \<open>The allocator's choice of the new block is the argument \<^verbatim>\<open>b\<close>.\<close>

definition materialize_frame :: "nat \<Rightarrow> frame \<Rightarrow> memory \<Rightarrow> (frame \<times> memory) option" where
  "materialize_frame b src m =
     (case copy_planes b 0 (fr_planes src)
             (m(b \<mapsto> replicate (total_plane_size (fr_planes src)) 0)) of
        None \<Rightarrow> None
      | Some (ps, m1) \<Rightarrow>
          Some (\<lparr>fr_id = fr_id src, fr_format = fr_format src, fr_memory = fr_memory src,
                 fr_geometry = fr_geometry src, fr_planes = ps,
                 fr_captured_at = fr_captured_at src, fr_owner = Some b\<rparr>, m1))"

section \<open>Fan-out\<close>

text \<open>A sink is its state and its Push; a null pointer is None.  The sinks see the frame in the
  order of the vector.\<close>

fun fan_out_push :: "('f \<Rightarrow> 's \<Rightarrow> 's) \<Rightarrow> 'f \<Rightarrow> 's option list \<Rightarrow> 's option list" where
  "fan_out_push push f [] = []"
| "fan_out_push push f (None # ss) = None # fan_out_push push f ss"
| "fan_out_push push f (Some s # ss) = Some (push f s) # fan_out_push push f ss"

section \<open>What MaterializeFrame copies\<close>

text \<open>The bytes a plane stands for: zeros when it has no data.\<close>

definition plane_bytes :: "memory \<Rightarrow> frame_plane \<Rightarrow> u8 list" where
  "plane_bytes m p =
     (if 0 < fp_size p \<and> fp_data p \<noteq> None then the (read_bytes m (fp_data p) (fp_size p))
      else replicate (fp_size p) 0)"

definition plane_readable :: "memory \<Rightarrow> frame_plane \<Rightarrow> bool" where
  "plane_readable m p \<longleftrightarrow>
     fp_size p = 0 \<or> fp_data p = None \<or> read_bytes m (fp_data p) (fp_size p) \<noteq> None"

fun layout :: "nat \<Rightarrow> nat \<Rightarrow> frame_plane list \<Rightarrow> frame_plane list" where
  "layout b off [] = []"
| "layout b off (p # ps) =
     \<lparr>fp_stride = fp_stride p, fp_data = Some (b, off), fp_size = fp_size p\<rparr> #
       layout b (off + fp_size p) ps"

lemma read_bytes_length: "read_bytes m a n = Some xs \<Longrightarrow> length xs = n"
  by (auto simp: read_bytes_def split: option.splits if_splits)

lemma read_bytes_other:
  "\<lbrakk>read_bytes m a n \<noteq> None; m b = None\<rbrakk> \<Longrightarrow> read_bytes (m(b \<mapsto> xs)) a n = read_bytes m a n"
  by (auto simp: read_bytes_def split: option.splits)

lemma plane_bytes_length: "plane_readable m p \<Longrightarrow> length (plane_bytes m p) = fp_size p"
  by (auto simp: plane_bytes_def plane_readable_def dest: read_bytes_length)

lemma write_bytes_region:
  "\<lbrakk>m b = Some (pre @ replicate (length xs + k) 0); length pre = off\<rbrakk> \<Longrightarrow>
   write_bytes m b off xs = Some (m(b \<mapsto> (pre @ xs) @ replicate k 0))"
  by (simp add: write_bytes_def)

lemma copy_planes_spec:
  assumes "m0 b = None" "\<forall>p \<in> set ps. plane_readable m0 p"
  shows "length pre = off \<Longrightarrow>
    copy_planes b off ps (m0(b \<mapsto> pre @ replicate (total_plane_size ps) 0)) =
      Some (layout b off ps, m0(b \<mapsto> pre @ concat (map (plane_bytes m0) ps)))"
  using assms(2)
proof (induction ps arbitrary: pre off)
  case Nil
  then show ?case by (simp add: total_plane_size_def)
next
  case (Cons p ps)
  let ?k = "total_plane_size ps"
  let ?m = "m0(b \<mapsto> pre @ replicate (fp_size p + ?k) 0)"
  have tot: "total_plane_size (p # ps) = fp_size p + ?k" by (simp add: total_plane_size_def)
  have IH: "copy_planes b (off + fp_size p) ps
        (m0(b \<mapsto> (pre @ plane_bytes m0 p) @ replicate ?k 0)) =
      Some (layout b (off + fp_size p) ps,
        m0(b \<mapsto> (pre @ plane_bytes m0 p) @ concat (map (plane_bytes m0) ps)))"
    using Cons.prems by (intro Cons.IH) (simp_all add: plane_bytes_length)
  show ?case
  proof (cases "0 < fp_size p \<and> fp_data p \<noteq> None")
    case True
    then obtain xs where xs: "read_bytes m0 (fp_data p) (fp_size p) = Some xs"
      using Cons.prems(2) by (auto simp: plane_readable_def)
    then have rd: "read_bytes ?m (fp_data p) (fp_size p) = Some xs"
      using read_bytes_other [of m0 "fp_data p" "fp_size p" b] assms(1) by simp
    have len: "length xs = fp_size p" using xs by (rule read_bytes_length)
    have pb: "plane_bytes m0 p = xs" using True xs by (simp add: plane_bytes_def)
    have "write_bytes ?m b off xs = Some (m0(b \<mapsto> (pre @ xs) @ replicate ?k 0))"
      using write_bytes_region [of ?m b pre xs ?k off] Cons.prems(1) len by simp
    then show ?thesis using True rd IH pb by (simp add: tot del: fun_upd_apply)
  next
    case False
    then have "plane_bytes m0 p = replicate (fp_size p) 0" by (auto simp: plane_bytes_def)
    then show ?thesis using False IH by (auto simp: tot replicate_add simp del: fun_upd_apply)
  qed
qed

lemma layout_bytes:
  assumes "\<forall>p \<in> set ps. plane_readable m0 p" "m b = Some (pre @ concat (map (plane_bytes m0) ps))"
    "length pre = off"
  shows "map (plane_bytes m) (layout b off ps) = map (plane_bytes m0) ps"
  using assms
proof (induction ps arbitrary: pre off)
  case (Cons p ps)
  have "map (plane_bytes m) (layout b (off + fp_size p) ps) = map (plane_bytes m0) ps"
    using Cons.prems by (intro Cons.IH [of "pre @ plane_bytes m0 p"]) (simp_all add: plane_bytes_length)
  moreover have "length (plane_bytes m0 p) = fp_size p"
    using Cons.prems by (simp add: plane_bytes_length)
  moreover have "plane_bytes m \<lparr>fp_stride = fp_stride p, fp_data = Some (b, off),
      fp_size = fp_size p\<rparr> = plane_bytes m0 p"
    using Cons.prems(2,3) calculation(2) by (auto simp: plane_bytes_def [of m] read_bytes_def)
  ultimately show ?case by simp
qed simp

section \<open>Properties\<close>

text \<open>MaterializeFrame is a deep copy: with readable planes it always succeeds, keeps the
  metadata and the plane layout, leaves every other block of memory alone, and the copy keeps
  showing the source's bytes in every later memory that preserves the owned block, whatever
  happens to the source's.\<close>

theorem materialize_deep_copy:
  assumes "m b = None" "\<forall>p \<in> set (fr_planes src). plane_readable m p"
  shows "case materialize_frame b src m of
      None \<Rightarrow> False
    | Some (out, m1) \<Rightarrow>
        out = src\<lparr>fr_planes := layout b 0 (fr_planes src), fr_owner := Some b\<rparr> \<and>
        m1 = m(b \<mapsto> concat (map (plane_bytes m) (fr_planes src))) \<and>
        (\<forall>m2. m2 b = m1 b \<longrightarrow>
           map (plane_bytes m2) (fr_planes out) = map (plane_bytes m) (fr_planes src))"
proof -
  have "materialize_frame b src m =
      Some (src\<lparr>fr_planes := layout b 0 (fr_planes src), fr_owner := Some b\<rparr>,
        m(b \<mapsto> concat (map (plane_bytes m) (fr_planes src))))"
    using copy_planes_spec [of m b "fr_planes src" "[]" 0] assms
    by (simp add: materialize_frame_def)
  then show ?thesis
    using layout_bytes [of "fr_planes src" m _ b "[]" 0] assms(2) by simp
qed

definition two_plane_frame :: frame where
  "two_plane_frame =
     \<lparr>fr_id = 7, fr_format = NV12, fr_memory = CPU, fr_geometry = \<lparr>fg_width = 2, fg_height = 2\<rparr>,
      fr_planes = [\<lparr>fp_stride = 2, fp_data = Some (0, 1), fp_size = 4\<rparr>,
                   \<lparr>fp_stride = 2, fp_data = None, fp_size = 2\<rparr>],
      fr_captured_at = 5, fr_owner = None\<rparr>"

theorem materialize_deep_copy_witness:
  "case materialize_frame 1 two_plane_frame [0 \<mapsto> [9, 1, 2, 3, 4]] of
      None \<Rightarrow> False
    | Some (out, m1) \<Rightarrow>
        out = two_plane_frame\<lparr>fr_planes := layout 1 0 (fr_planes two_plane_frame),
                              fr_owner := Some 1\<rparr> \<and>
        m1 = [0 \<mapsto> [9, 1, 2, 3, 4],
              1 \<mapsto> concat (map (plane_bytes [0 \<mapsto> [9, 1, 2, 3, 4]]) (fr_planes two_plane_frame))] \<and>
        (\<forall>m2. m2 1 = m1 1 \<longrightarrow>
           map (plane_bytes m2) (fr_planes out) =
             map (plane_bytes [0 \<mapsto> [9, 1, 2, 3, 4]]) (fr_planes two_plane_frame))"
  by (rule materialize_deep_copy)
     (simp_all add: two_plane_frame_def plane_readable_def read_bytes_def)

end
