(* ===== verification/Session.thy ===== *)
theory Session
  imports Prelude
begin

text \<open>
  The session lifecycle: \<^verbatim>\<open>domain/session/models\<close>,
  \<^verbatim>\<open>app/session/services/session_manager/session-manager.cpp\<close> and
  \<^verbatim>\<open>app/session/services/session_cleanup/session-cleanup.cpp\<close>.

  Every method of SessionManager holds its mutex for its whole effect and is one state
  transformer.  OnDisconnect releases it while the cleanup runs and then assigns a fresh state,
  so whatever other threads did to the session in between is overwritten.
\<close>

section \<open>Models\<close>

datatype match_segment = InPlay | HalfTime | FullTime

record live_match =
  lm_score_a :: u32
  lm_score_b :: u32
  lm_period :: u32
  lm_clock_seconds :: u32
  lm_clock_running :: bool
  lm_segment :: match_segment

definition live_match_default :: live_match where
  "live_match_default =
     \<lparr>lm_score_a = 0, lm_score_b = 0, lm_period = 0, lm_clock_seconds = 0,
      lm_clock_running = False, lm_segment = InPlay\<rparr>"

record session_config =
  sc_match_uuid :: string
  sc_user_uuid :: string
  sc_sport :: string
  sc_num_periods :: i32
  sc_period_length_seconds :: i32
  sc_rtmp_url :: string
  sc_stream_key :: string
  sc_video_output_path :: string
  sc_thumbnail_output_path :: string
  sc_team_a_id :: string
  sc_team_b_id :: string
  sc_team_a_name :: string
  sc_team_b_name :: string
  sc_team_a_color_hex :: string
  sc_team_b_color_hex :: string

datatype session_phase = Idle | Connected | WifiReady | Configured | Ready | Recording

primrec phase_rank :: "session_phase \<Rightarrow> nat" where
  "phase_rank Idle = 0"
| "phase_rank Connected = 1"
| "phase_rank WifiReady = 2"
| "phase_rank Configured = 3"
| "phase_rank Ready = 4"
| "phase_rank Recording = 5"

lemma phase_rank_inj [simp]: "phase_rank p = phase_rank q \<longleftrightarrow> p = q"
  by (cases p; cases q) simp_all

instantiation session_phase :: linorder
begin

definition less_eq_session_phase :: "session_phase \<Rightarrow> session_phase \<Rightarrow> bool" where
  "p \<le> q \<longleftrightarrow> phase_rank p \<le> phase_rank q"

definition less_session_phase :: "session_phase \<Rightarrow> session_phase \<Rightarrow> bool" where
  "p < q \<longleftrightarrow> phase_rank p < phase_rank q"

instance
  by standard (auto simp: less_eq_session_phase_def less_session_phase_def)

end

record session_state =
  ss_phase :: session_phase
  ss_config :: "session_config option"
  ss_match :: live_match

definition session_state_default :: session_state where
  "session_state_default = \<lparr>ss_phase = Idle, ss_config = None, ss_match = live_match_default\<rparr>"

section \<open>SessionManager\<close>

definition session_phase_of :: "session_state \<Rightarrow> session_phase" where
  "session_phase_of s = ss_phase s"

definition session_snapshot :: "session_state \<Rightarrow> session_state" where
  "session_snapshot s = s"

definition on_connect :: "session_state \<Rightarrow> bool \<times> session_state" where
  "on_connect s = (if ss_phase s \<noteq> Idle then (False, s) else (True, s\<lparr>ss_phase := Connected\<rparr>))"

definition on_wifi_ready :: "session_state \<Rightarrow> bool \<times> session_state" where
  "on_wifi_ready s =
     (if ss_phase s < Connected then (False, s)
      else if ss_phase s = Connected then (True, s\<lparr>ss_phase := WifiReady\<rparr>)
      else (True, s))"

definition on_wifi_stopped :: "session_state \<Rightarrow> bool \<times> session_state" where
  "on_wifi_stopped s =
     (if ss_phase s = Idle then (False, s)
      else (True, s\<lparr>ss_phase := Connected, ss_config := None, ss_match := live_match_default\<rparr>))"

text \<open>\<^verbatim>\<open>std::filesystem::create_directories\<close> is the argument \<^verbatim>\<open>mkdirs\<close>: whether it succeeds for a
  path.  The directories requested are returned with the verdict.\<close>

definition make_parent :: "(string \<Rightarrow> bool) \<Rightarrow> string \<Rightarrow> bool \<times> string list" where
  "make_parent mkdirs file_path =
     (if file_path = [] then (True, [])
      else let parent = parent_path file_path
           in if parent = [] then (True, []) else (mkdirs parent, [parent]))"

definition prepare_output_dirs :: "(string \<Rightarrow> bool) \<Rightarrow> session_config \<Rightarrow> bool \<times> string list" where
  "prepare_output_dirs mkdirs cfg =
     (case make_parent mkdirs (sc_video_output_path cfg) of
        (False, made) \<Rightarrow> (False, made)
      | (True, made) \<Rightarrow>
          (case make_parent mkdirs (sc_thumbnail_output_path cfg) of
             (ok, made') \<Rightarrow> (ok, made @ made')))"

definition apply_session_config ::
  "(string \<Rightarrow> bool) \<Rightarrow> session_config \<Rightarrow> session_state \<Rightarrow> bool \<times> session_state" where
  "apply_session_config mkdirs cfg s =
     (if ss_phase s < WifiReady \<or> ss_phase s = Recording then (False, s)
      else if \<not> fst (prepare_output_dirs mkdirs cfg) then (False, s)
      else (True,
            if ss_phase s = WifiReady then s\<lparr>ss_config := Some cfg, ss_phase := Configured\<rparr>
            else s\<lparr>ss_config := Some cfg\<rparr>))"

definition on_overlay_configured :: "session_state \<Rightarrow> bool \<times> session_state" where
  "on_overlay_configured s =
     (if ss_phase s < Configured then (False, s)
      else if ss_phase s = Configured then (True, s\<lparr>ss_phase := Ready\<rparr>)
      else (True, s))"

definition on_recording_start :: "session_state \<Rightarrow> bool \<times> session_state" where
  "on_recording_start s =
     (if ss_phase s \<noteq> Ready then (False, s) else (True, s\<lparr>ss_phase := Recording\<rparr>))"

definition on_recording_stop :: "session_state \<Rightarrow> bool \<times> session_state" where
  "on_recording_stop s =
     (if ss_phase s \<noteq> Recording then (False, s) else (True, s\<lparr>ss_phase := Ready\<rparr>))"

text \<open>The mutation is None when the function object is empty.\<close>

definition apply_match_update ::
  "(live_match \<Rightarrow> live_match) option \<Rightarrow> session_state \<Rightarrow> bool \<times> session_state" where
  "apply_match_update mutate s =
     (case mutate of
        None \<Rightarrow> (False, s)
      | Some f \<Rightarrow> if ss_phase s < Configured then (False, s)
                  else (True, s\<lparr>ss_match := f (ss_match s)\<rparr>))"

text \<open>A cleanup step acts on the rest of the device and may throw (Some message); what it did
  before throwing stays done.\<close>

record 'w session_cleanup =
  cl_finalize_recording :: "'w \<Rightarrow> string option \<times> 'w"
  cl_stop_streaming :: "'w \<Rightarrow> string option \<times> 'w"
  cl_teardown_wifi_direct :: "'w \<Rightarrow> string option \<times> 'w"

definition cleanup_safe :: "('w \<Rightarrow> string option \<times> 'w) \<Rightarrow> 'w \<Rightarrow> 'w" where
  "cleanup_safe action w = (case action w of (None, w1) \<Rightarrow> w1 | (Some _, w1) \<Rightarrow> w1)"

definition on_disconnect ::
  "'w session_cleanup \<Rightarrow> session_state \<Rightarrow> 'w \<Rightarrow> session_state \<times> 'w" where
  "on_disconnect cl s w =
     (if ss_phase s = Idle then (s, w)
      else
        let w1 = cleanup_safe (cl_finalize_recording cl) w;
            w2 = cleanup_safe (cl_stop_streaming cl) w1;
            w3 = cleanup_safe (cl_teardown_wifi_direct cl) w2
        in (session_state_default, w3))"

lemmas session_defs = on_connect_def on_wifi_ready_def on_wifi_stopped_def
  apply_session_config_def on_overlay_configured_def on_recording_start_def
  on_recording_stop_def apply_match_update_def

lemmas phase_order = less_eq_session_phase_def less_session_phase_def

text \<open>
  What the manager relies on of its cleanup: ending the recording, stopping the streams and tearing
  WiFi Direct down reach their goal from every good state, also when they throw, and a later step
  does not undo an earlier one.
\<close>

locale cleanup_port =
  fixes cl :: "'w session_cleanup"
    and good recording_over streams_over wifi_over :: "'w \<Rightarrow> bool"
  assumes finalize: "\<lbrakk>good w; cl_finalize_recording cl w = (x, w1)\<rbrakk> \<Longrightarrow> good w1 \<and> recording_over w1"
    and stop_streams: "\<lbrakk>good w; recording_over w; cl_stop_streaming cl w = (x, w1)\<rbrakk> \<Longrightarrow>
      good w1 \<and> recording_over w1 \<and> streams_over w1"
    and teardown: "\<lbrakk>good w; recording_over w; streams_over w; cl_teardown_wifi_direct cl w = (x, w1)\<rbrakk> \<Longrightarrow>
      good w1 \<and> recording_over w1 \<and> streams_over w1 \<and> wifi_over w1"
begin

lemma cleanup_safe_runs: "\<exists>x. action w = (x, cleanup_safe action w)"
  by (cases "action w") (simp add: cleanup_safe_def split: option.split)

lemma disconnect_over:
  assumes "good w" "ss_phase s \<noteq> Idle" "on_disconnect cl s w = (t, w1)"
  shows "t = session_state_default \<and> good w1 \<and> recording_over w1 \<and> streams_over w1 \<and> wifi_over w1"
proof -
  let ?w1 = "cleanup_safe (cl_finalize_recording cl) w"
  let ?w2 = "cleanup_safe (cl_stop_streaming cl) ?w1"
  have 1: "good ?w1 \<and> recording_over ?w1"
    using finalize [OF assms(1)] cleanup_safe_runs [of "cl_finalize_recording cl" w] by blast
  then have 2: "good ?w2 \<and> recording_over ?w2 \<and> streams_over ?w2"
    using stop_streams cleanup_safe_runs [of "cl_stop_streaming cl" ?w1] by blast
  then have "good (cleanup_safe (cl_teardown_wifi_direct cl) ?w2) \<and>
      recording_over (cleanup_safe (cl_teardown_wifi_direct cl) ?w2) \<and>
      streams_over (cleanup_safe (cl_teardown_wifi_direct cl) ?w2) \<and>
      wifi_over (cleanup_safe (cl_teardown_wifi_direct cl) ?w2)"
    using teardown cleanup_safe_runs [of "cl_teardown_wifi_direct cl" ?w2] by blast
  then show ?thesis using assms(2,3) by (auto simp: on_disconnect_def Let_def)
qed

end

section \<open>Histories\<close>

text \<open>The calls that reach the manager, in the order in which they take its mutex; a disconnect
  whose cleanup has finished is one call.\<close>

datatype session_op =
    OpConnect
  | OpWifiReady
  | OpWifiStopped
  | OpApplyConfig "string \<Rightarrow> bool" session_config
  | OpOverlayConfigured
  | OpRecordingStart
  | OpRecordingStop
  | OpMatchUpdate "(live_match \<Rightarrow> live_match) option"
  | OpDisconnect

fun session_call :: "session_op \<Rightarrow> session_state \<Rightarrow> bool \<times> session_state" where
  "session_call OpConnect s = on_connect s"
| "session_call OpWifiReady s = on_wifi_ready s"
| "session_call OpWifiStopped s = on_wifi_stopped s"
| "session_call (OpApplyConfig mkdirs cfg) s = apply_session_config mkdirs cfg s"
| "session_call OpOverlayConfigured s = on_overlay_configured s"
| "session_call OpRecordingStart s = on_recording_start s"
| "session_call OpRecordingStop s = on_recording_stop s"
| "session_call (OpMatchUpdate f) s = apply_match_update f s"
| "session_call OpDisconnect s =
     (True, if ss_phase s = Idle then s else session_state_default)"

inductive session_step :: "session_state \<Rightarrow> session_state \<Rightarrow> bool" where
  "snd (session_call op s) = t \<Longrightarrow> session_step s t"

inductive session_reachable :: "session_state \<Rightarrow> bool" where
  start: "session_reachable session_state_default"
| step: "session_reachable s \<Longrightarrow> session_step s t \<Longrightarrow> session_reachable t"

inductive_cases session_stepE: "session_step s t"

definition session_inv :: "session_state \<Rightarrow> bool" where
  "session_inv s \<longleftrightarrow>
     (ss_config s \<noteq> None \<longleftrightarrow> Configured \<le> ss_phase s) \<and>
     (ss_phase s < Configured \<longrightarrow> ss_match s = live_match_default)"

lemma on_disconnect_default:
  "ss_phase s \<noteq> Idle \<Longrightarrow> fst (on_disconnect cl s w) = session_state_default"
  by (simp add: on_disconnect_def Let_def session_state_default_def)

lemma session_call_inv [inv_rules]: "session_inv s \<Longrightarrow> session_inv (snd (session_call op s))"
  by (cases op; cases "ss_phase s")
     (auto simp: session_inv_def session_defs phase_order session_state_default_def
       split: option.splits)

lemma session_reachable_inv: "session_reachable s \<Longrightarrow> session_inv s"
proof (induction rule: session_reachable.induct)
  case start
  show ?case by (simp add: session_inv_def session_state_default_def phase_order)
next
  case (step s t)
  then show ?case by (auto elim!: session_stepE intro: session_call_inv)
qed

text \<open>The phases a history goes through.\<close>

fun session_trace :: "session_op list \<Rightarrow> session_state \<Rightarrow> session_phase list" where
  "session_trace [] s = [ss_phase s]"
| "session_trace (op # ops) s = ss_phase s # session_trace ops (snd (session_call op s))"

lemma session_call_advance:
  "phase_rank (ss_phase (snd (session_call op s))) \<le> Suc (phase_rank (ss_phase s))"
  by (cases op; cases "ss_phase s")
     (auto simp: session_defs phase_order session_state_default_def split: option.splits)

fun climbs :: "nat list \<Rightarrow> bool" where
  "climbs (m # n # ns) \<longleftrightarrow> n \<le> Suc m \<and> climbs (n # ns)"
| "climbs _ \<longleftrightarrow> True"

lemma session_trace_climbs: "climbs (map phase_rank (session_trace ops s))"
proof (induction ops arbitrary: s)
  case (Cons op ops)
  have "climbs (map phase_rank (session_trace ops (snd (session_call op s))))" by (rule Cons)
  then show ?case
    using session_call_advance [of op s] by (cases ops) simp_all
qed simp

lemma climbs_visits:
  "\<lbrakk>climbs (m # ns); m \<le> k; k \<le> last (m # ns)\<rbrakk> \<Longrightarrow> k \<in> set (m # ns)"
proof (induction ns arbitrary: m)
  case (Cons n ns)
  then show ?case
  proof (cases "k = m")
    case False
    then have "n \<le> k" using Cons.prems by simp
    then show ?thesis using Cons.IH [of n] Cons.prems by auto
  qed simp
qed simp

section \<open>Properties\<close>

text \<open>in every reachable session a configuration is present exactly from phase Configured on,
  and before that the live match is the default one.\<close>

theorem session_config_phase:
  assumes "session_reachable s"
  shows "(ss_config s \<noteq> None \<longleftrightarrow> Configured \<le> ss_phase s) \<and>
    (ss_phase s < Configured \<longrightarrow> ss_match s = live_match_default)"
  using session_reachable_inv [OF assms] by (simp add: session_inv_def)

theorem session_config_phase_witness:
  "ss_config (snd (on_connect session_state_default)) = None \<and>
   ss_match (snd (on_connect session_state_default)) = live_match_default"
proof -
  have "session_reachable (snd (on_connect session_state_default))"
    by (rule session_reachable.step [OF session_reachable.start])
       (rule session_step.intros [of OpConnect], simp)
  from session_config_phase [OF this] show ?thesis
    by (simp add: on_connect_def session_state_default_def less_session_phase_def
        less_eq_session_phase_def)
qed

text \<open>C17: the lifecycle cannot be skipped: a history that starts Idle and ends in some phase went
  through every phase before it (so a recording needs connection, WiFi group, session
  configuration and overlay layout, in this order).\<close>

theorem session_phases_in_order:
  assumes "p \<le> last (session_trace ops session_state_default)"
  shows "p \<in> set (session_trace ops session_state_default)"
proof -
  let ?t = "session_trace ops session_state_default"
  obtain q qs where T: "?t = q # qs" and q: "q = Idle"
    by (cases ops) (auto simp: session_state_default_def)
  have "climbs (phase_rank q # map phase_rank qs)"
    using session_trace_climbs [of ops session_state_default] T by simp
  moreover have "phase_rank q \<le> phase_rank p" using q by simp
  moreover have "last (phase_rank q # map phase_rank qs) = phase_rank (last ?t)"
    using T last_map [of ?t phase_rank] by simp
  ultimately have "phase_rank p \<in> set (phase_rank q # map phase_rank qs)"
    using assms by (intro climbs_visits) (simp_all add: less_eq_session_phase_def)
  then show ?thesis using T by auto
qed

theorem session_phases_in_order_witness:
  "WifiReady \<in> set (session_trace [OpConnect, OpRecordingStart, OpWifiReady] session_state_default)"
  by (rule session_phases_in_order)
     (simp add: session_defs phase_order session_state_default_def)

text \<open>OnDisconnect from any active phase runs all three cleanup steps, in order and each on the
  state the previous one left even when that one threw, and then clears the whole session;
  when Idle it does nothing.\<close>

theorem disconnect_cleans_up:
  "on_disconnect cl s w =
     (if ss_phase s = Idle then (s, w)
      else (session_state_default,
            snd (cl_teardown_wifi_direct cl (snd (cl_stop_streaming cl
              (snd (cl_finalize_recording cl w)))))))"
proof -
  have safe: "cleanup_safe a v = snd (a v)" for a :: "'a \<Rightarrow> string option \<times> 'a" and v
    by (auto simp: cleanup_safe_def split: prod.splits option.splits)
  show ?thesis
    by (simp add: on_disconnect_def safe Let_def session_state_default_def)
qed

end
