(* ===== verification/Recording.thy ===== *)
theory Recording
  imports Frames
begin

text \<open>
  The continuous recording: \<^verbatim>\<open>app/storage/services/recording_service/recording-service.cpp\<close>
  over the port IContinuousRecorder (a record of operations), its GStreamer implementation
  \<^verbatim>\<open>adapters/storage/gstreamer/gst-continuous-recorder.cpp\<close>, and the disk guard
  \<^verbatim>\<open>adapters/storage/filesystem/filesystem-disk-guard.cpp\<close>.

  GStreamer, the file system and the thumbnail writer are not part of the repository: what
  their calls answer is an argument.
\<close>

section \<open>Ports\<close>

datatype recording_state = RecIdle | RecRecording | RecPaused

record stop_recording_result =
  sr_success :: bool
  sr_file_path :: string
  sr_thumbnail_written :: bool

record 'r recorder_ops =
  ro_start :: "string \<Rightarrow> 'r \<Rightarrow> bool \<times> 'r"
  ro_pause :: "'r \<Rightarrow> 'r"
  ro_resume :: "'r \<Rightarrow> 'r"
  ro_stop :: "'r \<Rightarrow> bool \<times> 'r"
  ro_is_running :: "'r \<Rightarrow> bool"
  ro_push :: "frame \<Rightarrow> 'r \<Rightarrow> 'r"

section \<open>RecordingService\<close>

record 'r recording_service =
  rs_recorder :: 'r
  rs_state :: recording_state
  rs_video_path :: string
  rs_thumbnail_path :: string
  rs_last_frame :: "frame option"

definition recording_service_new :: "'r \<Rightarrow> 'r recording_service" where
  "recording_service_new r =
     \<lparr>rs_recorder = r, rs_state = RecIdle, rs_video_path = [], rs_thumbnail_path = [],
      rs_last_frame = None\<rparr>"

text \<open>\<^verbatim>\<open>disk_ok\<close> is the disk guard's answer.\<close>

definition start_recording ::
  "'r recorder_ops \<Rightarrow> bool \<Rightarrow> string \<Rightarrow> string \<Rightarrow> 'r recording_service \<Rightarrow>
   bool \<times> 'r recording_service" where
  "start_recording ro disk_ok video thumb s =
     (if rs_state s \<noteq> RecIdle then (False, s)
      else if video = [] then (False, s)
      else if \<not> disk_ok then (False, s)
      else
        let s1 = s\<lparr>rs_video_path := video, rs_thumbnail_path := thumb\<rparr>
        in case ro_start ro (rs_video_path s1) (rs_recorder s1) of
             (False, r) \<Rightarrow>
               (False, s1\<lparr>rs_recorder := r, rs_video_path := [], rs_thumbnail_path := []\<rparr>)
           | (True, r) \<Rightarrow> (True, s1\<lparr>rs_recorder := r, rs_state := RecRecording\<rparr>))"

definition pause_recording ::
  "'r recorder_ops \<Rightarrow> 'r recording_service \<Rightarrow> bool \<times> 'r recording_service" where
  "pause_recording ro s =
     (if rs_state s \<noteq> RecRecording then (False, s)
      else (True, s\<lparr>rs_recorder := ro_pause ro (rs_recorder s), rs_state := RecPaused\<rparr>))"

definition resume_recording ::
  "'r recorder_ops \<Rightarrow> 'r recording_service \<Rightarrow> bool \<times> 'r recording_service" where
  "resume_recording ro s =
     (if rs_state s \<noteq> RecPaused then (False, s)
      else (True, s\<lparr>rs_recorder := ro_resume ro (rs_recorder s), rs_state := RecRecording\<rparr>))"

text \<open>\<^verbatim>\<open>write_thumb\<close> is the thumbnail writer's answer for a frame and a path.\<close>

definition stop_recording ::
  "'r recorder_ops \<Rightarrow> (frame \<Rightarrow> string \<Rightarrow> bool) \<Rightarrow> 'r recording_service \<Rightarrow>
   stop_recording_result \<times> 'r recording_service" where
  "stop_recording ro write_thumb s =
     (if rs_state s = RecIdle
      then (\<lparr>sr_success = False, sr_file_path = [], sr_thumbnail_written = False\<rparr>, s)
      else
        case ro_stop ro (rs_recorder s) of (stopped, r) \<Rightarrow>
          let thumb = (case rs_last_frame s of
                         None \<Rightarrow> False
                       | Some f \<Rightarrow>
                           if rs_thumbnail_path s \<noteq> [] then write_thumb f (rs_thumbnail_path s)
                           else False)
          in (\<lparr>sr_success = stopped, sr_file_path = rs_video_path s, sr_thumbnail_written = thumb\<rparr>,
              s\<lparr>rs_recorder := r, rs_state := RecIdle, rs_video_path := [],
                rs_thumbnail_path := [], rs_last_frame := None\<rparr>))"

definition current_recording_state :: "'r recording_service \<Rightarrow> recording_state" where
  "current_recording_state s = rs_state s"

definition recording_push ::
  "'r recorder_ops \<Rightarrow> frame \<Rightarrow> 'r recording_service \<Rightarrow> 'r recording_service" where
  "recording_push ro f s =
     (if rs_state s = RecIdle then s
      else s\<lparr>rs_last_frame := Some f, rs_recorder := ro_push ro f (rs_recorder s)\<rparr>)"

definition recording_service_destroy ::
  "'r recorder_ops \<Rightarrow> (frame \<Rightarrow> string \<Rightarrow> bool) \<Rightarrow> 'r recording_service \<Rightarrow> 'r recording_service" where
  "recording_service_destroy ro write_thumb s =
     (if rs_state s \<noteq> RecIdle then snd (stop_recording ro write_thumb s) else s)"

section \<open>GstContinuousRecorder\<close>

fun gst_format_for :: "pixel_format \<Rightarrow> string" where
  "gst_format_for BGR8 = ''BGR''"
| "gst_format_for RGB8 = ''RGB''"
| "gst_format_for BGRA8 = ''BGRA''"
| "gst_format_for RGBA8 = ''RGBA''"
| "gst_format_for GRAY8 = ''GRAY8''"
| "gst_format_for NV12 = ''NV12''"
| "gst_format_for I420 = ''I420''"
| "gst_format_for YUYV = ''YUY2''"

text \<open>What GStreamer answers: gst_parse_launch for an output path (is the pipeline non-null, is
  the error set), whether the named elements are found, whether PLAYING is reached, and whether
  a buffer can be allocated for a frame.\<close>

record gst_env =
  ge_pipeline :: "string \<Rightarrow> bool"
  ge_error :: "string \<Rightarrow> bool"
  ge_appsrc :: "string \<Rightarrow> bool"
  ge_encoder :: "string \<Rightarrow> bool"
  ge_playing :: "string \<Rightarrow> bool"
  ge_alloc :: "frame \<Rightarrow> bool"

text \<open>Element pointers by whether they are non-null; the last three fields are what GStreamer has
  been handed: the caps, the planes pushed to the current pipeline, and the finalized files.\<close>

record gst_recorder =
  gr_pipeline :: bool
  gr_appsrc :: bool
  gr_encoder :: bool
  gr_running :: bool
  gr_paused :: bool
  gr_caps_set :: bool
  gr_location :: string
  gr_caps :: "(string \<times> u32 \<times> u32) option"
  gr_fed :: "frame_plane list"
  gr_finalized :: "(string \<times> frame_plane list) list"

definition gst_recorder_new :: gst_recorder where
  "gst_recorder_new =
     \<lparr>gr_pipeline = False, gr_appsrc = False, gr_encoder = False, gr_running = False,
      gr_paused = False, gr_caps_set = False, gr_location = [], gr_caps = None, gr_fed = [],
      gr_finalized = []\<rparr>"

definition gst_teardown :: "gst_recorder \<Rightarrow> gst_recorder" where
  "gst_teardown r =
     r\<lparr>gr_encoder := False, gr_appsrc := False, gr_pipeline := False, gr_running := False,
       gr_paused := False, gr_caps_set := False\<rparr>"

definition gst_start :: "gst_env \<Rightarrow> string \<Rightarrow> gst_recorder \<Rightarrow> bool \<times> gst_recorder" where
  "gst_start env out r =
     (if gr_running r then (False, r)
      else
        let r1 = r\<lparr>gr_pipeline := ge_pipeline env out\<rparr>
        in if \<not> gr_pipeline r1 \<or> ge_error env out then (False, gst_teardown r1)
           else
             let r2 = r1\<lparr>gr_appsrc := ge_appsrc env out, gr_encoder := ge_encoder env out\<rparr>
             in if \<not> gr_appsrc r2 then (False, gst_teardown r2)
                else if \<not> ge_playing env out then (False, gst_teardown r2)
                else (True, r2\<lparr>gr_caps_set := False, gr_paused := False, gr_running := True,
                               gr_location := out, gr_caps := None, gr_fed := []\<rparr>))"

definition gst_pause :: "gst_recorder \<Rightarrow> gst_recorder" where
  "gst_pause r = r\<lparr>gr_paused := True\<rparr>"

definition gst_resume :: "gst_recorder \<Rightarrow> gst_recorder" where
  "gst_resume r = (if \<not> gr_running r then r else r\<lparr>gr_paused := False\<rparr>)"

definition gst_stop :: "gst_recorder \<Rightarrow> bool \<times> gst_recorder" where
  "gst_stop r =
     (if \<not> gr_running r then (False, r)
      else
        let r1 = (if gr_appsrc r
                  then r\<lparr>gr_finalized := gr_finalized r @ [(gr_location r, gr_fed r)]\<rparr> else r)
        in (True, gst_teardown r1))"

definition gst_push :: "gst_env \<Rightarrow> frame \<Rightarrow> gst_recorder \<Rightarrow> gst_recorder" where
  "gst_push env f r =
     (case fr_planes f of
        [] \<Rightarrow> r
      | plane # _ \<Rightarrow>
          if \<not> gr_running r \<or> gr_paused r \<or> \<not> gr_appsrc r then r
          else
            let r1 = (if gr_caps_set r then r
                      else r\<lparr>gr_caps := Some (gst_format_for (fr_format f),
                                fg_width (fr_geometry f), fg_height (fr_geometry f)),
                             gr_caps_set := True\<rparr>)
            in if \<not> ge_alloc env f then r1
               else r1\<lparr>gr_fed := gr_fed r1 @ [plane]\<rparr>)"

definition gst_recorder_destroy :: "gst_recorder \<Rightarrow> gst_recorder" where
  "gst_recorder_destroy r = (if gr_running r then snd (gst_stop r) else r)"

definition gst_recorder_ops :: "gst_env \<Rightarrow> gst_recorder recorder_ops" where
  "gst_recorder_ops env =
     \<lparr>ro_start = gst_start env, ro_pause = gst_pause, ro_resume = gst_resume, ro_stop = gst_stop,
      ro_is_running = gr_running, ro_push = gst_push env\<rparr>"

section \<open>FilesystemDiskGuard\<close>

text \<open>\<^verbatim>\<open>fs_exists\<close> is std::filesystem::exists (without error), \<^verbatim>\<open>available\<close> the answer of
  std::filesystem::space.\<close>

function resolve_existing_path :: "(string \<Rightarrow> bool) \<Rightarrow> string \<Rightarrow> string" where
  "resolve_existing_path fs_exists path =
     (if path = [] then []
      else if fs_exists path then path
      else let parent = parent_path path
           in if parent = path then [] else resolve_existing_path fs_exists parent)"
  by auto

termination
  by (relation "measure (\<lambda>(_, path). length path)") (auto simp: parent_path_shorter)

declare resolve_existing_path.simps [simp del]

definition disk_free_bytes ::
  "(string \<Rightarrow> bool) \<Rightarrow> (string \<Rightarrow> u64 option) \<Rightarrow> string \<Rightarrow> u64" where
  "disk_free_bytes fs_exists available root =
     (let target = resolve_existing_path fs_exists root
      in if target = [] then 0 else case available target of None \<Rightarrow> 0 | Some n \<Rightarrow> n)"

definition has_enough_free_space ::
  "(string \<Rightarrow> bool) \<Rightarrow> (string \<Rightarrow> u64 option) \<Rightarrow> string \<Rightarrow> u64 option \<Rightarrow> bool" where
  "has_enough_free_space fs_exists available root min_free =
     (case min_free of
        None \<Rightarrow> True
      | Some n \<Rightarrow> n \<le> disk_free_bytes fs_exists available root)"

section \<open>Specification\<close>

text \<open>What a recording is for its user: at most one open file with the content accepted so far,
  possibly paused, and the finished files in order.\<close>

record 'x file_spec =
  sp_open :: "(string \<times> bool \<times> 'x list) option"
  sp_done :: "(string \<times> 'x list) list"

datatype rec_op =
    RecStart bool string string
  | RecPause
  | RecResume
  | RecStop "frame \<Rightarrow> string \<Rightarrow> bool"
  | RecPush frame

fun spec_call ::
  "(frame \<Rightarrow> 'x list) \<Rightarrow> (string \<Rightarrow> bool) \<Rightarrow> rec_op \<Rightarrow> 'x file_spec \<Rightarrow> bool \<times> 'x file_spec" where
  "spec_call takes can_start (RecStart disk_ok video thumb) sp =
     (if sp_open sp = None \<and> video \<noteq> [] \<and> disk_ok \<and> can_start video
      then (True, sp\<lparr>sp_open := Some (video, False, [])\<rparr>) else (False, sp))"
| "spec_call takes can_start RecPause sp =
     (case sp_open sp of
        Some (v, False, xs) \<Rightarrow> (True, sp\<lparr>sp_open := Some (v, True, xs)\<rparr>)
      | _ \<Rightarrow> (False, sp))"
| "spec_call takes can_start RecResume sp =
     (case sp_open sp of
        Some (v, True, xs) \<Rightarrow> (True, sp\<lparr>sp_open := Some (v, False, xs)\<rparr>)
      | _ \<Rightarrow> (False, sp))"
| "spec_call takes can_start (RecStop write_thumb) sp =
     (case sp_open sp of
        None \<Rightarrow> (False, sp)
      | Some (v, _, xs) \<Rightarrow> (True, sp\<lparr>sp_open := None, sp_done := sp_done sp @ [(v, xs)]\<rparr>))"
| "spec_call takes can_start (RecPush f) sp =
     (case sp_open sp of
        Some (v, False, xs) \<Rightarrow> (True, sp\<lparr>sp_open := Some (v, False, xs @ takes f)\<rparr>)
      | _ \<Rightarrow> (True, sp))"

fun rec_call ::
  "'r recorder_ops \<Rightarrow> rec_op \<Rightarrow> 'r recording_service \<Rightarrow> bool \<times> 'r recording_service" where
  "rec_call ro (RecStart disk_ok video thumb) s = start_recording ro disk_ok video thumb s"
| "rec_call ro RecPause s = pause_recording ro s"
| "rec_call ro RecResume s = resume_recording ro s"
| "rec_call ro (RecStop write_thumb) s =
     (case stop_recording ro write_thumb s of (res, s1) \<Rightarrow> (sr_success res, s1))"
| "rec_call ro (RecPush f) s = (True, recording_push ro f s)"

fun run_calls :: "('o \<Rightarrow> 's \<Rightarrow> bool \<times> 's) \<Rightarrow> 'o list \<Rightarrow> 's \<Rightarrow> bool list \<times> 's" where
  "run_calls call [] s = ([], s)"
| "run_calls call (op # ops) s =
     (case call op s of (b, s1) \<Rightarrow> case run_calls call ops s1 of (bs, s2) \<Rightarrow> (b # bs, s2))"

lemma run_calls_refine:
  assumes "\<And>op s. ok s \<Longrightarrow> ok (snd (f op s)) \<and> fst (g op (absf s)) = fst (f op s) \<and>
      snd (g op (absf s)) = absf (snd (f op s))"
  shows "ok s \<Longrightarrow> ok (snd (run_calls f ops s)) \<and>
    run_calls g ops (absf s) = (fst (run_calls f ops s), absf (snd (run_calls f ops s)))"
proof (induction ops arbitrary: s)
  case (Cons op ops)
  have A: "ok (snd (f op s))" "fst (g op (absf s)) = fst (f op s)"
    "snd (g op (absf s)) = absf (snd (f op s))"
    using assms [OF Cons.prems, of op] by auto
  then have "g op (absf s) = (fst (f op s), absf (snd (f op s)))" by (simp add: prod_eq_iff)
  then show ?case using Cons.IH [OF A(1)] by (simp add: split_beta)
qed simp

section \<open>The contract of IContinuousRecorder\<close>

text \<open>\<^verbatim>\<open>gated\<close> tells that the recorder is paused, \<^verbatim>\<open>fed\<close> and \<^verbatim>\<open>files\<close> what the current and the
  finalized files hold, \<^verbatim>\<open>takes\<close> what a frame contributes to the file.\<close>

locale continuous_recorder =
  fixes ro :: "'r recorder_ops"
    and gated :: "'r \<Rightarrow> bool"
    and fed :: "'r \<Rightarrow> 'x list"
    and files :: "'r \<Rightarrow> (string \<times> 'x list) list"
    and location :: "'r \<Rightarrow> string"
    and takes :: "frame \<Rightarrow> 'x list"
    and can_start :: "string \<Rightarrow> bool"
    and rinv :: "'r \<Rightarrow> bool"
  assumes start_result: "\<lbrakk>rinv r; \<not> ro_is_running ro r\<rbrakk> \<Longrightarrow>
      fst (ro_start ro p r) = can_start p \<and> ro_is_running ro (snd (ro_start ro p r)) = can_start p"
    and start_fresh: "\<lbrakk>rinv r; \<not> ro_is_running ro r; can_start p\<rbrakk> \<Longrightarrow>
      fed (snd (ro_start ro p r)) = [] \<and> \<not> gated (snd (ro_start ro p r)) \<and>
      location (snd (ro_start ro p r)) = p"
    and start_files: "files (snd (ro_start ro p r)) = files r"
    and start_inv: "\<lbrakk>rinv r; \<not> ro_is_running ro r\<rbrakk> \<Longrightarrow> rinv (snd (ro_start ro p r))"
    and pause_law: "rinv r \<Longrightarrow> ro_is_running ro r \<Longrightarrow>
      gated (ro_pause ro r) \<and> ro_is_running ro (ro_pause ro r) \<and> fed (ro_pause ro r) = fed r \<and>
      files (ro_pause ro r) = files r \<and> location (ro_pause ro r) = location r \<and>
      rinv (ro_pause ro r)"
    and resume_law: "rinv r \<Longrightarrow> ro_is_running ro r \<Longrightarrow>
      \<not> gated (ro_resume ro r) \<and> ro_is_running ro (ro_resume ro r) \<and>
      fed (ro_resume ro r) = fed r \<and> files (ro_resume ro r) = files r \<and>
      location (ro_resume ro r) = location r \<and> rinv (ro_resume ro r)"
    and stop_law: "rinv r \<Longrightarrow> ro_is_running ro r \<Longrightarrow>
      fst (ro_stop ro r) \<and> \<not> ro_is_running ro (snd (ro_stop ro r)) \<and>
      files (snd (ro_stop ro r)) = files r @ [(location r, fed r)] \<and> rinv (snd (ro_stop ro r))"
    and push_law: "rinv r \<Longrightarrow> ro_is_running ro r \<Longrightarrow>
      fed (ro_push ro f r) = (if gated r then fed r else fed r @ takes f) \<and>
      gated (ro_push ro f r) = gated r \<and> ro_is_running ro (ro_push ro f r) \<and>
      files (ro_push ro f r) = files r \<and> location (ro_push ro f r) = location r \<and>
      rinv (ro_push ro f r)"

begin

definition recording_ok :: "'r recording_service \<Rightarrow> bool" where
  "recording_ok s \<longleftrightarrow>
     rinv (rs_recorder s) \<and>
     (ro_is_running ro (rs_recorder s) \<longleftrightarrow> rs_state s \<noteq> RecIdle) \<and>
     (rs_state s \<noteq> RecIdle \<longrightarrow>
        (gated (rs_recorder s) \<longleftrightarrow> rs_state s = RecPaused) \<and>
        location (rs_recorder s) = rs_video_path s) \<and>
     (rs_state s = RecIdle \<longrightarrow>
        rs_video_path s = [] \<and> rs_thumbnail_path s = [] \<and> rs_last_frame s = None)"

definition abs_rec :: "'r recording_service \<Rightarrow> 'x file_spec" where
  "abs_rec s =
     \<lparr>sp_open = (if rs_state s = RecIdle then None
                 else Some (rs_video_path s, rs_state s = RecPaused, fed (rs_recorder s))),
      sp_done = files (rs_recorder s)\<rparr>"

lemma rec_call_refines:
  assumes "recording_ok s"
  shows "recording_ok (snd (rec_call ro op s)) \<and>
    fst (spec_call takes can_start op (abs_rec s)) = fst (rec_call ro op s) \<and>
    snd (spec_call takes can_start op (abs_rec s)) = abs_rec (snd (rec_call ro op s))"
proof (cases op)
  case (RecStart disk_ok video thumb)
  show ?thesis
  proof (cases "rs_state s = RecIdle \<and> video \<noteq> [] \<and> disk_ok")
    case True
    then have R: "rinv (rs_recorder s)" "\<not> ro_is_running ro (rs_recorder s)"
      using assms by (simp_all add: recording_ok_def)
    show ?thesis
      using RecStart True assms R start_result [OF R, of video] start_fresh [OF R, of video]
        start_files [of video "rs_recorder s"] start_inv [OF R, of video]
      by (cases "ro_start ro video (rs_recorder s)")
         (auto simp: start_recording_def recording_ok_def abs_rec_def split: bool.splits)
  next
    case False
    then show ?thesis
      using RecStart assms by (auto simp: start_recording_def abs_rec_def)
  qed
next
  case RecPause
  then show ?thesis
    using assms pause_law [of "rs_recorder s"]
    by (cases "rs_state s") (simp_all add: pause_recording_def recording_ok_def abs_rec_def)
next
  case RecResume
  then show ?thesis
    using assms resume_law [of "rs_recorder s"]
    by (cases "rs_state s") (simp_all add: resume_recording_def recording_ok_def abs_rec_def)
next
  case (RecStop w)
  then show ?thesis
    using assms stop_law [of "rs_recorder s"]
    by (cases "rs_state s"; cases "ro_stop ro (rs_recorder s)")
       (simp_all add: stop_recording_def recording_ok_def abs_rec_def Let_def)
next
  case (RecPush f)
  then show ?thesis
    using assms push_law [of "rs_recorder s" f]
    by (cases "rs_state s") (simp_all add: recording_push_def recording_ok_def abs_rec_def)
qed

lemma rec_run_refines:
  "recording_ok s \<Longrightarrow> recording_ok (snd (run_calls (rec_call ro) ops s)) \<and>
    run_calls (spec_call takes can_start) ops (abs_rec s) =
      (fst (run_calls (rec_call ro) ops s), abs_rec (snd (run_calls (rec_call ro) ops s)))"
  using run_calls_refine [where ok = recording_ok and f = "rec_call ro"
      and g = "spec_call takes can_start" and absf = abs_rec and s = s and ops = ops]
    rec_call_refines by blast

end

section \<open>The GStreamer recorder meets the contract\<close>

definition gst_inv :: "gst_recorder \<Rightarrow> bool" where
  "gst_inv r \<longleftrightarrow> (gr_running r \<longrightarrow> gr_pipeline r \<and> gr_appsrc r)"

definition gst_takes :: "gst_env \<Rightarrow> frame \<Rightarrow> frame_plane list" where
  "gst_takes env f =
     (case fr_planes f of [] \<Rightarrow> [] | plane # _ \<Rightarrow> if ge_alloc env f then [plane] else [])"

definition gst_can_start :: "gst_env \<Rightarrow> string \<Rightarrow> bool" where
  "gst_can_start env out \<longleftrightarrow>
     ge_pipeline env out \<and> \<not> ge_error env out \<and> ge_appsrc env out \<and> ge_playing env out"

lemma gst_recorder_ops_sel [simp]:
  "ro_start (gst_recorder_ops env) = gst_start env" "ro_pause (gst_recorder_ops env) = gst_pause"
  "ro_resume (gst_recorder_ops env) = gst_resume" "ro_stop (gst_recorder_ops env) = gst_stop"
  "ro_is_running (gst_recorder_ops env) = gr_running" "ro_push (gst_recorder_ops env) = gst_push env"
  by (simp_all add: gst_recorder_ops_def)

interpretation gst: continuous_recorder "gst_recorder_ops env" gr_paused gr_fed gr_finalized
    gr_location "gst_takes env" "gst_can_start env" gst_inv for env
  by unfold_locales
     (auto simp: gst_inv_def gst_takes_def gst_can_start_def gst_start_def
       gst_pause_def gst_resume_def gst_stop_def gst_push_def gst_teardown_def Let_def
       split: list.splits)

section \<open>Properties\<close>

definition recording_view :: "gst_recorder recording_service \<Rightarrow> frame_plane file_spec" where
  "recording_view s =
     \<lparr>sp_open = (if rs_state s = RecIdle then None
                 else Some (rs_video_path s, rs_state s = RecPaused, gr_fed (rs_recorder s))),
      sp_done = gr_finalized (rs_recorder s)\<rparr>"

lemma recording_view_abs: "gst.abs_rec = recording_view"
  by (simp add: fun_eq_iff gst.abs_rec_def recording_view_def)

lemma gst_service_ok: "gst.recording_ok env (recording_service_new gst_recorder_new)"
  by (simp add: gst.recording_ok_def recording_service_new_def gst_recorder_new_def gst_inv_def)

text \<open>C18: the recording service over the GStreamer recorder refines its specification: for every
  sequence of start, pause, resume, stop and frame pushes the same calls succeed, the file
  being written holds exactly the frames pushed while recording and not paused (across any
  number of pauses, into the same file), and every stop finalizes one such file.\<close>

theorem recording_refines_files:
  "run_calls (spec_call (gst_takes env) (gst_can_start env)) ops \<lparr>sp_open = None, sp_done = []\<rparr> =
     (let (oks, s) = run_calls (rec_call (gst_recorder_ops env)) ops
                       (recording_service_new gst_recorder_new)
      in (oks, recording_view s))"
proof -
  have "recording_view (recording_service_new gst_recorder_new) = \<lparr>sp_open = None, sp_done = []\<rparr>"
    by (simp add: recording_view_def recording_service_new_def gst_recorder_new_def)
  then show ?thesis
    using gst.rec_run_refines [OF gst_service_ok, of env ops]
    by (simp add: recording_view_abs split_beta)
qed

text \<open>a stopped or refused recording leaves nothing behind: whenever the service is idle the
  recorder is not running and paths and the retained frame are cleared; otherwise the recorder
  runs and is gated exactly when the service is paused.\<close>

theorem recording_state_consistent:
  "let s = snd (run_calls (rec_call (gst_recorder_ops env)) ops (recording_service_new gst_recorder_new))
   in if rs_state s = RecIdle
      then \<not> gr_running (rs_recorder s) \<and> rs_video_path s = [] \<and> rs_thumbnail_path s = [] \<and>
           rs_last_frame s = None
      else gr_running (rs_recorder s) \<and> gr_location (rs_recorder s) = rs_video_path s \<and>
           (gr_paused (rs_recorder s) \<longleftrightarrow> rs_state s = RecPaused)"
  using conjunct1 [OF gst.rec_run_refines [OF gst_service_ok, of env ops]]
  by (simp add: gst.recording_ok_def Let_def)

text \<open>The disk guard measures the nearest existing ancestor of its root.\<close>

lemma resolve_existing_nearest:
  "resolve_existing_path fs_exists root = [] \<or>
   (\<exists>k. resolve_existing_path fs_exists root = (parent_path ^^ k) root \<and>
        fs_exists ((parent_path ^^ k) root) \<and> (\<forall>j < k. \<not> fs_exists ((parent_path ^^ j) root)))"
proof (induction fs_exists root rule: resolve_existing_path.induct)
  case (1 fs_exists root)
  show ?case
  proof (cases "root = [] \<or> fs_exists root \<or> parent_path root = root")
    case True
    then show ?thesis
      by (auto simp: resolve_existing_path.simps [of fs_exists root] Let_def intro: exI [of _ 0])
  next
    case False
    then have step: "resolve_existing_path fs_exists root =
        resolve_existing_path fs_exists (parent_path root)"
      by (simp add: resolve_existing_path.simps [of fs_exists root] Let_def)
    have "resolve_existing_path fs_exists (parent_path root) = [] \<or>
       (\<exists>k. resolve_existing_path fs_exists (parent_path root) = (parent_path ^^ k) (parent_path root) \<and>
        fs_exists ((parent_path ^^ k) (parent_path root)) \<and>
        (\<forall>j < k. \<not> fs_exists ((parent_path ^^ j) (parent_path root))))"
      using False by (intro 1) auto
    then show ?thesis
    proof
      assume "\<exists>k. resolve_existing_path fs_exists (parent_path root) =
            (parent_path ^^ k) (parent_path root) \<and>
          fs_exists ((parent_path ^^ k) (parent_path root)) \<and>
          (\<forall>j < k. \<not> fs_exists ((parent_path ^^ j) (parent_path root)))"
      then obtain k where k: "resolve_existing_path fs_exists (parent_path root) =
            (parent_path ^^ Suc k) root" "fs_exists ((parent_path ^^ Suc k) root)"
          "\<forall>j < k. \<not> fs_exists ((parent_path ^^ Suc j) root)"
        by (auto simp: funpow_Suc_right simp del: funpow.simps)
      have "\<forall>j < Suc k. \<not> fs_exists ((parent_path ^^ j) root)"
        using k(3) False by (auto simp: less_Suc_eq_0_disj)
      then show ?thesis using k step by metis
    qed (simp add: step)
  qed
qed

end
