(* ===== verification/Streaming.thy ===== *)
theory Streaming
  imports Frames
begin

text \<open>
  Live streaming: \<^verbatim>\<open>domain/streaming/models\<close>,
  \<^verbatim>\<open>app/streaming/services/streaming_service/streaming-service.cpp\<close> over the ports
  IAppStreamServer and IPlatformStreamer (records of operations), and their GStreamer
  implementations \<^verbatim>\<open>adapters/streaming/gst_rtmp/gst-rtmp-streamer.cpp\<close> and
  \<^verbatim>\<open>adapters/streaming/gst_rtsp/gst-rtsp-app-stream-server.cpp\<close>.

  GStreamer and the fmt library are arguments: what building a pipeline, allocating a buffer or
  attaching a server answers, and how an integer is printed.
\<close>

section \<open>Models\<close>

record app_stream_config =
  ac_address :: string
  ac_mount_point :: string
  ac_port :: "16 word"
  ac_width :: u32
  ac_height :: u32
  ac_framerate :: u32
  ac_bitrate_kbps :: u32

definition app_stream_config_default :: app_stream_config where
  "app_stream_config_default =
     \<lparr>ac_address = ''0.0.0.0'', ac_mount_point = ''/preview'', ac_port = 8554, ac_width = 854,
      ac_height = 480, ac_framerate = 30, ac_bitrate_kbps = 1500\<rparr>"

datatype platform_stream_type = Rtmp | RtmpS
datatype platform_stream_codec = H264 | H265

record platform_stream_config =
  pc_stream_id :: int
  pc_name :: string
  pc_type :: platform_stream_type
  pc_url :: string
  pc_stream_key :: string
  pc_codec :: platform_stream_codec
  pc_width :: i32
  pc_height :: i32
  pc_framerate :: i32
  pc_bitrate_kbps :: i32

definition platform_stream_config_default :: platform_stream_config where
  "platform_stream_config_default =
     \<lparr>pc_stream_id = 0, pc_name = [], pc_type = Rtmp, pc_url = [], pc_stream_key = [],
      pc_codec = H264, pc_width = 1920, pc_height = 1080, pc_framerate = 60,
      pc_bitrate_kbps = 4000\<rparr>"

record active_platform_stream =
  aps_stream_id :: int
  aps_name :: string

section \<open>Ports\<close>

record 'a app_server_ops =
  ao_start :: "app_stream_config \<Rightarrow> 'a \<Rightarrow> bool \<times> 'a"
  ao_stop :: "'a \<Rightarrow> 'a"
  ao_is_running :: "'a \<Rightarrow> bool"
  ao_push :: "frame \<Rightarrow> 'a \<Rightarrow> 'a"

record 'p streamer_ops =
  po_start :: "platform_stream_config \<Rightarrow> 'p \<Rightarrow> bool \<times> 'p"
  po_stop :: "'p \<Rightarrow> 'p"
  po_is_running :: "'p \<Rightarrow> bool"
  po_push :: "frame \<Rightarrow> 'p \<Rightarrow> 'p"

section \<open>StreamingService\<close>

text \<open>The hash maps are association lists; the pointers stored are never null.\<close>

record ('a, 'p) streaming_service =
  st_server :: 'a
  st_streams :: "(int \<times> 'p) list"
  st_names :: "(int \<times> string) list"

definition start_app_stream ::
  "'a app_server_ops \<Rightarrow> app_stream_config \<Rightarrow> ('a, 'p) streaming_service \<Rightarrow>
   bool \<times> ('a, 'p) streaming_service" where
  "start_app_stream ao cfg s =
     (if ao_is_running ao (st_server s) then (True, s)
      else case ao_start ao cfg (st_server s) of (started, a) \<Rightarrow> (started, s\<lparr>st_server := a\<rparr>))"

definition stop_app_stream ::
  "'a app_server_ops \<Rightarrow> ('a, 'p) streaming_service \<Rightarrow> bool \<times> ('a, 'p) streaming_service" where
  "stop_app_stream ao s =
     (if \<not> ao_is_running ao (st_server s) then (False, s)
      else (True, s\<lparr>st_server := ao_stop ao (st_server s)\<rparr>))"

definition is_app_stream_running :: "'a app_server_ops \<Rightarrow> ('a, 'p) streaming_service \<Rightarrow> bool" where
  "is_app_stream_running ao s = ao_is_running ao (st_server s)"

text \<open>\<^verbatim>\<open>factory\<close> is the streamer the factory makes for this call, None for a null pointer.\<close>

definition start_platform_stream ::
  "'p streamer_ops \<Rightarrow> 'p option \<Rightarrow> platform_stream_config \<Rightarrow> ('a, 'p) streaming_service \<Rightarrow>
   bool \<times> ('a, 'p) streaming_service" where
  "start_platform_stream po factory cfg s =
     (if pc_stream_id cfg \<le> 0 then (False, s)
      else if map_of (st_streams s) (pc_stream_id cfg) \<noteq> None then (False, s)
      else case factory of
             None \<Rightarrow> (False, s)
           | Some p \<Rightarrow>
               (case po_start po cfg p of
                  (False, _) \<Rightarrow> (False, s)
                | (True, p1) \<Rightarrow>
                    (True, s\<lparr>st_names := AList.update (pc_stream_id cfg) (pc_name cfg) (st_names s),
                            st_streams := (pc_stream_id cfg, p1) # st_streams s\<rparr>)))"

text \<open>The streamer taken out of the map and stopped is returned with the verdict.\<close>

definition stop_platform_stream ::
  "'p streamer_ops \<Rightarrow> int \<Rightarrow> ('a, 'p) streaming_service \<Rightarrow>
   bool \<times> 'p option \<times> ('a, 'p) streaming_service" where
  "stop_platform_stream po stream_id s =
     (case map_of (st_streams s) stream_id of
        None \<Rightarrow> (False, None, s)
      | Some p \<Rightarrow>
          (True, Some (po_stop po p),
           s\<lparr>st_streams := AList.delete stream_id (st_streams s),
             st_names := AList.delete stream_id (st_names s)\<rparr>))"

definition list_active_platform_streams ::
  "('a, 'p) streaming_service \<Rightarrow> active_platform_stream list" where
  "list_active_platform_streams s =
     map (\<lambda>(i, n). \<lparr>aps_stream_id = i, aps_name = n\<rparr>) (st_names s)"

definition streaming_push ::
  "'a app_server_ops \<Rightarrow> 'p streamer_ops \<Rightarrow> frame \<Rightarrow> ('a, 'p) streaming_service \<Rightarrow>
   ('a, 'p) streaming_service" where
  "streaming_push ao po f s =
     s\<lparr>st_server := (if ao_is_running ao (st_server s) then ao_push ao f (st_server s)
                     else st_server s),
       st_streams := map (\<lambda>(i, p). (i, if po_is_running po p then po_push po f p else p))
                       (st_streams s)\<rparr>"

definition streaming_service_destroy ::
  "'a app_server_ops \<Rightarrow> 'p streamer_ops \<Rightarrow> ('a, 'p) streaming_service \<Rightarrow>
   'p list \<times> ('a, 'p) streaming_service" where
  "streaming_service_destroy ao po s =
     (map (\<lambda>(i, p). if po_is_running po p then po_stop po p else p) (st_streams s),
      s\<lparr>st_server := (if ao_is_running ao (st_server s) then ao_stop ao (st_server s)
                      else st_server s),
        st_streams := [], st_names := []\<rparr>)"

section \<open>GstRtmpStreamer\<close>

definition frame_byte_size :: "frame \<Rightarrow> nat" where
  "frame_byte_size f = sum_list (map fp_size (fr_planes f))"

text \<open>The planes whose bytes are copied into the buffer, one behind the other.\<close>

definition copied_planes :: "frame \<Rightarrow> frame_plane list" where
  "copied_planes f = [p \<leftarrow> fr_planes f. fp_data p \<noteq> None \<and> 0 < fp_size p]"

definition build_location :: "platform_stream_config \<Rightarrow> string" where
  "build_location cfg =
     (if pc_url cfg = [] then pc_stream_key cfg
      else if last (pc_url cfg) = CHR ''/'' then pc_url cfg @ pc_stream_key cfg
      else pc_url cfg @ ''/'' @ pc_stream_key cfg)"

definition rtmp_build_launch :: "(int \<Rightarrow> string) \<Rightarrow> platform_stream_config \<Rightarrow> string" where
  "rtmp_build_launch fmt_int cfg =
     ''flvmux name=mux streamable=true ! rtmp2sink location='' @ [CHR 0x22] @ build_location cfg @
     [CHR 0x22] @ '' sync=false appsrc name=src is-live=true format=time do-timestamp=true   caps='' @
     [CHR 0x22] @ ''video/x-raw,format=BGR,width='' @ fmt_int (sint (pc_width cfg)) @ '',height='' @
     fmt_int (sint (pc_height cfg)) @ '',framerate='' @ fmt_int (sint (pc_framerate cfg)) @ ''/1'' @
     [CHR 0x22] @
     ''  ! videoconvert  ! x264enc speed-preset=ultrafast tune=zerolatency bitrate='' @
     fmt_int (sint (pc_bitrate_kbps cfg)) @ '' key-int-max='' @
     fmt_int (sint (pc_framerate cfg * 2)) @
     ''  ! h264parse config-interval=-1  ! queue leaky=downstream max-size-buffers=3 ! mux.video '' @
     ''audiotestsrc is-live=true wave=silence do-timestamp=true '' @
     '' ! audioconvert ! voaacenc ! aacparse ! queue ! mux.audio ''"

text \<open>What GStreamer answers when this configuration is built, and for a frame: whether Push gets
  the lock, and a writable buffer.\<close>

record rtmp_env =
  re_parse_error :: "platform_stream_config \<Rightarrow> bool"
  re_pipeline :: "platform_stream_config \<Rightarrow> bool"
  re_appsrc :: "platform_stream_config \<Rightarrow> bool"
  re_playing :: "platform_stream_config \<Rightarrow> bool"
  re_lock :: "frame \<Rightarrow> bool"
  re_buffer :: "frame \<Rightarrow> bool"

record rtmp_streamer =
  rt_config :: platform_stream_config
  rt_running :: bool
  rt_watching :: bool
  rt_pipeline :: bool
  rt_appsrc :: bool
  rt_fed :: "(nat \<times> frame_plane list) list"

definition rtmp_new :: rtmp_streamer where
  "rtmp_new =
     \<lparr>rt_config = platform_stream_config_default, rt_running = False, rt_watching = False,
      rt_pipeline = False, rt_appsrc = False, rt_fed = []\<rparr>"

definition rtmp_teardown :: "rtmp_streamer \<Rightarrow> rtmp_streamer" where
  "rtmp_teardown r = r\<lparr>rt_appsrc := False, rt_pipeline := False\<rparr>"

definition rtmp_build_and_play :: "rtmp_env \<Rightarrow> rtmp_streamer \<Rightarrow> bool \<times> rtmp_streamer" where
  "rtmp_build_and_play env r =
     (let cfg = rt_config r;
          r1 = r\<lparr>rt_pipeline := re_pipeline env cfg\<rparr>
      in if re_parse_error env cfg then (False, rtmp_teardown r1)
         else if \<not> rt_pipeline r1 then (False, r1)
         else
           let r2 = r1\<lparr>rt_appsrc := re_appsrc env cfg\<rparr>
           in if \<not> rt_appsrc r2 then (False, rtmp_teardown r2)
              else if \<not> re_playing env cfg then (False, rtmp_teardown r2)
              else (True, r2))"

definition rtmp_start ::
  "rtmp_env \<Rightarrow> platform_stream_config \<Rightarrow> rtmp_streamer \<Rightarrow> bool \<times> rtmp_streamer" where
  "rtmp_start env cfg r =
     (if rt_running r then (True, r)
      else if pc_url cfg = [] \<or> pc_stream_key cfg = [] then (False, r)
      else case rtmp_build_and_play env (r\<lparr>rt_config := cfg\<rparr>) of
             (False, r1) \<Rightarrow> (False, r1)
           | (True, r1) \<Rightarrow> (True, r1\<lparr>rt_running := True, rt_watching := True\<rparr>))"

text \<open>One round of WatcherLoop with the current backoff in milliseconds: \<^verbatim>\<open>bus_error\<close> is whether the
  bus delivered an error within the poll, \<^verbatim>\<open>stop_requested\<close> whether Stop cleared the flag during
  the backoff sleep.  None is the end of the thread.\<close>

definition kBaseBackoff :: nat where "kBaseBackoff = 500"
definition kMaxBackoff :: nat where "kMaxBackoff = 8000"

definition rtmp_watch_round ::
  "rtmp_env \<Rightarrow> bool \<Rightarrow> bool \<Rightarrow> rtmp_streamer \<times> nat \<Rightarrow> (rtmp_streamer \<times> nat) option" where
  "rtmp_watch_round env bus_error stop_requested = (\<lambda>(r, backoff).
     if \<not> rt_watching r then None
     else if rt_pipeline r \<and> \<not> bus_error then Some (r, kBaseBackoff)
     else
       let r1 = (if stop_requested then r\<lparr>rt_watching := False\<rparr> else r)
       in if \<not> rt_watching r1 \<or> \<not> rt_running r1 then None
          else case rtmp_build_and_play env (rtmp_teardown r1) of
                 (True, r2) \<Rightarrow> Some (r2, kBaseBackoff)
               | (False, r2) \<Rightarrow> Some (r2, min (backoff * 2) kMaxBackoff))"

definition rtmp_stop :: "rtmp_streamer \<Rightarrow> rtmp_streamer" where
  "rtmp_stop r =
     (let r1 = r\<lparr>rt_watching := False\<rparr>
      in if \<not> rt_running r1 then r1 else (rtmp_teardown r1)\<lparr>rt_running := False\<rparr>)"

definition rtmp_id :: "rtmp_streamer \<Rightarrow> int" where
  "rtmp_id r = pc_stream_id (rt_config r)"

definition rtmp_push :: "rtmp_env \<Rightarrow> frame \<Rightarrow> rtmp_streamer \<Rightarrow> rtmp_streamer" where
  "rtmp_push env f r =
     (if \<not> re_lock env f \<or> \<not> rt_running r \<or> \<not> rt_appsrc r then r
      else if frame_byte_size f = 0 then r
      else if \<not> re_buffer env f then r
      else r\<lparr>rt_fed := rt_fed r @ [(frame_byte_size f, copied_planes f)]\<rparr>)"

definition rtmp_destroy :: "rtmp_streamer \<Rightarrow> rtmp_streamer" where
  "rtmp_destroy r = (if rt_running r then rtmp_stop r else r)"

definition rtmp_ops :: "rtmp_env \<Rightarrow> rtmp_streamer streamer_ops" where
  "rtmp_ops env =
     \<lparr>po_start = rtmp_start env, po_stop = rtmp_stop, po_is_running = rt_running,
      po_push = rtmp_push env\<rparr>"

section \<open>GstRtspAppStreamServer\<close>

definition rtsp_build_launch :: "(int \<Rightarrow> string) \<Rightarrow> app_stream_config \<Rightarrow> string" where
  "rtsp_build_launch fmt_int cfg =
     ''( appsrc name=src is-live=true format=time do-timestamp=true     caps='' @ [CHR 0x22] @
     ''video/x-raw,format=BGR,width='' @ fmt_int (uint (ac_width cfg)) @ '',height='' @
     fmt_int (uint (ac_height cfg)) @ '',framerate='' @ fmt_int (uint (ac_framerate cfg)) @ ''/1'' @
     [CHR 0x22] @
     ''   ! videoconvert   ! x264enc speed-preset=ultrafast tune=zerolatency bitrate='' @
     fmt_int (uint (ac_bitrate_kbps cfg)) @ '' key-int-max='' @
     fmt_int (uint (ac_framerate cfg * 2)) @
     ''   ! h264parse config-interval=1   ! rtph264pay name=pay0 pt=96 config-interval=1 )''"

text \<open>Pointers by whether they are non-null, the loop thread by whether it is joinable; the
  source id is what gst_rtsp_server_attach returned.\<close>

record rtsp_env =
  rp_attach :: "app_stream_config \<Rightarrow> u32"
  rp_buffer :: "frame \<Rightarrow> bool"

record rtsp_server =
  rv_config :: app_stream_config
  rv_running :: bool
  rv_context :: bool
  rv_loop :: bool
  rv_server :: bool
  rv_factory :: bool
  rv_source_id :: u32
  rv_thread :: bool
  rv_appsrc :: bool
  rv_fed :: "(nat \<times> frame_plane list) list"

definition rtsp_new :: rtsp_server where
  "rtsp_new =
     \<lparr>rv_config = app_stream_config_default, rv_running = False, rv_context = False,
      rv_loop = False, rv_server = False, rv_factory = False, rv_source_id = 0,
      rv_thread = False, rv_appsrc = False, rv_fed = []\<rparr>"

definition rtsp_start :: "rtsp_env \<Rightarrow> app_stream_config \<Rightarrow> rtsp_server \<Rightarrow> bool \<times> rtsp_server" where
  "rtsp_start env cfg r =
     (if rv_running r then (True, r)
      else
        let r1 = r\<lparr>rv_config := cfg, rv_context := True, rv_loop := True, rv_server := True,
                   rv_factory := True, rv_source_id := rp_attach env cfg\<rparr>
        in if rv_source_id r1 = 0
           then (False, r1\<lparr>rv_server := False, rv_loop := False, rv_context := False\<rparr>)
           else (True, r1\<lparr>rv_running := True, rv_thread := True\<rparr>))"

definition rtsp_stop :: "rtsp_server \<Rightarrow> rtsp_server" where
  "rtsp_stop r =
     (if \<not> rv_running r then r
      else
        let r1 = r\<lparr>rv_appsrc := False, rv_thread := False, rv_running := False\<rparr>;
            r2 = (if rv_source_id r1 \<noteq> 0 \<and> rv_context r1 then r1\<lparr>rv_source_id := 0\<rparr> else r1)
        in r2\<lparr>rv_server := False, rv_loop := False, rv_context := False, rv_factory := False\<rparr>)"

definition rtsp_push :: "rtsp_env \<Rightarrow> frame \<Rightarrow> rtsp_server \<Rightarrow> rtsp_server" where
  "rtsp_push env f r =
     (if \<not> rv_running r \<or> \<not> rv_appsrc r then r
      else if frame_byte_size f = 0 then r
      else if \<not> rp_buffer env f then r
      else r\<lparr>rv_fed := rv_fed r @ [(frame_byte_size f, copied_planes f)]\<rparr>)"

text \<open>A client connected; \<^verbatim>\<open>found\<close> is whether its media has the element and the appsrc in it.\<close>

definition rtsp_on_media_configure :: "bool \<Rightarrow> rtsp_server \<Rightarrow> rtsp_server" where
  "rtsp_on_media_configure found r = (if \<not> found then r else r\<lparr>rv_appsrc := True\<rparr>)"

definition rtsp_destroy :: "rtsp_server \<Rightarrow> rtsp_server" where
  "rtsp_destroy r = (if rv_running r then rtsp_stop r else r)"

definition rtsp_ops :: "rtsp_env \<Rightarrow> rtsp_server app_server_ops" where
  "rtsp_ops env =
     \<lparr>ao_start = rtsp_start env, ao_stop = rtsp_stop, ao_is_running = rv_running,
      ao_push = rtsp_push env\<rparr>"

section \<open>Contracts of the ports\<close>

locale app_server =
  fixes ao :: "'a app_server_ops"
  assumes app_start: "ao_is_running ao (snd (ao_start ao cfg a)) = (ao_is_running ao a \<or> fst (ao_start ao cfg a))"
    and app_stop: "\<not> ao_is_running ao (ao_stop ao a)"
    and app_push: "ao_is_running ao (ao_push ao f a) = ao_is_running ao a"

locale platform_streamer =
  fixes po :: "'p streamer_ops"
  assumes plat_start: "fst (po_start po cfg p) \<Longrightarrow> po_is_running po (snd (po_start po cfg p))"
    and plat_stop: "\<not> po_is_running po (po_stop po p)"
    and plat_push: "po_is_running po (po_push po f p) = po_is_running po p"

text \<open>The service relies on both.\<close>

locale streaming_ports = app_server ao + platform_streamer po
  for ao :: "'a app_server_ops" and po :: "'p streamer_ops"
begin

definition streaming_ok :: "('a, 'p) streaming_service \<Rightarrow> bool" where
  "streaming_ok s \<longleftrightarrow>
     distinct (map fst (st_streams s)) \<and> distinct (map fst (st_names s)) \<and>
     fst ` set (st_streams s) = fst ` set (st_names s) \<and>
     (\<forall>(i, p) \<in> set (st_streams s). 0 < i \<and> po_is_running po p)"

lemma start_app_ok: "streaming_ok s \<Longrightarrow> streaming_ok (snd (start_app_stream ao cfg s))"
  by (auto simp: start_app_stream_def streaming_ok_def split: prod.splits)

lemma stop_app_ok: "streaming_ok s \<Longrightarrow> streaming_ok (snd (stop_app_stream ao s))"
  by (auto simp: stop_app_stream_def streaming_ok_def)

lemma start_platform_ok:
  assumes "streaming_ok s"
  shows "streaming_ok (snd (start_platform_stream po factory cfg s))"
proof (cases "0 < pc_stream_id cfg \<and> map_of (st_streams s) (pc_stream_id cfg) = None \<and>
    (\<exists>p p1. factory = Some p \<and> po_start po cfg p = (True, p1))")
  case False
  then show ?thesis
    using assms by (auto simp: start_platform_stream_def split: option.splits prod.splits bool.splits)
next
  case True
  then obtain p p1 where P: "0 < pc_stream_id cfg" "map_of (st_streams s) (pc_stream_id cfg) = None"
    "factory = Some p" "po_start po cfg p = (True, p1)" by blast
  then have "po_is_running po p1" using plat_start [of cfg p] by simp
  moreover have "pc_stream_id cfg \<notin> fst ` set (st_streams s)"
    using P(2) by (simp add: map_of_eq_None_iff)
  ultimately show ?thesis
    using P assms
    by (auto simp: start_platform_stream_def streaming_ok_def AList.distinct_update AList.dom_update)
qed

lemma stop_platform_ok:
  assumes "streaming_ok s"
  shows "streaming_ok (snd (snd (stop_platform_stream po i s)))"
  using assms
  by (cases "map_of (st_streams s) i")
     (auto simp: stop_platform_stream_def streaming_ok_def AList.distinct_delete
       alist_delete_keys alist_delete_set)

lemma push_ok:
  assumes "streaming_ok s"
  shows "streaming_ok (streaming_push ao po f s)"
proof -
  let ?g = "\<lambda>p. if po_is_running po p then po_push po f p else p"
  have "\<forall>(i, p) \<in> set (map (\<lambda>(i, p). (i, ?g p)) (st_streams s)). 0 < i \<and> po_is_running po p"
    using assms by (auto simp: streaming_ok_def plat_push)
  then show ?thesis
    using assms unfolding streaming_ok_def streaming_push_def
    by (simp add: map_fst_map_values keys_map_values del: map_map set_map)
qed

end

text \<open>SessionCleanup::StopStreaming: the app stream, then every platform stream in the list taken
  before the loop.\<close>

fun stop_listed ::
  "'p streamer_ops \<Rightarrow> active_platform_stream list \<Rightarrow> ('a, 'p) streaming_service \<Rightarrow>
   ('a, 'p) streaming_service" where
  "stop_listed po [] s = s"
| "stop_listed po (x # xs) s =
     stop_listed po xs (snd (snd (stop_platform_stream po (aps_stream_id x) s)))"

definition stop_streaming ::
  "'a app_server_ops \<Rightarrow> 'p streamer_ops \<Rightarrow> ('a, 'p) streaming_service \<Rightarrow>
   ('a, 'p) streaming_service" where
  "stop_streaming ao po s =
     (let s1 = snd (stop_app_stream ao s)
      in stop_listed po (list_active_platform_streams s1) s1)"

lemma stop_platform_keys:
  "fst ` set (st_streams (snd (snd (stop_platform_stream po i s)))) = fst ` set (st_streams s) - {i}"
proof (cases "map_of (st_streams s) i")
  case None
  then have "i \<notin> fst ` set (st_streams s)" by (simp add: map_of_eq_None_iff)
  then show ?thesis using None by (simp add: stop_platform_stream_def)
next
  case (Some p)
  then show ?thesis by (simp add: stop_platform_stream_def alist_delete_keys)
qed

lemma stop_platform_server [simp]:
  "st_server (snd (snd (stop_platform_stream po i s))) = st_server s"
  by (simp add: stop_platform_stream_def split: option.splits)

lemma stop_listed_keys:
  "fst ` set (st_streams (stop_listed po xs s)) = fst ` set (st_streams s) - aps_stream_id ` set xs \<and>
   st_server (stop_listed po xs s) = st_server s"
  by (induction xs arbitrary: s) (auto simp: stop_platform_keys)

context streaming_ports
begin

lemma stop_listed_ok: "streaming_ok s \<Longrightarrow> streaming_ok (stop_listed po xs s)"
  by (induction xs arbitrary: s) (simp_all add: stop_platform_ok)

lemma stop_streaming_clears:
  assumes "streaming_ok s"
  shows "st_streams (stop_streaming ao po s) = [] \<and> st_names (stop_streaming ao po s) = [] \<and>
    \<not> ao_is_running ao (st_server (stop_streaming ao po s))"
proof -
  let ?s1 = "snd (stop_app_stream ao s)" and ?t = "stop_streaming ao po s"
  have ok1: "streaming_ok ?s1" using assms by (rule stop_app_ok)
  have ok: "streaming_ok ?t" using stop_listed_ok [OF ok1] by (simp add: stop_streaming_def Let_def)
  have "aps_stream_id ` set (list_active_platform_streams ?s1) = fst ` set (st_names ?s1)"
    by (force simp: list_active_platform_streams_def)
  then have "fst ` set (st_streams ?t) = {}"
    using stop_listed_keys [of po "list_active_platform_streams ?s1" ?s1] ok1
    by (simp add: stop_streaming_def streaming_ok_def Let_def)
  then have "st_streams ?t = []" by simp
  moreover have "st_names ?t = []" using ok calculation by (simp add: streaming_ok_def)
  moreover have "\<not> ao_is_running ao (st_server ?t)"
    using stop_listed_keys [of po "list_active_platform_streams ?s1" ?s1]
    by (simp add: stop_streaming_def stop_app_stream_def app_stop Let_def)
  ultimately show ?thesis by simp
qed

end

section \<open>The GStreamer adapters meet the contracts\<close>

lemma stream_ops_sel [simp]:
  "po_start (rtmp_ops re) = rtmp_start re" "po_stop (rtmp_ops re) = rtmp_stop"
  "po_is_running (rtmp_ops re) = rt_running" "po_push (rtmp_ops re) = rtmp_push re"
  "ao_start (rtsp_ops rp) = rtsp_start rp" "ao_stop (rtsp_ops rp) = rtsp_stop"
  "ao_is_running (rtsp_ops rp) = rv_running" "ao_push (rtsp_ops rp) = rtsp_push rp"
  by (simp_all add: rtmp_ops_def rtsp_ops_def)

lemma rtmp_build_running [simp]:
  "rt_running (snd (rtmp_build_and_play env r)) = rt_running r"
  by (simp add: rtmp_build_and_play_def rtmp_teardown_def Let_def)

interpretation stp: streaming_ports "rtsp_ops rp" "rtmp_ops re" for rp re
  by unfold_locales
     (auto simp: rtsp_start_def rtsp_stop_def rtsp_push_def rtmp_start_def rtmp_stop_def
       rtmp_push_def Let_def split: prod.splits bool.splits if_splits)

section \<open>Histories\<close>

datatype stream_op =
    StAppStart app_stream_config
  | StAppStop
  | StPlatformStart "rtmp_streamer option" platform_stream_config
  | StPlatformStop int
  | StPush frame
  | StClient bool
  | StStopAll

type_synonym gst_streaming = "(rtsp_server, rtmp_streamer) streaming_service"

fun stream_step :: "rtsp_env \<Rightarrow> rtmp_env \<Rightarrow> stream_op \<Rightarrow> gst_streaming \<Rightarrow> gst_streaming" where
  "stream_step rp re (StAppStart cfg) s = snd (start_app_stream (rtsp_ops rp) cfg s)"
| "stream_step rp re StAppStop s = snd (stop_app_stream (rtsp_ops rp) s)"
| "stream_step rp re (StPlatformStart factory cfg) s =
     snd (start_platform_stream (rtmp_ops re) factory cfg s)"
| "stream_step rp re (StPlatformStop i) s = snd (snd (stop_platform_stream (rtmp_ops re) i s))"
| "stream_step rp re (StPush f) s = streaming_push (rtsp_ops rp) (rtmp_ops re) f s"
| "stream_step rp re (StClient found) s =
     s\<lparr>st_server := rtsp_on_media_configure found (st_server s)\<rparr>"
| "stream_step rp re StStopAll s = stop_streaming (rtsp_ops rp) (rtmp_ops re) s"

definition streaming_new :: gst_streaming where
  "streaming_new = \<lparr>st_server = rtsp_new, st_streams = [], st_names = []\<rparr>"

lemma stream_step_ok: "stp.streaming_ok re s \<Longrightarrow> stp.streaming_ok re (stream_step rp re op s)"
proof (cases op)
  case StStopAll
  assume "stp.streaming_ok re s"
  then show ?thesis
    using StStopAll stp.stop_listed_ok stp.stop_app_ok by (simp add: stop_streaming_def Let_def)
qed (auto simp: stp.start_app_ok stp.stop_app_ok stp.start_platform_ok stp.stop_platform_ok
      stp.push_ok, simp add: stp.streaming_ok_def)

lemma stream_run_ok: "stp.streaming_ok re (fold (stream_step rp re) ops streaming_new)"
proof -
  have "stp.streaming_ok re s \<Longrightarrow> stp.streaming_ok re (fold (stream_step rp re) ops s)" for s
    by (induction ops arbitrary: s) (simp_all add: stream_step_ok)
  moreover have "stp.streaming_ok re streaming_new"
    by (simp add: streaming_new_def stp.streaming_ok_def)
  ultimately show ?thesis by blast
qed

section \<open>Properties\<close>

text \<open>C20: whatever streams were started before, stopping the streaming at session end leaves no
  stream behind: the app stream server is stopped, no platform stream is registered or listed.\<close>

theorem stop_streaming_stops_all:
  "let s = stop_streaming (rtsp_ops rp) (rtmp_ops re)
             (fold (stream_step rp re) ops streaming_new)
   in st_streams s = [] \<and> list_active_platform_streams s = [] \<and> \<not> rv_running (st_server s)"
  using stp.stop_streaming_clears [OF stream_run_ok [of re rp ops], of rp]
  by (simp add: list_active_platform_streams_def Let_def)

definition streams_listed :: "gst_streaming \<Rightarrow> bool" where
  "streams_listed s \<longleftrightarrow>
     distinct (map aps_stream_id (list_active_platform_streams s)) \<and>
     set (map aps_stream_id (list_active_platform_streams s)) = fst ` set (st_streams s) \<and>
     list_all (\<lambda>(i, p). 0 < i \<and> rt_running p) (st_streams s)"

text \<open>in every history exactly the streams that run are listed, under distinct positive ids.\<close>

theorem listed_streams_run:
  "streams_listed (fold (stream_step rp re) ops streaming_new)"
proof -
  let ?s = "fold (stream_step rp re) ops streaming_new"
  have "map aps_stream_id (list_active_platform_streams ?s) = map fst (st_names ?s)"
    by (simp add: list_active_platform_streams_def comp_def split_beta)
  then show ?thesis
    using stream_run_ok [of re rp ops]
    by (simp add: streams_listed_def stp.streaming_ok_def list_all_iff del: map_eq_conv)
qed

fun watch_rounds ::
  "rtmp_env \<Rightarrow> nat \<Rightarrow> rtmp_streamer \<times> nat \<Rightarrow> (rtmp_streamer \<times> nat) option" where
  "watch_rounds env 0 s = Some s"
| "watch_rounds env (Suc n) s =
     (case rtmp_watch_round env True False s of None \<Rightarrow> None | Some s1 \<Rightarrow> watch_rounds env n s1)"

definition endpoint_down :: "rtmp_env \<Rightarrow> bool" where
  "endpoint_down env \<longleftrightarrow> (\<forall>cfg. \<not> re_playing env cfg)"

lemma build_down: "endpoint_down env \<Longrightarrow>
    fst (rtmp_build_and_play env r) = False \<and>
    rt_watching (snd (rtmp_build_and_play env r)) = rt_watching r"
  by (simp add: endpoint_down_def rtmp_build_and_play_def rtmp_teardown_def Let_def)

lemma watch_round_down:
  assumes "endpoint_down env" "rt_running r" "rt_watching r"
  shows "\<exists>r1. rtmp_watch_round env True False (r, b) = Some (r1, min (b * 2) kMaxBackoff) \<and>
    rt_running r1 \<and> rt_watching r1"
proof -
  obtain ok r1 where B: "rtmp_build_and_play env (rtmp_teardown r) = (ok, r1)" by fastforce
  have "rt_running r1 = rt_running (rtmp_teardown r)"
    using rtmp_build_running [of env "rtmp_teardown r"] B by simp
  then show ?thesis
    using build_down [OF assms(1), of "rtmp_teardown r"] B assms(2,3)
    by (auto simp: rtmp_watch_round_def rtmp_teardown_def)
qed

lemma watch_rounds_down:
  assumes "endpoint_down env"
  shows "\<lbrakk>rt_running r; rt_watching r\<rbrakk> \<Longrightarrow>
    \<exists>r1. watch_rounds env n (r, min (kBaseBackoff * 2 ^ k) kMaxBackoff) =
      Some (r1, min (kBaseBackoff * 2 ^ (k + n)) kMaxBackoff)"
proof (induction n arbitrary: r k)
  case (Suc n)
  have "min (min (kBaseBackoff * 2 ^ k) kMaxBackoff * 2) kMaxBackoff =
      min (kBaseBackoff * 2 ^ Suc k) kMaxBackoff"
    by (simp add: min_def kMaxBackoff_def kBaseBackoff_def)
  then obtain r1 where "rtmp_watch_round env True False (r, min (kBaseBackoff * 2 ^ k) kMaxBackoff) =
      Some (r1, min (kBaseBackoff * 2 ^ Suc k) kMaxBackoff)" "rt_running r1" "rt_watching r1"
    using watch_round_down [OF assms Suc.prems, of "min (kBaseBackoff * 2 ^ k) kMaxBackoff"] by auto
  then show ?case using Suc.IH [of r1 "Suc k"] by simp
qed simp

text \<open>C21: the reconnect loop backs off: against an endpoint that stays down every round waits twice
  as long as the one before, capped at eight seconds, and the thread ends as soon as Stop has
  cleared the flag.\<close>

theorem rtmp_backoff:
  assumes "endpoint_down env" "rt_running r" "rt_watching r"
  shows "(case watch_rounds env n (r, kBaseBackoff) of
      None \<Rightarrow> False
    | Some (_, backoff) \<Rightarrow> backoff = min (500 * 2 ^ n) 8000) \<and>
    rtmp_watch_round env e False (rtmp_stop r, b) = None"
proof -
  obtain r1 where "watch_rounds env n (r, kBaseBackoff) =
      Some (r1, min (kBaseBackoff * 2 ^ n) kMaxBackoff)"
    using watch_rounds_down [OF assms, of n 0] by (auto simp: kBaseBackoff_def kMaxBackoff_def)
  then show ?thesis
    by (simp add: kBaseBackoff_def kMaxBackoff_def rtmp_watch_round_def rtmp_stop_def
        rtmp_teardown_def Let_def)
qed

definition dead_endpoint :: rtmp_env where
  "dead_endpoint =
     \<lparr>re_parse_error = (\<lambda>_. False), re_pipeline = (\<lambda>_. True), re_appsrc = (\<lambda>_. True),
      re_playing = (\<lambda>_. False), re_lock = (\<lambda>_. True), re_buffer = (\<lambda>_. True)\<rparr>"

theorem rtmp_backoff_witness:
  "(case watch_rounds dead_endpoint 3
        (rtmp_new\<lparr>rt_running := True, rt_watching := True\<rparr>, kBaseBackoff) of
      None \<Rightarrow> False
    | Some (_, backoff) \<Rightarrow> backoff = min (500 * 2 ^ 3) 8000) \<and>
    rtmp_watch_round dead_endpoint True False
      (rtmp_stop (rtmp_new\<lparr>rt_running := True, rt_watching := True\<rparr>), 500) = None"
  by (rule rtmp_backoff) (simp_all add: dead_endpoint_def endpoint_down_def)

end
