(* ===== verification/Download.thy ===== *)
theory Download
  imports Prelude
begin

text \<open>
  Finding and serving recordings: \<^verbatim>\<open>domain/storage/models/raw-capture-identity.hpp\<close>,
  \<^verbatim>\<open>domain/storage/services/raw-capture-naming.hpp\<close>, \<^verbatim>\<open>domain/network/models\<close>,
  \<^verbatim>\<open>app/network/services/download_server/download-server.cpp\<close> and
  \<^verbatim>\<open>adapters/network/http/http-download-server.cpp\<close>.

  The directory tree is the list of entries the recursive iterator yields until it ends or
  fails; the clock and the random token are arguments.  The HTTP library is represented by
  the header it hands in and the response the handler fills.
\<close>

section \<open>Raw capture file names\<close>

record raw_capture_identity =
  rci_capture_group_id :: string
  rci_camera_index :: u32

definition raw_identity_eq :: "raw_capture_identity \<Rightarrow> raw_capture_identity \<Rightarrow> bool" where
  "raw_identity_eq a b \<longleftrightarrow>
     rci_capture_group_id a = rci_capture_group_id b \<and> rci_camera_index a = rci_camera_index b"

definition kPrefix :: string where "kPrefix = ''raw__''"
definition kCameraMarker :: string where "kCameraMarker = ''__cam''"
definition kExtension :: string where "kExtension = ''.nv12''"

definition raw_file_name :: "raw_capture_identity \<Rightarrow> string" where
  "raw_file_name i =
     kPrefix @ rci_capture_group_id i @ kCameraMarker @ show_nat (unat (rci_camera_index i)) @
     kExtension"

text \<open>The digit loop, in wrapping 32-bit arithmetic.\<close>

fun parse_camera_index :: "u32 \<Rightarrow> string \<Rightarrow> u32 option" where
  "parse_camera_index acc [] = Some acc"
| "parse_camera_index acc (c # cs) =
     (if \<not> is_digit c then None
      else parse_camera_index (acc * 10 + of_nat (digit_val c)) cs)"

definition raw_parse_file_name :: "string \<Rightarrow> raw_capture_identity option" where
  "raw_parse_file_name name =
     (if take (length kPrefix) name \<noteq> kPrefix then None
      else if length name < length kExtension \<or>
              drop (length name - length kExtension) name \<noteq> kExtension then None
      else case rfind kCameraMarker name of
             None \<Rightarrow> None
           | Some marker_pos \<Rightarrow>
               if marker_pos \<le> length kPrefix then None
               else
                 let group = take (marker_pos - length kPrefix) (drop (length kPrefix) name);
                     index_start = marker_pos + length kCameraMarker;
                     index_len = length name - length kExtension - index_start;
                     index_str = take index_len (drop index_start name)
                 in if group = [] \<or> index_str = [] then None
                    else case parse_camera_index 0 index_str of
                           None \<Rightarrow> None
                         | Some i \<Rightarrow>
                             Some \<lparr>rci_capture_group_id = group, rci_camera_index = i\<rparr>)"

section \<open>Models\<close>

record download_token =
  dt_recording_id :: string
  dt_token :: string
  dt_expires_at_unix :: u64

record recording_summary =
  rsm_recording_id :: string
  rsm_size_bytes :: u64
  rsm_started_at_unix :: u64
  rsm_duration_s :: u64
  rsm_thumbnail_id :: string
  rsm_sport :: string
  rsm_teams :: string
  rsm_is_raw :: bool
  rsm_camera_index :: u32
  rsm_capture_group_id :: string

definition recording_summary_default :: recording_summary where
  "recording_summary_default =
     \<lparr>rsm_recording_id = [], rsm_size_bytes = 0, rsm_started_at_unix = 0, rsm_duration_s = 0,
      rsm_thumbnail_id = [], rsm_sport = [], rsm_teams = [], rsm_is_raw = False,
      rsm_camera_index = 0, rsm_capture_group_id = []\<rparr>"

section \<open>DownloadServer\<close>

text \<open>An entry of the tree: its path, is_regular_file, file_size (None on error) and the last
  write time mapped to unix seconds (None on error).\<close>

record dir_entry =
  de_path :: string
  de_regular :: bool
  de_size :: "u64 option"
  de_mtime :: "u64 option"

definition kMp4Extension :: string where "kMp4Extension = ''.mp4''"
definition kRawExtension :: string where "kRawExtension = ''.nv12''"

definition last_write_unix :: "dir_entry \<Rightarrow> u64" where
  "last_write_unix e = (case de_mtime e of None \<Rightarrow> 0 | Some t \<Rightarrow> t)"

text \<open>std::filesystem::file_size with an error code yields the largest number on failure.\<close>

definition entry_size :: "dir_entry \<Rightarrow> u64" where
  "entry_size e = (case de_size e of None \<Rightarrow> - 1 | Some n \<Rightarrow> n)"

definition summarize_entry :: "dir_entry \<Rightarrow> recording_summary option" where
  "summarize_entry e =
     (if \<not> de_regular e then None
      else
        let ext = path_extension (de_path e);
            sized = (\<lambda>s. s\<lparr>rsm_size_bytes := entry_size e, rsm_started_at_unix := last_write_unix e\<rparr>)
        in if ext = kMp4Extension
           then Some (sized (recording_summary_default\<lparr>rsm_recording_id := path_stem (de_path e),
                               rsm_thumbnail_id := path_stem (de_path e)\<rparr>))
           else if ext = kRawExtension
           then (case raw_parse_file_name (path_filename (de_path e)) of
                   None \<Rightarrow> None
                 | Some i \<Rightarrow>
                     Some (sized (recording_summary_default\<lparr>rsm_recording_id := path_stem (de_path e),
                             rsm_is_raw := True, rsm_camera_index := rci_camera_index i,
                             rsm_capture_group_id := rci_capture_group_id i\<rparr>)))
           else None)"

definition enumerate_recordings :: "bool \<Rightarrow> dir_entry list \<Rightarrow> recording_summary list" where
  "enumerate_recordings root_exists tree =
     (if \<not> root_exists then [] else List.map_filter summarize_entry tree)"

fun resolve_in_tree :: "string \<Rightarrow> dir_entry list \<Rightarrow> string option" where
  "resolve_in_tree rid [] = None"
| "resolve_in_tree rid (e # es) =
     (let ext = path_extension (de_path e)
      in if de_regular e \<and> (ext = kMp4Extension \<or> ext = kRawExtension) \<and> path_stem (de_path e) = rid
         then Some (de_path e) else resolve_in_tree rid es)"

definition resolve_recording_path :: "bool \<Rightarrow> dir_entry list \<Rightarrow> string \<Rightarrow> string option" where
  "resolve_recording_path root_exists tree rid =
     (if rid = [] \<or> \<not> root_exists then None else resolve_in_tree rid tree)"

record token_entry =
  te_path :: string
  te_expires_at_unix :: u64

type_synonym token_table = "(string \<times> token_entry) list"

text \<open>\<^verbatim>\<open>fresh\<close> is the token MakeSecureToken drew, \<^verbatim>\<open>now\<close> the clock.\<close>

definition mint_token ::
  "bool \<Rightarrow> dir_entry list \<Rightarrow> u64 \<Rightarrow> string \<Rightarrow> string \<Rightarrow> u64 \<Rightarrow> token_table \<Rightarrow>
   download_token option \<times> token_table" where
  "mint_token root_exists tree now fresh rid ttl tokens =
     (case resolve_recording_path root_exists tree rid of
        None \<Rightarrow> (None, tokens)
      | Some path \<Rightarrow>
          let token = \<lparr>dt_recording_id = rid, dt_token = fresh, dt_expires_at_unix = now + ttl\<rparr>
          in (Some token,
              AList.update (dt_token token)
                \<lparr>te_path = path, te_expires_at_unix = dt_expires_at_unix token\<rparr> tokens))"

definition validate_token :: "u64 \<Rightarrow> string \<Rightarrow> token_table \<Rightarrow> string option \<times> token_table" where
  "validate_token now token tokens =
     (case map_of tokens token of
        None \<Rightarrow> (None, tokens)
      | Some e \<Rightarrow>
          if te_expires_at_unix e \<le> now then (None, AList.delete token tokens)
          else (Some (te_path e), tokens))"

section \<open>HttpDownloadServer\<close>

definition kBearerPrefix :: string where "kBearerPrefix = ''Bearer ''"

text \<open>The Authorization header, None when absent.\<close>

definition extract_bearer :: "string option \<Rightarrow> string" where
  "extract_bearer auth =
     (case auth of
        None \<Rightarrow> []
      | Some a \<Rightarrow> if \<not> prefix kBearerPrefix a then [] else drop (length kBearerPrefix) a)"

datatype http_response =
    HttpUnauthorized
  | HttpNotFound
  | HttpContent nat string

text \<open>\<^verbatim>\<open>file_size\<close> is std::filesystem::file_size, None on error.\<close>

definition handle_download ::
  "(string \<Rightarrow> nat option) \<Rightarrow> u64 \<Rightarrow> string option \<Rightarrow> token_table \<Rightarrow> http_response \<times> token_table" where
  "handle_download file_size now auth tokens =
     (let token = extract_bearer auth
      in case (if token = [] then (None, tokens) else validate_token now token tokens) of
           (None, tokens1) \<Rightarrow> (HttpUnauthorized, tokens1)
         | (Some path, tokens1) \<Rightarrow>
             (case file_size path of
                None \<Rightarrow> (HttpNotFound, tokens1)
              | Some n \<Rightarrow> (HttpContent n path, tokens1)))"

text \<open>The content provider: the bytes it writes for a slice, None when the file cannot be opened.\<close>

definition provide_slice :: "(string \<Rightarrow> string option) \<Rightarrow> string \<Rightarrow> nat \<Rightarrow> nat \<Rightarrow> string option" where
  "provide_slice read_file file offset len =
     (case read_file file of None \<Rightarrow> None | Some bs \<Rightarrow> Some (take len (drop offset bs)))"

record http_server =
  hs_running :: bool
  hs_bound_port :: "16 word"
  hs_thread :: bool

text \<open>\<^verbatim>\<open>bound\<close> is what bind_to_port returned.\<close>

definition http_start :: "int \<Rightarrow> http_server \<Rightarrow> bool \<times> http_server" where
  "http_start bound h =
     (if hs_running h then (True, h)
      else if bound \<le> 0 then (False, h)
      else (True, h\<lparr>hs_bound_port := word_of_int bound, hs_running := True, hs_thread := True\<rparr>))"

definition http_stop :: "http_server \<Rightarrow> http_server" where
  "http_stop h = (if \<not> hs_running h then h else h\<lparr>hs_thread := False, hs_running := False\<rparr>)"

section \<open>Names read back\<close>

lemma parse_camera_index_digits:
  "list_all is_digit s \<Longrightarrow>
   parse_camera_index (of_nat acc) s = Some (of_nat (foldl (\<lambda>acc c. acc * 10 + digit_val c) acc s))"
proof (induction s arbitrary: acc)
  case (Cons c cs)
  have "of_nat acc * 10 + of_nat (digit_val c) = (of_nat (acc * 10 + digit_val c) :: u32)" by simp
  then show ?case using Cons by (simp del: of_nat_add of_nat_mult)
qed simp

lemma parse_camera_index_show: "parse_camera_index 0 (show_nat n) = Some (of_nat n)"
  using parse_camera_index_digits [OF show_nat_digits, of 0 n] by (simp add: show_nat_value)

definition underscores :: "string \<Rightarrow> nat" where
  "underscores s = length (filter (\<lambda>c. c = CHR ''_'') s)"

lemma underscores_append: "underscores (xs @ ys) = underscores xs + underscores ys"
  by (simp add: underscores_def)

lemma underscores_drop: "underscores (drop n s) \<le> underscores s"
  using underscores_append [of "take n s" "drop n s"] by simp

lemma underscores_digits: "list_all is_digit ds \<Longrightarrow> underscores ds = 0"
  by (induction ds) (auto simp: underscores_def is_digit_def)

lemma marker_only_at_front:
  assumes "list_all is_digit ds" "0 < j"
  shows "\<not> prefix kCameraMarker (drop j (kCameraMarker @ ds @ kExtension))"
proof
  let ?tail = "''_cam'' @ ds @ kExtension"
  assume "prefix kCameraMarker (drop j (kCameraMarker @ ds @ kExtension))"
  moreover have "drop j (kCameraMarker @ ds @ kExtension) = drop (j - 1) ?tail"
    using assms(2) by (cases j) (simp_all add: kCameraMarker_def)
  ultimately obtain rest where "drop (j - 1) ?tail = kCameraMarker @ rest"
    by (auto simp: prefix_def)
  then have "2 \<le> underscores (drop (j - 1) ?tail)"
    by (simp add: underscores_append) (simp add: underscores_def kCameraMarker_def)
  also have "\<dots> \<le> underscores ?tail" by (rule underscores_drop)
  also have "\<dots> = 1"
    using underscores_digits [OF assms(1)]
    by (simp only: underscores_append) (simp add: underscores_def kExtension_def)
  finally show False by simp
qed

lemma rfind_marker:
  assumes "list_all is_digit ds"
  shows "rfind kCameraMarker (pre @ kCameraMarker @ ds @ kExtension) = Some (length pre)"
proof (rule rfindI)
  fix j
  assume j: "length pre < j"
  have "drop j (pre @ kCameraMarker @ ds @ kExtension) =
      drop (j - length pre) (kCameraMarker @ ds @ kExtension)"
    using j by simp
  then show "\<not> prefix kCameraMarker (drop j (pre @ kCameraMarker @ ds @ kExtension))"
    using marker_only_at_front [OF assms, of "j - length pre"] j by simp
qed simp_all

lemma raw_parse_marked:
  assumes "list_all is_digit ds" "ds \<noteq> []" "g \<noteq> []"
  shows "raw_parse_file_name (kPrefix @ g @ kCameraMarker @ ds @ kExtension) =
    map_option (\<lambda>i. \<lparr>rci_capture_group_id = g, rci_camera_index = i\<rparr>) (parse_camera_index 0 ds)"
proof -
  have "rfind kCameraMarker (kPrefix @ g @ kCameraMarker @ ds @ kExtension) =
      Some (length kPrefix + length g)"
    using rfind_marker [OF assms(1), of "kPrefix @ g"] by simp
  then show ?thesis
    using assms(2,3)
    by (simp add: raw_parse_file_name_def Let_def map_option_case split: option.split)
qed

section \<open>Token histories\<close>

datatype token_op =
    MintOp bool "dir_entry list" u64 string string u64
  | ValidateOp u64 string

fun token_step :: "token_op \<Rightarrow> token_table \<Rightarrow> token_table" where
  "token_step (MintOp root_exists tree now fresh rid ttl) t =
     snd (mint_token root_exists tree now fresh rid ttl t)"
| "token_step (ValidateOp now token) t = snd (validate_token now token t)"

text \<open>The operation happens no later than \<^verbatim>\<open>now\<close> and draws another token.\<close>

fun quiet_for :: "u64 \<Rightarrow> string \<Rightarrow> token_op \<Rightarrow> bool" where
  "quiet_for now token (MintOp _ _ t fresh _ _) \<longleftrightarrow> t \<le> now \<and> fresh \<noteq> token"
| "quiet_for now token (ValidateOp t _) \<longleftrightarrow> t \<le> now"

lemma token_step_keeps:
  assumes "quiet_for now token op"
    and "map_of t token = Some e \<or> map_of t token = None \<and> te_expires_at_unix e \<le> now"
  shows "map_of (token_step op t) token = Some e \<or>
    map_of (token_step op t) token = None \<and> te_expires_at_unix e \<le> now"
proof (cases op)
  case (MintOp root_exists tree m fresh rid ttl)
  then show ?thesis
    using assms
    by (auto simp: mint_token_def AList.update_conv' Let_def split: option.splits)
next
  case (ValidateOp m tok)
  then show ?thesis
    using assms
    by (auto simp: validate_token_def AList.delete_conv' split: option.splits if_splits)
qed

lemma token_steps_keep:
  "\<lbrakk>list_all (quiet_for now token) ops;
    map_of t token = Some e \<or> map_of t token = None \<and> te_expires_at_unix e \<le> now\<rbrakk> \<Longrightarrow>
   map_of (fold token_step ops t) token = Some e \<or>
   map_of (fold token_step ops t) token = None \<and> te_expires_at_unix e \<le> now"
proof (induction ops arbitrary: t)
  case (Cons op ops)
  then show ?case using token_step_keeps [of now token op t e] by simp
qed simp

section \<open>Properties\<close>

text \<open>C22: the writer's file name is read back by the enumerator as the same identity, for every
  nonempty group id (also one that contains the delimiters) and every camera index.\<close>

theorem raw_name_roundtrip:
  assumes "rci_capture_group_id i \<noteq> []"
  shows "raw_parse_file_name (raw_file_name i) = Some i"
  using raw_parse_marked [OF show_nat_digits show_nat_nonempty assms, of "unat (rci_camera_index i)"]
  by (simp add: raw_file_name_def parse_camera_index_show)

theorem raw_name_roundtrip_witness:
  "raw_parse_file_name (raw_file_name
     \<lparr>rci_capture_group_id = ''a__cam7.nv12'', rci_camera_index = 42\<rparr>) =
   Some \<lparr>rci_capture_group_id = ''a__cam7.nv12'', rci_camera_index = 42\<rparr>"
  by (rule raw_name_roundtrip) simp

text \<open>two different files can carry the same identity: the camera index of a file name is
  read modulo 2 to the 32 and leading zeros are accepted.\<close>

theorem raw_index_wraps:
  assumes "g \<noteq> []"
  shows "raw_parse_file_name (kPrefix @ g @ kCameraMarker @ show_nat (n + 2 ^ 32) @ kExtension) =
    raw_parse_file_name (kPrefix @ g @ kCameraMarker @ show_nat n @ kExtension)"
  using raw_parse_marked [OF show_nat_digits show_nat_nonempty assms, of "n + 2 ^ 32"]
    raw_parse_marked [OF show_nat_digits show_nat_nonempty assms, of n]
  by (simp add: parse_camera_index_show)

theorem raw_index_wraps_witness:
  "raw_parse_file_name (kPrefix @ ''g'' @ kCameraMarker @ show_nat (1 + 2 ^ 32) @ kExtension) =
    raw_parse_file_name (kPrefix @ ''g'' @ kCameraMarker @ show_nat 1 @ kExtension)"
  by (rule raw_index_wraps) simp

text \<open>C23: a minted token opens exactly its file until it expires: whatever tokens are minted and
  checked in between (none later than now, none drawing the same token), it authorizes the file
  resolved when it was minted while now is before its expiry, and nothing afterwards.\<close>

theorem token_lifetime:
  assumes "resolve_recording_path root_exists tree rid = Some path"
    and "list_all (quiet_for now fresh) ops"
  shows "fst (validate_token now fresh
      (fold token_step ops (snd (mint_token root_exists tree t0 fresh rid ttl tokens)))) =
    (if now < t0 + ttl then Some path else None)"
proof -
  let ?e = "\<lparr>te_path = path, te_expires_at_unix = t0 + ttl\<rparr>"
  have "map_of (snd (mint_token root_exists tree t0 fresh rid ttl tokens)) fresh = Some ?e"
    using assms(1) by (simp add: mint_token_def AList.update_conv' Let_def)
  then have "map_of (fold token_step ops (snd (mint_token root_exists tree t0 fresh rid ttl tokens))) fresh
        = Some ?e \<or>
      map_of (fold token_step ops (snd (mint_token root_exists tree t0 fresh rid ttl tokens))) fresh
        = None \<and> te_expires_at_unix ?e \<le> now"
    by (intro token_steps_keep [OF assms(2)]) simp
  then show ?thesis by (auto simp: validate_token_def)
qed

theorem token_lifetime_witness:
  "fst (validate_token 150 ''tok''
      (fold token_step [ValidateOp 120 ''tok'', MintOp True [] 130 ''other'' ''x'' 5]
        (snd (mint_token True
           [\<lparr>de_path = ''/v/game.mp4'', de_regular = True, de_size = Some 9, de_mtime = None\<rparr>]
           100 ''tok'' ''game'' 60 [])))) =
    (if (150 :: u64) < 100 + 60 then Some ''/v/game.mp4'' else None)"
proof (rule token_lifetime)
  show "resolve_recording_path True
      [\<lparr>de_path = ''/v/game.mp4'', de_regular = True, de_size = Some 9, de_mtime = None\<rparr>] ''game'' =
    Some ''/v/game.mp4''"
    by code_simp
qed simp

end
