(* ===== verification/Overlay.thy ===== *)
theory Overlay
  imports Complex_Main Frames Session
begin

text \<open>
  The overlay: \<^verbatim>\<open>domain/overlay/models\<close>, \<^verbatim>\<open>app/overlay/overlay-proto-mapper.cpp\<close>,
  \<^verbatim>\<open>app/overlay/binding-sync.hpp\<close>, the scene service
  (\<^verbatim>\<open>app/overlay/services/overlay_scene/overlay-scene.cpp\<close>), the controller
  (\<^verbatim>\<open>app/overlay/services/overlay_controller/overlay-controller.cpp\<close>) and the caching sink
  (\<^verbatim>\<open>adapters/overlay/caching/caching-overlay-sink.hpp\<close>).

  The code only compares, truncates and passes on floating point numbers, so a float is an
  exact number, an infinity or NaN, with the comparisons of IEEE 754.  The fmt library's
  printing, the renderer and the protobuf classes (represented by the fields the mapper reads)
  are arguments.
\<close>

section \<open>Floating point values\<close>

datatype fl = Fin rat | PInf | NInf | NaN

fun fl_less :: "fl \<Rightarrow> fl \<Rightarrow> bool" where
  "fl_less (Fin a) (Fin b) \<longleftrightarrow> a < b"
| "fl_less NInf (Fin _) \<longleftrightarrow> True"
| "fl_less NInf PInf \<longleftrightarrow> True"
| "fl_less (Fin _) PInf \<longleftrightarrow> True"
| "fl_less _ _ \<longleftrightarrow> False"

definition fl_clamp :: "fl \<Rightarrow> fl \<Rightarrow> fl \<Rightarrow> fl" where
  "fl_clamp v lo hi = (if fl_less v lo then lo else if fl_less hi v then hi else v)"

text \<open>\<^verbatim>\<open>static_cast<int>\<close>: truncation toward zero; undefined outside the range of int.\<close>

fun fl_to_int :: "fl \<Rightarrow> int option" where
  "fl_to_int (Fin q) =
     (let i = (if 0 \<le> q then \<lfloor>q\<rfloor> else \<lceil>q\<rceil>)
      in if - (2 ^ 31) \<le> i \<and> i < 2 ^ 31 then Some i else None)"
| "fl_to_int _ = None"

section \<open>Models\<close>

datatype overlay_shape = ShapeUnknown | ShapeRect | ShapeText | ShapeCircle

datatype overlay_binding =
    BindStatic | BindScoreA | BindScoreB | BindScoreVs | BindTeamAName | BindTeamBName
  | BindMatchClock | BindPeriodLabel

datatype text_align = AlignLeft | AlignCenter | AlignRight

datatype font_weight = WeightNormal | WeightBold

datatype period_label_state = PeriodInPlay | PeriodHalfTime | PeriodFullTime

record overlay_rect =
  or_x1 :: fl
  or_y1 :: fl
  or_x2 :: fl
  or_y2 :: fl
  or_z :: u32

record overlay_style =
  oy_fill_color :: string
  oy_text_color :: string
  oy_opacity :: fl
  oy_corner_radius :: fl
  oy_font_family :: string
  oy_font_size :: fl
  oy_text_align :: text_align
  oy_font_weight :: font_weight
  oy_static_text :: string

record overlay_element =
  oe_id :: string
  oe_shape :: overlay_shape
  oe_bounds :: overlay_rect
  oe_style :: overlay_style
  oe_binding :: overlay_binding
  oe_visible :: bool

record overlay_template =
  ot_event_type :: string
  ot_duration_ms :: u32
  ot_elements :: "overlay_element list"

record overlay_layout =
  ol_canvas_width :: u32
  ol_canvas_height :: u32
  ol_elements :: "overlay_element list"
  ol_templates :: "overlay_template list"

definition overlay_layout_default :: overlay_layout where
  "overlay_layout_default =
     \<lparr>ol_canvas_width = 0, ol_canvas_height = 0, ol_elements = [], ol_templates = []\<rparr>"

record render_element =
  re_shape :: overlay_shape
  re_bounds :: overlay_rect
  re_style :: overlay_style
  re_text :: string

record render_scene =
  rsc_canvas_width :: u32
  rsc_canvas_height :: u32
  rsc_elements :: "render_element list"

record rgba_image =
  ri_width :: u32
  ri_height :: u32
  ri_stride :: u32
  ri_pixels :: "u8 list"

section \<open>Layout messages\<close>

datatype pb_shape = SHAPE_RECT | SHAPE_TEXT | SHAPE_CIRCLE | SHAPE_OTHER int

datatype pb_binding =
    BINDING_SCORE_A | BINDING_SCORE_B | BINDING_SCORE_VS | BINDING_TEAM_A_NAME
  | BINDING_TEAM_B_NAME | BINDING_MATCH_CLOCK | BINDING_PERIOD_LABEL | BINDING_OTHER int

datatype pb_align = TEXT_ALIGN_CENTER | TEXT_ALIGN_RIGHT | TEXT_ALIGN_OTHER int

datatype pb_weight = FONT_WEIGHT_BOLD | FONT_WEIGHT_OTHER int

text \<open>Optional fields are None when unset.\<close>

record pb_style =
  ps_fill_color :: string
  ps_text_color :: string
  ps_opacity :: "fl option"
  ps_corner_radius :: fl
  ps_font_family :: string
  ps_font_size :: fl
  ps_text_align :: pb_align
  ps_font_weight :: pb_weight
  ps_static_text :: string

record pb_element =
  pe_id :: string
  pe_shape :: pb_shape
  pe_bounds :: overlay_rect
  pe_style :: pb_style
  pe_binding :: pb_binding
  pe_visible :: "bool option"

record pb_template =
  pt_event_type :: string
  pt_duration_ms :: u32
  pt_elements :: "pb_element list"

record pb_layout =
  pl_canvas_width :: u32
  pl_canvas_height :: u32
  pl_elements :: "pb_element list"
  pl_templates :: "pb_template list"

fun map_shape :: "pb_shape \<Rightarrow> overlay_shape" where
  "map_shape SHAPE_RECT = ShapeRect"
| "map_shape SHAPE_TEXT = ShapeText"
| "map_shape SHAPE_CIRCLE = ShapeCircle"
| "map_shape (SHAPE_OTHER _) = ShapeUnknown"

fun map_binding :: "pb_binding \<Rightarrow> overlay_binding" where
  "map_binding BINDING_SCORE_A = BindScoreA"
| "map_binding BINDING_SCORE_B = BindScoreB"
| "map_binding BINDING_SCORE_VS = BindScoreVs"
| "map_binding BINDING_TEAM_A_NAME = BindTeamAName"
| "map_binding BINDING_TEAM_B_NAME = BindTeamBName"
| "map_binding BINDING_MATCH_CLOCK = BindMatchClock"
| "map_binding BINDING_PERIOD_LABEL = BindPeriodLabel"
| "map_binding (BINDING_OTHER _) = BindStatic"

fun map_align :: "pb_align \<Rightarrow> text_align" where
  "map_align TEXT_ALIGN_CENTER = AlignCenter"
| "map_align TEXT_ALIGN_RIGHT = AlignRight"
| "map_align (TEXT_ALIGN_OTHER _) = AlignLeft"

definition map_weight :: "pb_weight \<Rightarrow> font_weight" where
  "map_weight w = (if w = FONT_WEIGHT_BOLD then WeightBold else WeightNormal)"

definition map_rect :: "overlay_rect \<Rightarrow> overlay_rect" where
  "map_rect r =
     \<lparr>or_x1 = or_x1 r, or_y1 = or_y1 r, or_x2 = or_x2 r, or_y2 = or_y2 r, or_z = or_z r\<rparr>"

definition map_style :: "pb_style \<Rightarrow> overlay_style" where
  "map_style s =
     (let opacity = (case ps_opacity s of Some v \<Rightarrow> v | None \<Rightarrow> Fin 1)
      in \<lparr>oy_fill_color = ps_fill_color s, oy_text_color = ps_text_color s,
          oy_opacity = fl_clamp opacity (Fin 0) (Fin 1), oy_corner_radius = ps_corner_radius s,
          oy_font_family = ps_font_family s, oy_font_size = ps_font_size s,
          oy_text_align = map_align (ps_text_align s),
          oy_font_weight = map_weight (ps_font_weight s), oy_static_text = ps_static_text s\<rparr>)"

definition map_element :: "pb_element \<Rightarrow> overlay_element" where
  "map_element e =
     \<lparr>oe_id = pe_id e, oe_shape = map_shape (pe_shape e), oe_bounds = map_rect (pe_bounds e),
      oe_style = map_style (pe_style e), oe_binding = map_binding (pe_binding e),
      oe_visible = (case pe_visible e of Some v \<Rightarrow> v | None \<Rightarrow> True)\<rparr>"

definition map_layout_from_proto :: "pb_layout \<Rightarrow> overlay_layout" where
  "map_layout_from_proto p =
     \<lparr>ol_canvas_width = pl_canvas_width p, ol_canvas_height = pl_canvas_height p,
      ol_elements = map map_element (pl_elements p),
      ol_templates =
        map (\<lambda>t. \<lparr>ot_event_type = pt_event_type t, ot_duration_ms = pt_duration_ms t,
                   ot_elements = map map_element (pt_elements t)\<rparr>) (pl_templates p)\<rparr>"

section \<open>Binding data\<close>

record binding_data =
  bd_score_a :: u32
  bd_score_b :: u32
  bd_period :: u32
  bd_clock_seconds :: u32
  bd_period_state :: period_label_state
  bd_team_a_name :: string
  bd_team_b_name :: string

definition binding_data_default :: binding_data where
  "binding_data_default =
     \<lparr>bd_score_a = 0, bd_score_b = 0, bd_period = 0, bd_clock_seconds = 0,
      bd_period_state = PeriodInPlay, bd_team_a_name = [], bd_team_b_name = []\<rparr>"

definition build_binding_data :: "session_state \<Rightarrow> binding_data" where
  "build_binding_data st =
     (let named = (case ss_config st of
                     None \<Rightarrow> binding_data_default
                   | Some c \<Rightarrow> binding_data_default\<lparr>bd_team_a_name := sc_team_a_name c,
                                                    bd_team_b_name := sc_team_b_name c\<rparr>);
          m = ss_match st
      in named\<lparr>bd_score_a := lm_score_a m, bd_score_b := lm_score_b m, bd_period := lm_period m,
               bd_clock_seconds := lm_clock_seconds m,
               bd_period_state := (case lm_segment m of
                                     HalfTime \<Rightarrow> PeriodHalfTime
                                   | FullTime \<Rightarrow> PeriodFullTime
                                   | InPlay \<Rightarrow> PeriodInPlay)\<rparr>)"

section \<open>OverlayScene\<close>

text \<open>The fmt library: an integer, an integer padded to two digits, a float.\<close>

record fmt_lib =
  fm_int :: "int \<Rightarrow> string"
  fm_int02 :: "int \<Rightarrow> string"
  fm_float :: "fl \<Rightarrow> string"

definition param_token :: "string \<Rightarrow> string" where
  "param_token key = ''{{'' @ key @ ''}}''"

function substitute_from :: "string \<Rightarrow> string \<Rightarrow> string \<Rightarrow> nat \<Rightarrow> string" where
  "substitute_from key value text pos =
     (case find_from (param_token key) text pos of
        None \<Rightarrow> text
      | Some p \<Rightarrow>
          substitute_from key value
            (take p text @ value @ drop (p + length (param_token key)) text) (p + length value))"
  by auto
termination
proof (relation "measure (\<lambda>(key, value, text, pos). length text - pos)")
  fix key v tx :: string and pos p :: nat
  assume "find_from (param_token key) tx pos = Some p"
  note f = find_from_SomeD [OF this]
  have "0 < length (param_token key)" by (simp add: param_token_def)
  then have "length tx - (p + length (param_token key)) < length tx - pos"
    using f(1,2) by linarith
  then show "((key, v, take p tx @ v @ drop (p + length (param_token key)) tx, p + length v),
      key, v, tx, pos) \<in> measure (\<lambda>(key, value, text, pos). length text - pos)"
    using f(2) by (simp add: add.commute)
qed simp

declare substitute_from.simps [simp del]

text \<open>The parameters are a std::map: the keys in increasing order.\<close>

definition substitute_params :: "string \<Rightarrow> (string \<times> string) list \<Rightarrow> string" where
  "substitute_params text params = fold (\<lambda>(key, value) t. substitute_from key value t 0) params text"

record active_banner =
  ab_expires_at_ms :: u64
  ab_elements :: "overlay_element list"

record overlay_scene =
  os_layout :: overlay_layout
  os_has_layout :: bool
  os_data :: binding_data
  os_banners :: "active_banner list"

definition overlay_scene_new :: overlay_scene where
  "overlay_scene_new =
     \<lparr>os_layout = overlay_layout_default, os_has_layout = False, os_data = binding_data_default,
      os_banners = []\<rparr>"

definition set_layout :: "overlay_layout \<Rightarrow> overlay_scene \<Rightarrow> overlay_scene" where
  "set_layout l s = s\<lparr>os_layout := l, os_has_layout := True, os_banners := []\<rparr>"

definition set_binding_data :: "binding_data \<Rightarrow> overlay_scene \<Rightarrow> overlay_scene" where
  "set_binding_data d s = s\<lparr>os_data := d\<rparr>"

definition activate_banner ::
  "string \<Rightarrow> (string \<times> string) list \<Rightarrow> u32 \<Rightarrow> u64 \<Rightarrow> overlay_scene \<Rightarrow> bool \<times> overlay_scene" where
  "activate_banner template_id params duration_s_override now_ms s =
     (if \<not> os_has_layout s then (False, s)
      else case List.find (\<lambda>t. ot_event_type t = template_id) (ol_templates (os_layout s)) of
             None \<Rightarrow> (False, s)
           | Some t \<Rightarrow>
               let duration_ms = (if 0 < duration_s_override then ucast duration_s_override * 1000
                                  else ucast (ot_duration_ms t));
                   banner = \<lparr>ab_expires_at_ms = now_ms + duration_ms,
                             ab_elements =
                               map (\<lambda>e. e\<lparr>oe_visible := True,
                                          oe_style := (oe_style e)\<lparr>oy_static_text :=
                                            substitute_params (oy_static_text (oe_style e)) params\<rparr>\<rparr>)
                                 (ot_elements t)\<rparr>
               in (True, s\<lparr>os_banners := os_banners s @ [banner]\<rparr>))"

definition expire_banners :: "u64 \<Rightarrow> overlay_scene \<Rightarrow> overlay_scene" where
  "expire_banners now_ms s =
     s\<lparr>os_banners := filter (\<lambda>b. \<not> ab_expires_at_ms b \<le> now_ms) (os_banners s)\<rparr>"

text \<open>The separator of the versus text is an en dash in UTF-8.\<close>

definition resolve_text :: "fmt_lib \<Rightarrow> binding_data \<Rightarrow> overlay_element \<Rightarrow> string" where
  "resolve_text F d e =
     (if oe_shape e \<noteq> ShapeText then []
      else case oe_binding e of
             BindStatic \<Rightarrow> oy_static_text (oe_style e)
           | BindScoreA \<Rightarrow> fm_int F (uint (bd_score_a d))
           | BindScoreB \<Rightarrow> fm_int F (uint (bd_score_b d))
           | BindScoreVs \<Rightarrow>
               fm_int F (uint (bd_score_a d)) @ [CHR 0x20, CHR 0xE2, CHR 0x80, CHR 0x93, CHR 0x20] @
               fm_int F (uint (bd_score_b d))
           | BindTeamAName \<Rightarrow> bd_team_a_name d
           | BindTeamBName \<Rightarrow> bd_team_b_name d
           | BindMatchClock \<Rightarrow>
               fm_int02 F (uint (bd_clock_seconds d div 60)) @ '':'' @
               fm_int02 F (uint (bd_clock_seconds d mod 60))
           | BindPeriodLabel \<Rightarrow>
               (case bd_period_state d of
                  PeriodHalfTime \<Rightarrow> ''HT''
                | PeriodFullTime \<Rightarrow> ''FT''
                | PeriodInPlay \<Rightarrow> ''P'' @ fm_int F (uint (bd_period d))))"

definition render_element_of :: "fmt_lib \<Rightarrow> binding_data \<Rightarrow> overlay_element \<Rightarrow> render_element" where
  "render_element_of F d e =
     \<lparr>re_shape = oe_shape e, re_bounds = oe_bounds e, re_style = oe_style e,
      re_text = resolve_text F d e\<rparr>"

text \<open>add_element keeps the visible ones; std::stable_sort by z is a stable sort.\<close>

definition build_scene :: "fmt_lib \<Rightarrow> u64 \<Rightarrow> overlay_scene \<Rightarrow> render_scene \<times> overlay_scene" where
  "build_scene F now_ms s =
     (let s1 = expire_banners now_ms s;
          es = filter oe_visible
                 (ol_elements (os_layout s1) @ concat (map ab_elements (os_banners s1)))
      in (\<lparr>rsc_canvas_width = ol_canvas_width (os_layout s1),
           rsc_canvas_height = ol_canvas_height (os_layout s1),
           rsc_elements = sort_key (\<lambda>e. unat (or_z (re_bounds e)))
                            (map (render_element_of F (os_data s1)) es)\<rparr>, s1))"

section \<open>OverlayController and the caching sink\<close>

definition caching_push_frame :: "rgba_image \<Rightarrow> rgba_image option \<Rightarrow> rgba_image option" where
  "caching_push_frame img latest = Some img"

definition caching_latest_overlay :: "rgba_image option \<Rightarrow> rgba_image option" where
  "caching_latest_overlay latest = latest"

record overlay_controller =
  oc_out_size :: output_size
  oc_scene :: overlay_scene
  oc_last_signature :: string
  oc_pushed_once :: bool
  oc_push_count :: u64
  oc_sink :: "rgba_image option"

definition overlay_controller_new :: "output_size \<Rightarrow> overlay_controller" where
  "overlay_controller_new sz =
     \<lparr>oc_out_size = sz, oc_scene = overlay_scene_new, oc_last_signature = [],
      oc_pushed_once = False, oc_push_count = 0, oc_sink = None\<rparr>"

definition controller_set_layout :: "overlay_layout \<Rightarrow> overlay_controller \<Rightarrow> overlay_controller" where
  "controller_set_layout l c = c\<lparr>oc_scene := set_layout l (oc_scene c)\<rparr>"

definition controller_set_binding_data :: "binding_data \<Rightarrow> overlay_controller \<Rightarrow> overlay_controller" where
  "controller_set_binding_data d c = c\<lparr>oc_scene := set_binding_data d (oc_scene c)\<rparr>"

definition controller_activate_banner ::
  "string \<Rightarrow> (string \<times> string) list \<Rightarrow> u32 \<Rightarrow> u64 \<Rightarrow> overlay_controller \<Rightarrow>
   bool \<times> overlay_controller" where
  "controller_activate_banner template_id params dur now_ms c =
     (case activate_banner template_id params dur now_ms (oc_scene c) of
        (ok, s) \<Rightarrow> (ok, c\<lparr>oc_scene := s\<rparr>))"

primrec shape_int :: "overlay_shape \<Rightarrow> int" where
  "shape_int ShapeUnknown = 0"
| "shape_int ShapeRect = 1"
| "shape_int ShapeText = 2"
| "shape_int ShapeCircle = 3"

definition element_signature :: "fmt_lib \<Rightarrow> render_element \<Rightarrow> string option" where
  "element_signature F e =
     (case fl_to_int (oy_corner_radius (re_style e)) of
        None \<Rightarrow> None
      | Some radius \<Rightarrow>
          Some (fm_int F (shape_int (re_shape e)) @ '';'' @ fm_float F (or_x1 (re_bounds e)) @ '','' @
                fm_float F (or_y1 (re_bounds e)) @ '','' @ fm_float F (or_x2 (re_bounds e)) @ '','' @
                fm_float F (or_y2 (re_bounds e)) @ '','' @ fm_int F (uint (or_z (re_bounds e))) @
                '';'' @ re_text e @ '';'' @ oy_fill_color (re_style e) @ '';'' @
                oy_text_color (re_style e) @ '';'' @ fm_float F (oy_opacity (re_style e)) @ '';'' @
                fm_int F radius @ ''|''))"

text \<open>None when a corner radius is outside the range of int.\<close>

fun elements_signature :: "fmt_lib \<Rightarrow> render_element list \<Rightarrow> string option" where
  "elements_signature F [] = Some []"
| "elements_signature F (e # es) =
     (case element_signature F e of
        None \<Rightarrow> None
      | Some a \<Rightarrow> (case elements_signature F es of None \<Rightarrow> None | Some b \<Rightarrow> Some (a @ b)))"

definition scene_signature :: "fmt_lib \<Rightarrow> render_scene \<Rightarrow> string option" where
  "scene_signature F sc =
     (case elements_signature F (rsc_elements sc) of
        None \<Rightarrow> None
      | Some a \<Rightarrow>
          Some (fm_int F (uint (rsc_canvas_width sc)) @ ''x'' @
                fm_int F (uint (rsc_canvas_height sc)) @ ''|'' @ a))"

text \<open>The port IOverlayRenderer: the image of a scene in a size; None is undefined behaviour in the
  adapter, and of Refresh also in the signature.\<close>

type_synonym renderer = "render_scene \<Rightarrow> u32 \<Rightarrow> u32 \<Rightarrow> rgba_image option"

definition controller_refresh ::
  "fmt_lib \<Rightarrow> renderer \<Rightarrow> u64 \<Rightarrow> overlay_controller \<Rightarrow>
   (bool \<times> overlay_controller) option" where
  "controller_refresh F render now_ms c =
     (case build_scene F now_ms (oc_scene c) of (sc, s) \<Rightarrow>
        let c1 = c\<lparr>oc_scene := s\<rparr>
        in case scene_signature F sc of
             None \<Rightarrow> None
           | Some sig \<Rightarrow>
               if oc_pushed_once c1 \<and> sig = oc_last_signature c1 then Some (False, c1)
               else
                 case render sc (osz_width (oc_out_size c1)) (osz_height (oc_out_size c1)) of
                   None \<Rightarrow> None
                 | Some img \<Rightarrow>
                     Some (True, c1\<lparr>oc_last_signature := sig, oc_pushed_once := True,
                                    oc_sink := caching_push_frame img (oc_sink c1),
                                    oc_push_count := oc_push_count c1 + 1\<rparr>))"

section \<open>Substitution against a reference\<close>

fun replace_all :: "string \<Rightarrow> string \<Rightarrow> string \<Rightarrow> string" where
  "replace_all tok v [] = []"
| "replace_all tok v (c # cs) =
     (if prefix tok (c # cs) then v @ replace_all tok v (drop (length tok - 1) cs)
      else c # replace_all tok v cs)"

lemma replace_all_none:
  assumes "tok \<noteq> []"
  shows "(\<And>i. i \<le> length s \<Longrightarrow> \<not> prefix tok (drop i s)) \<Longrightarrow> replace_all tok v s = s"
proof (induction s)
  case (Cons c cs)
  have "\<not> prefix tok (c # cs)" using Cons.prems [of 0] by simp
  moreover have "replace_all tok v cs = cs"
    using Cons.prems by (intro Cons.IH) (metis Suc_le_mono drop_Suc_Cons length_Cons)
  ultimately show ?case by simp
qed simp

lemma replace_all_first:
  assumes "tok \<noteq> []"
  shows "\<lbrakk>\<And>i. i < k \<Longrightarrow> \<not> prefix tok (drop i s); prefix tok (drop k s)\<rbrakk> \<Longrightarrow>
    replace_all tok v s = take k s @ v @ replace_all tok v (drop (k + length tok) s)"
proof (induction k arbitrary: s)
  case 0
  obtain c cs where s: "s = c # cs" using 0 assms by (cases s) auto
  have "drop (length tok - 1) cs = drop (length tok) (c # cs)"
    using assms by (cases tok) simp_all
  then show ?case using 0 s by simp
next
  case (Suc k)
  obtain c cs where s: "s = c # cs" using Suc.prems(2) assms by (cases s) auto
  have "\<not> prefix tok (c # cs)" using Suc.prems(1) [of 0] s by simp
  moreover have "replace_all tok v cs = take k cs @ v @ replace_all tok v (drop (k + length tok) cs)"
    using Suc.prems s by (intro Suc.IH) (metis Suc_mono drop_Suc_Cons, simp)
  ultimately show ?case using s by simp
qed

lemma substitute_from_reference:
  "pos \<le> length s \<Longrightarrow>
   substitute_from key v s pos = take pos s @ replace_all (param_token key) v (drop pos s)"
proof (induction key v s pos rule: substitute_from.induct)
  case (1 key v s pos)
  let ?tok = "param_token key"
  have tok: "?tok \<noteq> []" by (simp add: param_token_def)
  show ?case
  proof (cases "find_from ?tok s pos")
    case None
    have "\<not> prefix ?tok (drop i (drop pos s))" if "i \<le> length (drop pos s)" for i
    proof -
      have "i + pos \<in> set [pos ..< Suc (length s)]" using that 1(2) by auto
      then have "\<not> prefix ?tok (drop (i + pos) s)"
        using None unfolding find_from_def find_None_iff by blast
      then show ?thesis by simp
    qed
    then have "replace_all ?tok v (drop pos s) = drop pos s" by (rule replace_all_none [OF tok])
    then show ?thesis using None by (simp add: substitute_from.simps [of key v s pos])
  next
    case (Some p)
    note f = find_from_SomeD [OF Some]
    let ?s = "take p s @ v @ drop (p + length ?tok) s"
    have "replace_all ?tok v (drop pos s) =
        take (p - pos) (drop pos s) @ v @ replace_all ?tok v (drop (p - pos + length ?tok) (drop pos s))"
      using f by (intro replace_all_first [OF tok]) auto
    moreover have "take pos s @ take (p - pos) (drop pos s) = take p s"
      using f(1) by (metis le_add_diff_inverse take_add)
    moreover have "drop (p - pos + length ?tok) (drop pos s) = drop (p + length ?tok) s"
      using f(1) by (simp add: add.commute add.left_commute)
    ultimately have ref: "take pos s @ replace_all ?tok v (drop pos s) =
        take p s @ v @ replace_all ?tok v (drop (p + length ?tok) s)"
      by (metis append.assoc)
    have "substitute_from key v ?s (p + length v) =
        take (p + length v) ?s @ replace_all ?tok v (drop (p + length v) ?s)"
      using f(2) by (intro 1(1) [OF Some]) simp
    moreover have "take (p + length v) ?s = take p s @ v" "drop (p + length v) ?s = drop (p + length ?tok) s"
      using f(2) by simp_all
    ultimately show ?thesis
      using Some ref by (simp add: substitute_from.simps [of key v s pos])
  qed
qed

lemma substitute_reference: "substitute_from key v s 0 = replace_all (param_token key) v s"
  using substitute_from_reference [of 0 s key v] by simp

end
