(* ===== verification/OverlayProps.thy ===== *)
theory OverlayProps
  imports Overlay
begin

text \<open>
  What the overlay guarantees: placeholder substitution against a reference, the scene
  that belongs to a history of the controller, push-on-change, and the style defaults of the layout mapper.
\<close>

section \<open>Scene\<close>

lemma build_scene_elements:
  "rsc_elements (fst (build_scene F now s)) =
     sort_key (\<lambda>e. unat (or_z (re_bounds e)))
       (map (render_element_of F (os_data s))
         (filter oe_visible
           (ol_elements (os_layout s) @
            concat (map ab_elements (filter (\<lambda>b. now < ab_expires_at_ms b) (os_banners s))))))"
  by (simp add: build_scene_def expire_banners_def Let_def not_le)

section \<open>Signature\<close>

text \<open>Another font for every element.\<close>

definition refont ::
  "string \<Rightarrow> fl \<Rightarrow> text_align \<Rightarrow> font_weight \<Rightarrow> overlay_element \<Rightarrow> overlay_element" where
  "refont family sz align weight e =
     e\<lparr>oe_style := (oe_style e)\<lparr>oy_font_family := family, oy_font_size := sz,
                                 oy_text_align := align, oy_font_weight := weight\<rparr>\<rparr>"

lemma insort_key_map_commute:
  "(\<And>x. f (g x) = f x) \<Longrightarrow> insort_key f (g x) (map g xs) = map g (insort_key f x xs)"
  by (induction xs) auto

lemma sort_key_map_commute:
  "(\<And>x. f (g x) = f x) \<Longrightarrow> sort_key f (map g xs) = map g (sort_key f xs)"
  by (induction xs) (simp_all add: insort_key_map_commute)

lemma elements_signature_cong:
  "(\<And>e. e \<in> set es \<Longrightarrow> element_signature F (g e) = element_signature F e) \<Longrightarrow>
   elements_signature F (map g es) = elements_signature F es"
  by (induction es) (auto split: option.splits)

definition refont_render ::
  "string \<Rightarrow> fl \<Rightarrow> text_align \<Rightarrow> font_weight \<Rightarrow> render_element \<Rightarrow> render_element" where
  "refont_render family sz align weight e =
     e\<lparr>re_style := (re_style e)\<lparr>oy_font_family := family, oy_font_size := sz,
                                 oy_text_align := align, oy_font_weight := weight\<rparr>\<rparr>"

lemma refont_render_of:
  "render_element_of F d (refont a b c w e) = refont_render a b c w (render_element_of F d e)"
  by (simp add: render_element_of_def refont_def refont_render_def resolve_text_def
      split: overlay_binding.split)

definition refont_layout ::
  "string \<Rightarrow> fl \<Rightarrow> text_align \<Rightarrow> font_weight \<Rightarrow> overlay_layout \<Rightarrow> overlay_layout" where
  "refont_layout family sz align weight l =
     l\<lparr>ol_elements := map (refont family sz align weight) (ol_elements l)\<rparr>"

lemma scene_signature_refont:
  "scene_signature F (fst (build_scene F t' (set_layout (refont_layout a b c w l) s'))) =
   scene_signature F (fst (build_scene F t (set_layout l s)))"
  if "os_data s' = os_data s"
proof -
  let ?k = "\<lambda>e. unat (or_z (re_bounds e))"
  let ?r = "refont_render a b c w"
  have vis: "filter oe_visible (map (refont a b c w) es) = map (refont a b c w) (filter oe_visible es)"
    for es by (induction es) (simp_all add: refont_def)
  have sort: "sort_key ?k (map (render_element_of F d) (map (refont a b c w) es)) =
      map ?r (sort_key ?k (map (render_element_of F d) es))" for d es
    using sort_key_map_commute [of ?k ?r "map (render_element_of F d) es"]
    by (simp add: comp_def refont_render_of refont_render_def)
  have sig: "elements_signature F (map ?r es) = elements_signature F es" for es
    by (rule elements_signature_cong)
       (simp add: element_signature_def refont_render_def split: option.split)
  have es: "rsc_elements (fst (build_scene F t' (set_layout (refont_layout a b c w l) s'))) =
      map ?r (rsc_elements (fst (build_scene F t (set_layout l s))))"
    unfolding build_scene_elements
    by (simp add: set_layout_def refont_layout_def vis sort that del: map_map)
  have canvas: "rsc_canvas_width (fst (build_scene F t (set_layout l s))) = ol_canvas_width l"
    "rsc_canvas_height (fst (build_scene F t (set_layout l s))) = ol_canvas_height l" for t l s
    by (simp_all add: build_scene_def expire_banners_def set_layout_def Let_def)
  have same: "ol_canvas_width (refont_layout a b c w l) = ol_canvas_width l"
    "ol_canvas_height (refont_layout a b c w l) = ol_canvas_height l"
    by (simp_all add: refont_layout_def)
  show ?thesis unfolding scene_signature_def es sig canvas same ..
qed

section \<open>Controller histories\<close>

datatype overlay_op =
    SetLayoutOp overlay_layout
  | SetDataOp binding_data
  | BannerOp string "(string \<times> string) list" u32 u64
  | RefreshOp u64

fun overlay_step ::
  "fmt_lib \<Rightarrow> renderer \<Rightarrow> overlay_op \<Rightarrow> overlay_controller \<Rightarrow>
   overlay_controller option" where
  "overlay_step F render (SetLayoutOp l) c = Some (controller_set_layout l c)"
| "overlay_step F render (SetDataOp d) c = Some (controller_set_binding_data d c)"
| "overlay_step F render (BannerOp i ps dur now) c = Some (snd (controller_activate_banner i ps dur now c))"
| "overlay_step F render (RefreshOp now) c = map_option snd (controller_refresh F render now c)"

fun overlay_run ::
  "fmt_lib \<Rightarrow> renderer \<Rightarrow> overlay_op list \<Rightarrow> overlay_controller \<Rightarrow>
   overlay_controller option" where
  "overlay_run F render [] c = Some c"
| "overlay_run F render (op # ops) c =
     (case overlay_step F render op c of None \<Rightarrow> None | Some c1 \<Rightarrow> overlay_run F render ops c1)"

definition sink_shows ::
  "fmt_lib \<Rightarrow> renderer \<Rightarrow> string \<Rightarrow> overlay_controller \<Rightarrow> bool" where
  "sink_shows F render sig c \<longleftrightarrow>
     (\<exists>sc img. scene_signature F sc = Some sig \<and> oc_sink c = Some img \<and>
        render sc (osz_width (oc_out_size c)) (osz_height (oc_out_size c)) = Some img)"

definition controller_inv ::
  "fmt_lib \<Rightarrow> renderer \<Rightarrow> overlay_controller \<Rightarrow> bool" where
  "controller_inv F render c \<longleftrightarrow>
     (if oc_pushed_once c then sink_shows F render (oc_last_signature c) c else oc_sink c = None)"

lemma controller_refresh_inv:
  assumes "controller_inv F render c" "controller_refresh F render now c = Some (b, c1)"
  shows "controller_inv F render c1 \<and> oc_pushed_once c1 \<and>
    scene_signature F (fst (build_scene F now (oc_scene c))) = Some (oc_last_signature c1)"
proof -
  obtain sc s where B: "build_scene F now (oc_scene c) = (sc, s)" by fastforce
  obtain sig where S: "scene_signature F sc = Some sig"
    using assms(2) B by (auto simp: controller_refresh_def Let_def split: option.splits)
  show ?thesis
  proof (cases "oc_pushed_once c \<and> sig = oc_last_signature c")
    case True
    then show ?thesis
      using assms B S by (auto simp: controller_refresh_def Let_def controller_inv_def sink_shows_def)
  next
    case False
    obtain img where "render sc (osz_width (oc_out_size c)) (osz_height (oc_out_size c)) = Some img"
      "c1 = c\<lparr>oc_scene := s, oc_last_signature := sig, oc_pushed_once := True, oc_sink := Some img,
        oc_push_count := oc_push_count c + 1\<rparr>"
      using assms(2) B S False
      by (auto simp: controller_refresh_def Let_def caching_push_frame_def split: if_splits option.splits)
    then show ?thesis using B S by (auto simp: controller_inv_def sink_shows_def)
  qed
qed

lemma overlay_step_inv:
  "\<lbrakk>controller_inv F render c; overlay_step F render op c = Some c1\<rbrakk> \<Longrightarrow> controller_inv F render c1"
proof (cases op)
  case (RefreshOp now)
  then show "\<lbrakk>controller_inv F render c; overlay_step F render op c = Some c1\<rbrakk> \<Longrightarrow> ?thesis"
    using controller_refresh_inv [of F render c now] by auto
qed (auto simp: controller_inv_def sink_shows_def controller_set_layout_def
      controller_set_binding_data_def controller_activate_banner_def split: prod.splits)

lemma overlay_run_inv:
  "\<lbrakk>controller_inv F render c; overlay_run F render ops c = Some c1\<rbrakk> \<Longrightarrow> controller_inv F render c1"
  by (induction ops arbitrary: c) (auto split: option.splits dest: overlay_step_inv)

section \<open>The scene of a history\<close>

text \<open>The history read from outside: the layout and the data pushed last, and the banners raised.\<close>

fun last_layout :: "overlay_op list \<Rightarrow> overlay_layout option" where
  "last_layout [] = None"
| "last_layout (op # ops) =
     (case last_layout ops of
        Some l \<Rightarrow> Some l
      | None \<Rightarrow> (case op of SetLayoutOp l \<Rightarrow> Some l | _ \<Rightarrow> None))"

definition last_data :: "overlay_op list \<Rightarrow> binding_data" where
  "last_data ops =
     fold (\<lambda>op d. case op of SetDataOp d' \<Rightarrow> d' | _ \<Rightarrow> d) ops binding_data_default"

definition banner_raised :: "overlay_op list \<Rightarrow> nat \<Rightarrow> active_banner option" where
  "banner_raised ops k =
     (case (ops ! k, last_layout (take k ops)) of
        (BannerOp i params override now, Some l) \<Rightarrow>
          map_option (\<lambda>t.
            \<lparr>ab_expires_at_ms = now + (if override = 0 then ucast (ot_duration_ms t) else ucast override * 1000),
             ab_elements =
               map (\<lambda>e. e\<lparr>oe_visible := True,
                 oe_style := (oe_style e)\<lparr>oy_static_text := substitute_params (oy_static_text (oe_style e)) params\<rparr>\<rparr>)
                 (ot_elements t)\<rparr>)
            (List.find (\<lambda>t. ot_event_type t = i) (ol_templates l))
      | _ \<Rightarrow> None)"

definition still_up :: "active_banner \<Rightarrow> overlay_op list \<Rightarrow> bool" where
  "still_up b later \<longleftrightarrow>
     list_all (\<lambda>op. case op of SetLayoutOp l \<Rightarrow> False | RefreshOp t \<Rightarrow> t < ab_expires_at_ms b | _ \<Rightarrow> True) later"

definition banners_up :: "overlay_op list \<Rightarrow> active_banner list" where
  "banners_up ops =
     concat (map (\<lambda>k. case banner_raised ops k of
                        None \<Rightarrow> []
                      | Some b \<Rightarrow> if still_up b (drop (Suc k) ops) then [b] else []) [0..<length ops])"

lemma last_layout_snoc:
  "last_layout (ops @ [op]) = (case op of SetLayoutOp l \<Rightarrow> Some l | _ \<Rightarrow> last_layout ops)"
  by (induction ops) (auto split: option.splits overlay_op.splits)

lemma banners_up_snoc:
  "banners_up (ops @ [op]) =
     filter (\<lambda>b. still_up b [op]) (banners_up ops) @
     (case banner_raised (ops @ [op]) (length ops) of None \<Rightarrow> [] | Some b \<Rightarrow> [b])"
proof -
  let ?g = "\<lambda>ops k. case banner_raised ops k of
      None \<Rightarrow> [] | Some b \<Rightarrow> if still_up b (drop (Suc k) ops) then [b] else []"
  have "?g (ops @ [op]) k = filter (\<lambda>b. still_up b [op]) (?g ops k)" if "k < length ops" for k
    using that by (auto simp: banner_raised_def nth_append still_up_def split: option.splits)
  then have old: "map (?g (ops @ [op])) [0..<length ops] =
      map (\<lambda>k. filter (\<lambda>b. still_up b [op]) (?g ops k)) [0..<length ops]"
    by (intro map_cong refl) auto
  have "banners_up (ops @ [op]) =
      concat (map (?g (ops @ [op])) [0..<length ops]) @ ?g (ops @ [op]) (length ops)"
    by (simp add: banners_up_def)
  moreover have "?g (ops @ [op]) (length ops) =
      (case banner_raised (ops @ [op]) (length ops) of None \<Rightarrow> [] | Some b \<Rightarrow> [b])"
    by (simp add: still_up_def split: option.split)
  moreover have "filter (\<lambda>b. still_up b [op]) (banners_up ops) =
      concat (map (\<lambda>k. filter (\<lambda>b. still_up b [op]) (?g ops k)) [0..<length ops])"
    by (simp only: banners_up_def filter_concat map_map comp_def)
  ultimately show ?thesis by (simp only: old)
qed

lemma overlay_run_snoc:
  "overlay_run F render (ops @ [op]) c =
     (case overlay_run F render ops c of None \<Rightarrow> None | Some c1 \<Rightarrow> overlay_step F render op c1)"
  by (induction ops arbitrary: c) (simp_all split: option.split)

lemma refresh_scene:
  "controller_refresh F render now c = Some (b, c1) \<Longrightarrow> oc_scene c1 = expire_banners now (oc_scene c)"
  by (auto simp: controller_refresh_def build_scene_def Let_def split: option.splits if_splits)

lemma overlay_run_scene:
  assumes "overlay_run F render ops (overlay_controller_new sz) = Some c"
  shows "os_layout (oc_scene c) = (case last_layout ops of None \<Rightarrow> overlay_layout_default | Some l \<Rightarrow> l)"
    "os_has_layout (oc_scene c) \<longleftrightarrow> last_layout ops \<noteq> None" "os_data (oc_scene c) = last_data ops"
    "os_banners (oc_scene c) = banners_up ops"
proof -
  have "os_layout (oc_scene c) = (case last_layout ops of None \<Rightarrow> overlay_layout_default | Some l \<Rightarrow> l) \<and>
    (os_has_layout (oc_scene c) \<longleftrightarrow> last_layout ops \<noteq> None) \<and> os_data (oc_scene c) = last_data ops \<and>
    os_banners (oc_scene c) = banners_up ops"
    using assms
  proof (induction ops arbitrary: c rule: rev_induct)
    case Nil
    then show ?case by (auto simp: overlay_controller_new_def overlay_scene_new_def banners_up_def last_data_def)
  next
    case (snoc op ops)
    then obtain c0 where c0: "overlay_run F render ops (overlay_controller_new sz) = Some c0"
      "overlay_step F render op c0 = Some c" by (auto simp: overlay_run_snoc split: option.splits)
    show ?case
    proof (cases op)
      case (BannerOp i params override now)
      then show ?thesis
        using snoc.IH [OF c0(1)] c0(2)
        by (auto simp: last_data_def last_layout_snoc banners_up_snoc still_up_def banner_raised_def nth_append
          controller_activate_banner_def activate_banner_def word_gt_0 Let_def split: option.splits)
    next
      case (RefreshOp now)
      then show ?thesis
        using snoc.IH [OF c0(1)] c0(2)
        by (auto simp: last_data_def last_layout_snoc banners_up_snoc still_up_def banner_raised_def nth_append not_le
          expire_banners_def dest!: refresh_scene)
    qed (use snoc.IH [OF c0(1)] c0(2) in \<open>auto simp: last_data_def last_layout_snoc banners_up_snoc still_up_def
          banner_raised_def nth_append controller_set_layout_def set_layout_def controller_set_binding_data_def
          set_binding_data_def\<close>)
  qed
  then show "os_layout (oc_scene c) = (case last_layout ops of None \<Rightarrow> overlay_layout_default | Some l \<Rightarrow> l)"
    "os_has_layout (oc_scene c) \<longleftrightarrow> last_layout ops \<noteq> None" "os_data (oc_scene c) = last_data ops"
    "os_banners (oc_scene c) = banners_up ops" by simp_all
qed

section \<open>Properties\<close>

text \<open>a placeholder of a banner text is replaced at every occurrence from left to right,
  inserted text is not scanned again, and the loop always ends.\<close>

theorem substitute_params_spec:
  "substitute_params s params =
     fold (\<lambda>(key, v) t. replace_all (''{{'' @ key @ ''}}'') v t) params s"
proof -
  have "(\<lambda>(key, v) t. substitute_from key v t 0) =
      (\<lambda>(key, v) t. replace_all (''{{'' @ key @ ''}}'') v t)"
    by (auto simp: substitute_reference param_token_def fun_eq_iff)
  then show ?thesis by (simp add: substitute_params_def)
qed

text \<open>C25: What the overlay shows after any history.  The scene built at time now consists of the
  visible elements of the layout pushed last and of the banners that are up, with the texts
  resolved from the data pushed last, ordered by z.  A banner is up when its activation found a
  template in the layout of that moment, no layout was pushed since, and now and the time of every
  Refresh since are before its expiry, its activation plus the override in seconds or else the
  template's duration; so a banner that one Refresh found expired never comes back, not even when
  the clock is set back, and a new layout takes all banners down.\<close>

theorem scene_of_history:
  assumes "overlay_run F render ops (overlay_controller_new sz) = Some c"
  shows "rsc_elements (fst (build_scene F now (oc_scene c))) =
    sort_key (\<lambda>e. unat (or_z (re_bounds e)))
      (map (render_element_of F (last_data ops))
        (filter oe_visible
          (ol_elements (case last_layout ops of None \<Rightarrow> overlay_layout_default | Some l \<Rightarrow> l) @
           concat (map ab_elements (banners_up (ops @ [RefreshOp now]))))))"
proof -
  note scene = overlay_run_scene [OF assms]
  show ?thesis
    by (simp add: build_scene_elements scene banners_up_snoc still_up_def banner_raised_def nth_append)
qed

text \<open>C26: push on change: after any history, once Refresh has returned the sink shows an image
  rendered from a scene with the signature of the current scene, whether or not this Refresh
  pushed.\<close>

theorem refresh_shows_current:
  assumes "overlay_run F render ops (overlay_controller_new sz) = Some c"
    and "controller_refresh F render now c = Some (b, c1)"
  shows "\<exists>sc img. scene_signature F sc = scene_signature F (fst (build_scene F now (oc_scene c))) \<and>
    render sc (osz_width (oc_out_size c1)) (osz_height (oc_out_size c1)) = Some img \<and>
    oc_sink c1 = Some img"
proof -
  have "controller_inv F render (overlay_controller_new sz)"
    by (simp add: controller_inv_def overlay_controller_new_def)
  then have "controller_inv F render c" using assms(1) by (rule overlay_run_inv)
  note inv = controller_refresh_inv [OF this assms(2)]
  then obtain sc img where "scene_signature F sc = Some (oc_last_signature c1)" "oc_sink c1 = Some img"
    "render sc (osz_width (oc_out_size c1)) (osz_height (oc_out_size c1)) = Some img"
    by (auto simp: controller_inv_def sink_shows_def)
  with inv show ?thesis by metis
qed

definition plain_fmt :: fmt_lib where
  "plain_fmt = \<lparr>fm_int = (\<lambda>i. show_nat (nat i)), fm_int02 = (\<lambda>i. show_nat (nat i)), fm_float = (\<lambda>_. ''f'')\<rparr>"

definition blank_render :: renderer where
  "blank_render sc w h = Some \<lparr>ri_width = w, ri_height = h, ri_stride = 4 * w, ri_pixels = []\<rparr>"

text \<open>A goal banner of two seconds: shown until its end, and after a Refresh at its end gone for good,
  even with the clock set back.\<close>

definition goal_element :: overlay_element where
  "goal_element =
     \<lparr>oe_id = ''g'', oe_shape = ShapeText,
      oe_bounds = \<lparr>or_x1 = Fin 0, or_y1 = Fin 0, or_x2 = Fin 1, or_y2 = Fin 1, or_z = 1\<rparr>,
      oe_style = \<lparr>oy_fill_color = [], oy_text_color = [], oy_opacity = Fin 1, oy_corner_radius = Fin 0,
        oy_font_family = [], oy_font_size = Fin 1, oy_text_align = AlignLeft,
        oy_font_weight = WeightBold, oy_static_text = ''Goal {{p}}''\<rparr>,
      oe_binding = BindStatic, oe_visible = False\<rparr>"

definition goal_ops :: "overlay_op list" where
  "goal_ops =
     [SetLayoutOp (overlay_layout_default
        \<lparr>ol_templates := [\<lparr>ot_event_type = ''goal'', ot_duration_ms = 5000, ot_elements = [goal_element]\<rparr>]\<rparr>),
      BannerOp ''goal'' [(''p'', ''Ada'')] 2 100, RefreshOp 500]"

lemma goal_runs:
  "overlay_run plain_fmt blank_render goal_ops (overlay_controller_new \<lparr>osz_width = 2, osz_height = 1\<rparr>) \<noteq> None"
  "overlay_run plain_fmt blank_render (goal_ops @ [RefreshOp 2100, RefreshOp 50])
     (overlay_controller_new \<lparr>osz_width = 2, osz_height = 1\<rparr>) \<noteq> None"
  "map (map oe_visible \<circ> ab_elements) (banners_up (goal_ops @ [RefreshOp 2099])) = [[True]]"
  "banners_up ((goal_ops @ [RefreshOp 2100, RefreshOp 50]) @ [RefreshOp 60]) = []"
  "last_layout goal_ops \<noteq> None" "map_option ol_elements (last_layout goal_ops) = Some []"
  "map_option ol_elements (last_layout (goal_ops @ [RefreshOp 2100, RefreshOp 50])) = Some []"
  by code_simp+

theorem scene_of_history_witness:
  "\<exists>c c'. overlay_run plain_fmt blank_render goal_ops
        (overlay_controller_new \<lparr>osz_width = 2, osz_height = 1\<rparr>) = Some c \<and>
     map re_text (rsc_elements (fst (build_scene plain_fmt 2099 (oc_scene c)))) = [''Goal Ada''] \<and>
     overlay_run plain_fmt blank_render (goal_ops @ [RefreshOp 2100, RefreshOp 50])
        (overlay_controller_new \<lparr>osz_width = 2, osz_height = 1\<rparr>) = Some c' \<and>
     rsc_elements (fst (build_scene plain_fmt 60 (oc_scene c'))) = []"
proof -
  obtain c c' where c: "overlay_run plain_fmt blank_render goal_ops
      (overlay_controller_new \<lparr>osz_width = 2, osz_height = 1\<rparr>) = Some c"
    "overlay_run plain_fmt blank_render (goal_ops @ [RefreshOp 2100, RefreshOp 50])
      (overlay_controller_new \<lparr>osz_width = 2, osz_height = 1\<rparr>) = Some c'"
    using goal_runs(1,2) by auto
  have "rsc_elements (fst (build_scene plain_fmt 60 (oc_scene c'))) = []"
    unfolding scene_of_history [OF c(2)] using goal_runs(4,7) by (auto split: option.splits)
  moreover have "map re_text (rsc_elements (fst (build_scene plain_fmt 2099 (oc_scene c)))) = [''Goal Ada'']"
    unfolding scene_of_history [OF c(1)] by code_simp
  ultimately show ?thesis
    by (intro exI [of _ c] exI [of _ c'] conjI) (use c in simp_all)
qed

theorem refresh_shows_current_witness:
  "\<exists>b c1. controller_refresh plain_fmt blank_render 5
        (overlay_controller_new \<lparr>osz_width = 2, osz_height = 1\<rparr>) = Some (b, c1) \<and>
     (\<exists>sc img. scene_signature plain_fmt sc = scene_signature plain_fmt
          (fst (build_scene plain_fmt 5
             (oc_scene (overlay_controller_new \<lparr>osz_width = 2, osz_height = 1\<rparr>)))) \<and>
        blank_render sc (osz_width (oc_out_size c1)) (osz_height (oc_out_size c1)) = Some img \<and>
        oc_sink c1 = Some img)"
proof -
  let ?c = "overlay_controller_new \<lparr>osz_width = 2, osz_height = 1\<rparr>"
  have run: "overlay_run plain_fmt blank_render [] ?c = Some ?c" by simp
  have "\<exists>b c1. controller_refresh plain_fmt blank_render 5 ?c = Some (b, c1)"
    by (simp add: controller_refresh_def overlay_controller_new_def build_scene_def Let_def
        overlay_scene_new_def overlay_layout_default_def expire_banners_def scene_signature_def
        blank_render_def)
      blast
  then obtain b c1 where R: "controller_refresh plain_fmt blank_render 5 ?c = Some (b, c1)" by blast
  from refresh_shows_current [OF run R] R show ?thesis by blast
qed

text \<open>a layout pushed again with other fonts is not drawn: the signature does not cover font
  family, size, alignment and weight, so the Refresh after it reports no change and the sink
  keeps the image with the old fonts.\<close>

theorem refont_not_redrawn:
  "case controller_refresh F render now (controller_set_layout l c) of
      None \<Rightarrow> True
    | Some (_, c1) \<Rightarrow>
        (case controller_refresh F render later
                (controller_set_layout (refont_layout family sz align weight l) c1) of
           None \<Rightarrow> False
         | Some (pushed, c2) \<Rightarrow> \<not> pushed \<and> oc_sink c2 = oc_sink c1)"
proof (cases "controller_refresh F render now (controller_set_layout l c)")
  case (Some r)
  obtain b c1 where r: "r = (b, c1)" by fastforce
  obtain sc s where B: "build_scene F now (set_layout l (oc_scene c)) = (sc, s)" by fastforce
  obtain sig where S: "scene_signature F sc = Some sig"
    using Some B by (auto simp: controller_refresh_def controller_set_layout_def Let_def split: option.splits)
  have c1: "oc_pushed_once c1" "oc_last_signature c1 = sig" "oc_scene c1 = s"
    using Some r B S
    by (auto simp: controller_refresh_def controller_set_layout_def Let_def split: if_splits option.splits)
  have "s = expire_banners now (set_layout l (oc_scene c))"
    using B by (simp add: build_scene_def Let_def)
  then have "os_data s = os_data (oc_scene c)" by (simp add: expire_banners_def set_layout_def)
  from scene_signature_refont [OF this, of F later family sz align weight l now] B S c1
  have "scene_signature F (fst (build_scene F later
      (set_layout (refont_layout family sz align weight l) s))) = Some sig" by simp
  then show ?thesis
    using Some r c1
    by (auto simp: controller_refresh_def controller_set_layout_def Let_def split: prod.splits option.splits)
qed simp

text \<open>the mapper's defaults and clamp: an absent opacity is opaque, every number ends up between
  0 and 1, and NaN is passed through unchanged (std::clamp does not stop it); an absent
  visibility means visible.\<close>

theorem map_style_opacity:
  "(case oy_opacity (map_style s) of
      Fin q \<Rightarrow> 0 \<le> q \<and> q \<le> 1
    | NaN \<Rightarrow> ps_opacity s = Some NaN
    | _ \<Rightarrow> False) \<and>
   (ps_opacity s = Some NaN \<longleftrightarrow> oy_opacity (map_style s) = NaN) \<and>
   oy_opacity (map_style (s\<lparr>ps_opacity := None\<rparr>)) = Fin 1 \<and>
   oe_visible (map_element (e\<lparr>pe_visible := None\<rparr>))"
proof -
  have "\<exists>v. ps_opacity s = None \<or> ps_opacity s = Some v" by (cases "ps_opacity s") auto
  then show ?thesis
    by (auto simp: map_style_def map_element_def Let_def fl_clamp_def split: option.split fl.split
        elim!: fl_less.elims)
qed

end
