(* ===== verification/Wifi.thy ===== *)
theory Wifi
  imports Prelude
begin

text \<open>
  WiFi Direct: the ports \<^verbatim>\<open>app/control/ports/wifi-manager.hpp\<close> and
  \<^verbatim>\<open>domain/network/models/wifi-direct-group.hpp\<close>, the event parser
  \<^verbatim>\<open>adapters/control/wifi/wpa_supplicant/wpa-p2p-parse.hpp\<close>, the manager that talks to
  wpa_supplicant (\<^verbatim>\<open>wpa-wifi-manager.cpp\<close>) and the DHCP server it goes with
  (\<^verbatim>\<open>dnsmasq-dhcp-server.cpp\<close>).

  The operating system and the daemon are an argument: whether the socket calls succeed and
  which datagrams the daemon queues in answer to the commands it has received so far.  A
  datagram None is a receive that fails (a timeout); so is receiving from an empty queue.
\<close>

section \<open>Models\<close>

datatype wifi_mode = WifiOff | WifiP2pGroupOwner

record wifi_state =
  ws_mode :: wifi_mode
  ws_connected :: bool
  ws_ssid :: string
  ws_ip_address :: string

definition wifi_state_default :: wifi_state where
  "wifi_state_default =
     \<lparr>ws_mode = WifiOff, ws_connected = False, ws_ssid = [], ws_ip_address = []\<rparr>"

record wifi_direct_group =
  wg_ssid :: string
  wg_psk :: string
  wg_group_interface :: string
  wg_group_owner_ip :: string
  wg_role :: string

section \<open>Parsing the event\<close>

abbreviation quote_char :: char where "quote_char \<equiv> CHR 0x22"

definition parse_quoted_field :: "string \<Rightarrow> string \<Rightarrow> string option" where
  "parse_quoted_field s key =
     (let needle = key @ ''='' @ [quote_char]
      in case find_from needle s 0 of
           None \<Rightarrow> None
         | Some pos \<Rightarrow>
             let start = pos + length needle
             in case find_from [quote_char] s start of
                  None \<Rightarrow> None
                | Some stop \<Rightarrow> Some (take (stop - start) (drop start s)))"

definition kStartedTag :: string where "kStartedTag = ''P2P-GROUP-STARTED''"

definition parse_group_interface :: "string \<Rightarrow> string option" where
  "parse_group_interface event =
     (case find_from kStartedTag event 0 of
        None \<Rightarrow> None
      | Some pos \<Rightarrow>
          let rest = dropWhile (\<lambda>c. c = CHR '' '') (drop (pos + length kStartedTag) event);
              token = takeWhile (\<lambda>c. c \<noteq> CHR '' '') rest
          in if token = [] then None else Some token)"

record parsed_group =
  pg_interface :: string
  pg_ssid :: string
  pg_passphrase :: string

definition parse_group_started :: "string \<Rightarrow> parsed_group option" where
  "parse_group_started event =
     (case parse_group_interface event of
        None \<Rightarrow> None
      | Some iface \<Rightarrow>
          (case parse_quoted_field event ''ssid'' of
             None \<Rightarrow> None
           | Some ssid \<Rightarrow>
               (case parse_quoted_field event ''passphrase'' of
                  None \<Rightarrow> None
                | Some pass \<Rightarrow>
                    Some \<lparr>pg_interface = iface, pg_ssid = ssid, pg_passphrase = pass\<rparr>)))"

section \<open>WpaWifiManager\<close>

record wpa_os =
  wo_socket :: bool
  wo_bind :: bool
  wo_connect :: bool
  wo_local_path :: string
  wo_send :: "string \<Rightarrow> bool"
  wo_answers :: "string list \<Rightarrow> string option list"

text \<open>\<^verbatim>\<open>wm_sent\<close> is the log of the commands the daemon received, the latest first.\<close>

record wpa_manager =
  wm_sock :: bool
  wm_local_path :: string
  wm_state :: wifi_state
  wm_group_interface :: string
  wm_inbox :: "string option list"
  wm_sent :: "string list"

definition wpa_new :: wpa_manager where
  "wpa_new =
     \<lparr>wm_sock = False, wm_local_path = [], wm_state = wifi_state_default,
      wm_group_interface = [], wm_inbox = [], wm_sent = []\<rparr>"

definition kRecvBufSize :: nat where "kRecvBufSize = 4096"
definition kGoIpAddress :: string where "kGoIpAddress = ''192.168.49.1''"
definition kGoRole :: string where "kGoRole = ''GO''"
definition kMaxEventReads :: nat where "kMaxEventReads = 20"

definition close_ctrl_socket :: "wpa_manager \<Rightarrow> wpa_manager" where
  "close_ctrl_socket w = w\<lparr>wm_sock := False, wm_local_path := [], wm_inbox := []\<rparr>"

definition open_ctrl_socket :: "wpa_os \<Rightarrow> wpa_manager \<Rightarrow> bool \<times> wpa_manager" where
  "open_ctrl_socket os w =
     (if wm_sock w then (True, w)
      else if \<not> wo_socket os then (False, w)
      else
        let w1 = w\<lparr>wm_sock := True, wm_local_path := wo_local_path os, wm_inbox := []\<rparr>
        in if \<not> wo_bind os then (False, close_ctrl_socket w1)
           else if \<not> wo_connect os then (False, close_ctrl_socket w1)
           else (True, w1))"

text \<open>One recv into a buffer of 4096 bytes, of which the last is left free.\<close>

definition recv_datagram :: "wpa_manager \<Rightarrow> string option \<times> wpa_manager" where
  "recv_datagram w =
     (case wm_inbox w of
        [] \<Rightarrow> (None, w)
      | d # ds \<Rightarrow> (map_option (take (kRecvBufSize - 1)) d, w\<lparr>wm_inbox := ds\<rparr>))"

definition send_datagram :: "wpa_os \<Rightarrow> string \<Rightarrow> wpa_manager \<Rightarrow> wpa_manager" where
  "send_datagram os cmd w =
     w\<lparr>wm_sent := cmd # wm_sent w, wm_inbox := wm_inbox w @ wo_answers os (cmd # wm_sent w)\<rparr>"

definition send_command :: "wpa_os \<Rightarrow> string \<Rightarrow> wpa_manager \<Rightarrow> string option \<times> wpa_manager" where
  "send_command os cmd w =
     (case (if wm_sock w then (True, w) else open_ctrl_socket os w) of
        (False, w1) \<Rightarrow> (None, w1)
      | (True, w1) \<Rightarrow>
          if \<not> wo_send os cmd then (None, w1)
          else recv_datagram (send_datagram os cmd w1))"

fun read_until_loop :: "nat \<Rightarrow> string \<Rightarrow> wpa_manager \<Rightarrow> string option \<times> wpa_manager" where
  "read_until_loop 0 marker w = (None, w)"
| "read_until_loop (Suc n) marker w =
     (case recv_datagram w of
        (None, w1) \<Rightarrow> (None, w1)
      | (Some msg, w1) \<Rightarrow>
          if msg = [] then (None, w1)
          else if find_from marker msg 0 \<noteq> None then (Some msg, w1)
          else read_until_loop n marker w1)"

definition read_until :: "string \<Rightarrow> wpa_manager \<Rightarrow> string option \<times> wpa_manager" where
  "read_until marker w = read_until_loop kMaxEventReads marker w"

definition start_p2p_group_owner ::
  "wpa_os \<Rightarrow> wpa_manager \<Rightarrow> wifi_direct_group option \<times> wpa_manager" where
  "start_p2p_group_owner os w =
     (case open_ctrl_socket os w of
        (False, w1) \<Rightarrow> (None, w1)
      | (True, w1) \<Rightarrow>
          let w2 = snd (send_command os ''ATTACH'' w1)
          in case send_command os ''P2P_GROUP_ADD'' w2 of
               (None, w3) \<Rightarrow> (None, w3)
             | (Some reply, w3) \<Rightarrow>
                 if \<not> prefix ''OK'' reply then (None, w3)
                 else case read_until kStartedTag w3 of
                        (None, w4) \<Rightarrow> (None, w4)
                      | (Some event, w4) \<Rightarrow>
                          (case parse_group_started event of
                             None \<Rightarrow> (None, w4)
                           | Some g \<Rightarrow>
                               (Some \<lparr>wg_ssid = pg_ssid g, wg_psk = pg_passphrase g,
                                      wg_group_interface = pg_interface g,
                                      wg_group_owner_ip = kGoIpAddress, wg_role = kGoRole\<rparr>,
                                w4\<lparr>wm_group_interface := pg_interface g,
                                   wm_state := \<lparr>ws_mode = WifiP2pGroupOwner, ws_connected = True,
                                     ws_ssid = pg_ssid g, ws_ip_address = kGoIpAddress\<rparr>\<rparr>)))"

definition remove_command :: "wpa_manager \<Rightarrow> string" where
  "remove_command w =
     (if wm_group_interface w \<noteq> [] then ''P2P_GROUP_REMOVE '' @ wm_group_interface w
      else ''P2P_GROUP_REMOVE *'')"

definition wifi_stop :: "wpa_os \<Rightarrow> wpa_manager \<Rightarrow> wpa_manager" where
  "wifi_stop os w =
     (let w1 = (if wm_sock w then snd (send_command os (remove_command w) w) else w)
      in close_ctrl_socket (w1\<lparr>wm_group_interface := [], wm_state := wifi_state_default\<rparr>))"

definition wifi_state_of :: "wpa_manager \<Rightarrow> wifi_state" where
  "wifi_state_of w = wm_state w"

definition wpa_destroy :: "wpa_manager \<Rightarrow> wpa_manager" where
  "wpa_destroy w = close_ctrl_socket w"

section \<open>DnsmasqDhcpServer\<close>

definition kDhcpRangeStart :: string where "kDhcpRangeStart = ''192.168.49.10''"
definition kDhcpRangeEnd :: string where "kDhcpRangeEnd = ''192.168.49.50''"
definition kLeaseTime :: string where "kLeaseTime = ''1h''"

definition dnsmasq_argv :: "string \<Rightarrow> string \<Rightarrow> string list" where
  "dnsmasq_argv iface go_ip =
     [''dnsmasq'', ''--keep-in-foreground'', ''--bind-interfaces'', ''--interface='' @ iface,
      ''--except-interface=lo'',
      ''--dhcp-range='' @ kDhcpRangeStart @ '','' @ kDhcpRangeEnd @ '','' @ kLeaseTime,
      ''--dhcp-option=3,'' @ go_ip, ''--no-resolv'']"

text \<open>
  The pid held, and the children that were forked and not yet waited for, with the arguments
  each was given.  \<^verbatim>\<open>forked\<close> is what fork answers in the parent, \<^verbatim>\<open>died\<close> whether the child has
  already exited when it is polled.
\<close>

record dhcp_server =
  ds_pid :: int
  ds_children :: "(int \<times> string list) list"

definition dhcp_new :: dhcp_server where
  "dhcp_new = \<lparr>ds_pid = - 1, ds_children = []\<rparr>"

definition dhcp_start :: "int \<Rightarrow> bool \<Rightarrow> string \<Rightarrow> string \<Rightarrow> dhcp_server \<Rightarrow> bool \<times> dhcp_server" where
  "dhcp_start forked died iface go_ip d =
     (if 0 < ds_pid d then (False, d)
      else if iface = [] then (False, d)
      else if forked < 0 then (False, d)
      else if died then (False, d\<lparr>ds_pid := - 1\<rparr>)
      else (True, d\<lparr>ds_pid := forked, ds_children := (forked, dnsmasq_argv iface go_ip) # ds_children d\<rparr>))"

definition dhcp_stop :: "dhcp_server \<Rightarrow> dhcp_server" where
  "dhcp_stop d =
     (if ds_pid d \<le> 0 then d
      else d\<lparr>ds_children := filter (\<lambda>(p, _). p \<noteq> ds_pid d) (ds_children d), ds_pid := - 1\<rparr>)"

definition dhcp_destroy :: "dhcp_server \<Rightarrow> dhcp_server" where
  "dhcp_destroy d = dhcp_stop d"

section \<open>The event is read back\<close>

lemma find_from_0_Cons:
  "find_from pat (c # cs) 0 =
     (if prefix pat (c # cs) then Some 0 else map_option Suc (find_from pat cs 0))"
proof -
  have "[0 ..< Suc (length (c # cs))] = 0 # map Suc [0 ..< Suc (length cs)]"
    by (metis length_Cons map_Suc_upt upt_conv_Cons zero_less_Suc)
  moreover have "List.find P (map Suc xs) = map_option Suc (List.find (\<lambda>i. P (Suc i)) xs)" for P xs
    by (induction xs) auto
  ultimately show ?thesis by (simp add: find_from_def del: upt_Suc)
qed

lemma find_from_0_Nil: "find_from pat [] 0 = (if pat = [] then Some 0 else None)"
  by (simp add: find_from_def)

lemma find_from_shift:
  "find_from pat (x @ y) (length x) = map_option (\<lambda>k. k + length x) (find_from pat y 0)"
proof -
  have "[length x ..< Suc (length (x @ y))] = map (\<lambda>k. k + length x) [0 ..< Suc (length y)]"
    by (simp add: map_add_upt add.commute del: upt_Suc)
  moreover have "List.find P (map f xs) = map_option f (List.find (\<lambda>i. P (f i)) xs)"
    for P :: "nat \<Rightarrow> bool" and f :: "nat \<Rightarrow> nat" and xs
    by (induction xs) auto
  ultimately show ?thesis by (simp add: find_from_def del: upt_Suc)
qed

text \<open>A needle that ends in a character it and the text before do not hold.\<close>

lemma prefix_until:
  assumes "prefix (n @ [q]) (a @ q # b)" "q \<notin> set n" "q \<notin> set a"
  shows "n = a"
proof -
  obtain z where z: "a @ q # b = n @ q # z" using assms(1) by (auto simp: prefix_def)
  have "takeWhile (\<lambda>c. c \<noteq> q) (xs @ q # ys) = xs" if "q \<notin> set xs" for xs ys
    using that by (induction xs) auto
  then show ?thesis using z assms(2,3) by metis
qed

lemma find_from_found:
  assumes "q \<notin> set n" "q \<notin> set a"
  shows "find_from (n @ [q]) (a @ n @ q # b) 0 = Some (length a)"
  using assms(2)
proof (induction a)
  case Nil
  have p: "prefix (n @ [q]) (n @ q # b)" by simp
  show ?case using p by (cases "n @ q # b") (simp_all add: find_from_0_Cons)
next
  case (Cons c a)
  have "\<not> prefix (n @ [q]) ((c # a @ n) @ q # b)"
    using prefix_until [of n q "c # a @ n" b] assms(1) Cons.prems by auto
  then show ?case using Cons by (simp add: find_from_0_Cons)
qed

lemma find_from_skip:
  assumes "q \<notin> set n" "q \<notin> set a" "\<not> suffix n a"
  shows "find_from (n @ [q]) (a @ q # b) 0 =
    map_option (\<lambda>k. k + Suc (length a)) (find_from (n @ [q]) b 0)"
  using assms(2,3)
proof (induction a)
  case Nil
  then have "n \<noteq> []" by auto
  then have "\<not> prefix (n @ [q]) (q # b)" using prefix_until [of n q "[]" b] assms(1) by auto
  then show ?case by (simp add: find_from_0_Cons)
next
  case (Cons c a)
  have p: "\<not> prefix (n @ [q]) (c # (a @ q # b))"
    using prefix_until [of n q "c # a" b] assms(1) Cons.prems by auto
  have q: "q \<notin> set a" "\<not> suffix n a" using Cons.prems by (auto simp: suffix_def)
  show ?case
    unfolding append_Cons find_from_0_Cons [of _ c] if_not_P [OF p] Cons.IH [OF q]
    by (simp add: option.map_comp comp_def)
qed

lemma find_from_head:
  assumes "c \<notin> set a"
  shows "find_from (c # pat) (a @ c # pat @ b) 0 = Some (length a)"
  using assms
proof (induction a)
  case Nil
  have "prefix (c # pat) (c # pat @ b)" by simp
  then show ?case by (simp only: append_Nil list.size find_from_0_Cons if_True)
qed (auto simp: find_from_0_Cons)

lemma parse_quoted_found:
  assumes "quote_char \<notin> set key" "quote_char \<notin> set v"
    "find_from (key @ ''='' @ [quote_char]) (a @ key @ ''='' @ [quote_char] @ v @ [quote_char] @ b) 0
       = Some (length a)"
  shows "parse_quoted_field (a @ key @ ''='' @ [quote_char] @ v @ [quote_char] @ b) key = Some v"
proof -
  let ?s = "a @ key @ ''='' @ [quote_char] @ v @ [quote_char] @ b"
  let ?x = "a @ key @ ''='' @ [quote_char]"
  have "find_from [quote_char] (?x @ v @ quote_char # b) (length ?x) =
      Some (length v + length ?x)"
    using find_from_shift [of "[quote_char]" ?x "v @ quote_char # b"]
      find_from_found [of quote_char "[]" v b] assms(2) by simp
  then have "find_from [quote_char] ?s (length a + length (key @ ''='' @ [quote_char])) =
      Some (length v + length ?x)" by simp
  then show ?thesis
    unfolding parse_quoted_field_def Let_def assms(3) option.case
    by (simp only: option.case) simp
qed

text \<open>The line wpa_supplicant prints for a group it has formed.\<close>

definition started_event :: "string \<Rightarrow> string \<Rightarrow> string \<Rightarrow> string \<Rightarrow> string \<Rightarrow> string \<Rightarrow> string" where
  "started_event pre iface ssid mid pass post =
     pre @ kStartedTag @ '' '' @ iface @ '' GO ssid='' @ [quote_char] @ ssid @ [quote_char] @ '' '' @
     mid @ '' passphrase='' @ [quote_char] @ pass @ [quote_char] @ post"

lemma started_interface:
  assumes "CHR ''P'' \<notin> set pre" "iface \<noteq> []" "CHR '' '' \<notin> set iface"
  shows "parse_group_interface (started_event pre iface ssid mid pass post) = Some iface"
proof -
  let ?rest = "''GO ssid='' @ [quote_char] @ ssid @ [quote_char] @ '' '' @ mid @
    '' passphrase='' @ [quote_char] @ pass @ [quote_char] @ post"
  have e: "started_event pre iface ssid mid pass post =
      pre @ kStartedTag @ CHR '' '' # iface @ CHR '' '' # ?rest"
    by (simp add: started_event_def)
  have f: "find_from kStartedTag (started_event pre iface ssid mid pass post) 0 = Some (length pre)"
    unfolding e using find_from_head [of "CHR ''P''" pre "tl kStartedTag"] assms(1)
    by (simp add: kStartedTag_def)
  have d: "dropWhile (\<lambda>c. c = CHR '' '') (CHR '' '' # iface @ CHR '' '' # ?rest) = iface @ CHR '' '' # ?rest"
    using assms(2,3) by (cases iface) auto
  have t: "takeWhile (\<lambda>c. c \<noteq> CHR '' '') (iface @ CHR '' '' # ?rest) = iface"
    using assms(3) by (induction iface) auto
  have "drop (length pre + length kStartedTag) (started_event pre iface ssid mid pass post) =
      CHR '' '' # iface @ CHR '' '' # ?rest"
    unfolding e by simp
  then show ?thesis
    unfolding parse_group_interface_def f option.case Let_def d t using assms(2) d t by simp
qed

lemma started_ssid:
  assumes "quote_char \<notin> set pre" "quote_char \<notin> set iface" "quote_char \<notin> set ssid"
  shows "parse_quoted_field (started_event pre iface ssid mid pass post) ''ssid'' = Some ssid"
proof -
  let ?a = "pre @ kStartedTag @ '' '' @ iface @ '' GO ''"
  let ?b = "'' '' @ mid @ '' passphrase='' @ [quote_char] @ pass @ [quote_char] @ post"
  have e: "started_event pre iface ssid mid pass post =
      ?a @ ''ssid'' @ ''='' @ [quote_char] @ ssid @ [quote_char] @ ?b"
    by (simp add: started_event_def)
  have "find_from (''ssid'' @ ''='' @ [quote_char])
      (?a @ ''ssid'' @ ''='' @ [quote_char] @ ssid @ [quote_char] @ ?b) 0 = Some (length ?a)"
    using find_from_found [of quote_char "''ssid=''" ?a "ssid @ [quote_char] @ ?b"] assms(1,2)
    by (simp add: kStartedTag_def)
  from parse_quoted_found [OF _ assms(3) this] show ?thesis unfolding e by simp
qed

lemma started_passphrase:
  assumes "quote_char \<notin> set pre" "quote_char \<notin> set iface" "quote_char \<notin> set ssid"
    "\<not> suffix ''passphrase='' ssid" "quote_char \<notin> set mid" "quote_char \<notin> set pass"
  shows "parse_quoted_field (started_event pre iface ssid mid pass post) ''passphrase'' = Some pass"
proof -
  let ?n = "''passphrase=''"
  let ?a1 = "pre @ kStartedTag @ '' '' @ iface @ '' GO ssid=''"
  let ?a2 = "CHR '' '' # mid @ '' ''"
  let ?b = "pass @ quote_char # post"
  let ?a = "?a1 @ quote_char # ssid @ quote_char # ?a2"
  have e: "started_event pre iface ssid mid pass post =
      ?a @ ''passphrase'' @ ''='' @ [quote_char] @ pass @ [quote_char] @ post"
    by (simp add: started_event_def)
  have s1: "\<not> suffix ?n ?a1" by (simp add: suffix_to_prefix)
  have "find_from (?n @ [quote_char]) (?a1 @ quote_char # ssid @ quote_char # ?a2 @ ?n @ quote_char # ?b) 0
      = Some (length ?a)"
    using find_from_skip [of quote_char ?n ?a1 "ssid @ quote_char # ?a2 @ ?n @ quote_char # ?b"]
      find_from_skip [of quote_char ?n ssid "?a2 @ ?n @ quote_char # ?b"]
      find_from_found [of quote_char ?n ?a2 ?b] assms s1
    by (simp add: kStartedTag_def)
  then have "find_from (''passphrase'' @ ''='' @ [quote_char])
      (?a @ ''passphrase'' @ ''='' @ [quote_char] @ pass @ [quote_char] @ post) 0 = Some (length ?a)"
    by simp
  from parse_quoted_found [OF _ assms(6) this] show ?thesis unfolding e by simp
qed

text \<open>C36: The event wpa_supplicant prints for a group is read back exactly: interface, SSID and
  passphrase come out as they went in, whatever else the line holds, as long as the interface
  is one word, none of the three holds a quote and the SSID does not itself end in the name of
  the passphrase field.\<close>

theorem group_event_roundtrip:
  assumes "CHR ''P'' \<notin> set pre" "quote_char \<notin> set pre" "quote_char \<notin> set mid"
    "iface \<noteq> []" "CHR '' '' \<notin> set iface" "quote_char \<notin> set iface"
    "quote_char \<notin> set ssid" "\<not> suffix ''passphrase='' ssid" "quote_char \<notin> set pass"
  shows "parse_group_started (started_event pre iface ssid mid pass post) =
    Some \<lparr>pg_interface = iface, pg_ssid = ssid, pg_passphrase = pass\<rparr>"
  using assms started_interface started_ssid started_passphrase
  by (simp add: parse_group_started_def)

theorem group_event_roundtrip_witness:
  "parse_group_started (started_event ''<3>'' ''p2p-wlan0-0'' ''DIRECT-ab'' ''freq=2412'' ''swxyz123''
     '' go_dev_addr=02'') =
   Some \<lparr>pg_interface = ''p2p-wlan0-0'', pg_ssid = ''DIRECT-ab'', pg_passphrase = ''swxyz123''\<rparr>"
  by (rule group_event_roundtrip) (simp_all add: suffix_to_prefix)

section \<open>Waiting for the event\<close>

definition read_ok :: "string option \<Rightarrow> bool" where
  "read_ok d \<longleftrightarrow> (case d of None \<Rightarrow> False | Some m \<Rightarrow> m \<noteq> [])"

text \<open>What ReadUntil gets to see: the datagrams before the first failure, at most twenty.\<close>

definition seen_datagrams :: "wpa_manager \<Rightarrow> string list" where
  "seen_datagrams w =
     map (\<lambda>d. take (kRecvBufSize - 1) (the d)) (takeWhile read_ok (take kMaxEventReads (wm_inbox w)))"

lemma read_until_loop_find:
  "fst (read_until_loop n marker w) =
     List.find (\<lambda>m. find_from marker m 0 \<noteq> None)
       (map (\<lambda>d. take (kRecvBufSize - 1) (the d)) (takeWhile read_ok (take n (wm_inbox w))))"
proof (induction n arbitrary: w)
  case (Suc n)
  show ?case
  proof (cases "wm_inbox w")
    case (Cons d ds)
    show ?thesis
    proof (cases d)
      case (Some m)
      show ?thesis
      proof (cases "m = []")
        case False
        then have "take (kRecvBufSize - 1) m \<noteq> []" by (simp add: kRecvBufSize_def)
        then show ?thesis
          using Cons Some False Suc.IH by (simp add: recv_datagram_def read_ok_def)
      qed (simp add: Cons Some recv_datagram_def read_ok_def)
    qed (simp add: Cons recv_datagram_def read_ok_def)
  qed (simp add: recv_datagram_def)
qed simp

text \<open>Waiting for the group event returns the first datagram that holds the marker among
  the first twenty, and gives up at the first receive that fails, returns nothing, or when the
  twenty are used up.\<close>

theorem read_until_first:
  "fst (read_until marker w) =
     List.find (\<lambda>m. find_from marker m 0 \<noteq> None) (seen_datagrams w)"
  by (simp add: read_until_def seen_datagrams_def read_until_loop_find)

section \<open>Groups and their removal\<close>

lemma recv_datagram_frame [simp]:
  "wm_sock (snd (recv_datagram w)) = wm_sock w"
  "wm_group_interface (snd (recv_datagram w)) = wm_group_interface w"
  "wm_state (snd (recv_datagram w)) = wm_state w"
  "wm_sent (snd (recv_datagram w)) = wm_sent w"
  by (simp_all add: recv_datagram_def split: list.split)

lemma send_datagram_frame [simp]:
  "wm_sock (send_datagram os c w) = wm_sock w"
  "wm_group_interface (send_datagram os c w) = wm_group_interface w"
  "wm_state (send_datagram os c w) = wm_state w"
  "wm_sent (send_datagram os c w) = c # wm_sent w"
  by (simp_all add: send_datagram_def)

lemma open_ctrl_frame:
  assumes "open_ctrl_socket os w = (ok, w1)"
  shows "wm_sock w1 = ok" "wm_group_interface w1 = wm_group_interface w" "wm_state w1 = wm_state w"
  using assms
  by (auto simp: open_ctrl_socket_def close_ctrl_socket_def Let_def split: if_splits)

lemma send_command_frame:
  "wm_group_interface (snd (send_command os c w)) = wm_group_interface w"
  "wm_state (snd (send_command os c w)) = wm_state w"
  by (auto simp: send_command_def split: prod.split bool.split dest: open_ctrl_frame)

lemma send_command_open:
  assumes "wm_sock w"
  shows "wm_sock (snd (send_command os c w))"
    "wm_sent (snd (send_command os c w)) = (if wo_send os c then c # wm_sent w else wm_sent w)"
  using assms by (simp_all add: send_command_def)

lemma read_until_loop_frame:
  "wm_sock (snd (read_until_loop n m w)) = wm_sock w \<and>
   wm_group_interface (snd (read_until_loop n m w)) = wm_group_interface w \<and>
   wm_state (snd (read_until_loop n m w)) = wm_state w \<and>
   wm_sent (snd (read_until_loop n m w)) = wm_sent w"
proof (induction n arbitrary: w)
  case (Suc n)
  obtain d w1 where d: "recv_datagram w = (d, w1)" by (cases "recv_datagram w") auto
  have "wm_sock w1 = wm_sock w \<and> wm_group_interface w1 = wm_group_interface w \<and>
      wm_state w1 = wm_state w \<and> wm_sent w1 = wm_sent w"
    using recv_datagram_frame [of w] d by simp
  then show ?case using Suc [of w1] d by (simp split: option.split)
qed simp

lemma started_group_held:
  assumes "start_p2p_group_owner os w = (Some g, w1)"
  shows "wm_sock w1" "wm_group_interface w1 = wg_group_interface g"
    "ws_connected (wm_state w1)" "ws_ssid (wm_state w1) = wg_ssid g"
    "ws_mode (wm_state w1) = WifiP2pGroupOwner"
proof -
  obtain w2 where o: "open_ctrl_socket os w = (True, w2)"
    using assms by (auto simp: start_p2p_group_owner_def split: prod.splits bool.splits)
  let ?w3 = "snd (send_command os ''ATTACH'' w2)"
  obtain r w4 where c: "send_command os ''P2P_GROUP_ADD'' ?w3 = (r, w4)"
    by (cases "send_command os ''P2P_GROUP_ADD'' ?w3") auto
  obtain e w5 where u: "read_until kStartedTag w4 = (e, w5)" by (cases "read_until kStartedTag w4") auto
  have "wm_sock ?w3" using open_ctrl_frame(1) [OF o] send_command_open by simp
  then have "wm_sock w4" using send_command_open(1) [of ?w3 os "''P2P_GROUP_ADD''"] c by simp
  then have "wm_sock w5"
    using read_until_loop_frame [of kMaxEventReads kStartedTag w4] u by (simp add: read_until_def)
  then show "wm_sock w1" "wm_group_interface w1 = wg_group_interface g"
    "ws_connected (wm_state w1)" "ws_ssid (wm_state w1) = wg_ssid g"
    "ws_mode (wm_state w1) = WifiP2pGroupOwner"
    using assms
    by (auto simp: start_p2p_group_owner_def o c u Let_def split: option.splits if_splits)
qed

text \<open>The group Start reports is the group the manager holds (mode, SSID, interface), and
  Stop then asks the daemon to remove exactly that interface, forgets the group and closes the
  socket.\<close>

theorem reported_group_removed:
  assumes "start_p2p_group_owner os w = (Some g, w1)"
    and "wg_group_interface g \<noteq> []"
    and "wo_send os (''P2P_GROUP_REMOVE '' @ wg_group_interface g)"
  shows "wifi_state_of w1 =
      \<lparr>ws_mode = WifiP2pGroupOwner, ws_connected = True, ws_ssid = wg_ssid g,
       ws_ip_address = ws_ip_address (wifi_state_of w1)\<rparr> \<and>
    hd (wm_sent (wifi_stop os w1)) = ''P2P_GROUP_REMOVE '' @ wg_group_interface g \<and>
    wifi_state_of (wifi_stop os w1) = wifi_state_default \<and> \<not> wm_sock (wifi_stop os w1)"
  using assms started_group_held [OF assms(1)] send_command_open(2) [of w1 os]
  by (simp add: wifi_stop_def Let_def remove_command_def close_ctrl_socket_def wifi_state_of_def)

definition answering_daemon :: "string option list \<Rightarrow> wpa_os" where
  "answering_daemon ds =
     \<lparr>wo_socket = True, wo_bind = True, wo_connect = True, wo_local_path = ''/tmp/wpa_ctrl_1-2'',
      wo_send = (\<lambda>_. True),
      wo_answers = (\<lambda>sent. if hd sent = ''P2P_GROUP_ADD'' then ds else [Some ''OK''])\<rparr>"

definition started_p0 :: string where
  "started_p0 = started_event ''<3>'' ''p2p0'' ''DIRECT-ab'' ''f'' ''pw'' []"

definition group_p0 :: wifi_direct_group where
  "group_p0 =
     \<lparr>wg_ssid = ''DIRECT-ab'', wg_psk = ''pw'', wg_group_interface = ''p2p0'',
      wg_group_owner_ip = kGoIpAddress, wg_role = kGoRole\<rparr>"

lemma start_p0:
  "fst (start_p2p_group_owner (answering_daemon [Some ''OK'', Some started_p0]) wpa_new) = Some group_p0"
  by code_simp

theorem reported_group_removed_witness:
  "hd (wm_sent (wifi_stop (answering_daemon [Some ''OK'', Some started_p0])
     (snd (start_p2p_group_owner (answering_daemon [Some ''OK'', Some started_p0]) wpa_new)))) =
   ''P2P_GROUP_REMOVE p2p0''"
proof -
  let ?os = "answering_daemon [Some ''OK'', Some started_p0]"
  have "start_p2p_group_owner ?os wpa_new = (Some group_p0, snd (start_p2p_group_owner ?os wpa_new))"
    using start_p0 by (metis prod.collapse)
  then show ?thesis
    using reported_group_removed [of ?os wpa_new group_p0 "snd (start_p2p_group_owner ?os wpa_new)"]
    by (simp add: group_p0_def answering_daemon_def)
qed

text \<open>The reply to a command is whatever datagram comes next.  Once the manager has attached
  to the daemon's events, an unsolicited event that is queued before the answer to
  P2P_GROUP_ADD is taken for the answer: Start reports no group, although the daemon was asked
  for one and goes on to form it, and the manager does not know its interface.\<close>

theorem event_taken_for_reply:
  assumes "wm_sock w" "wm_inbox w = []" "wo_send os ''ATTACH''" "wo_send os ''P2P_GROUP_ADD''"
    and "wo_answers os (''ATTACH'' # wm_sent w) = [Some ok]"
    and "wo_answers os (''P2P_GROUP_ADD'' # ''ATTACH'' # wm_sent w) = Some event # answers"
    and "\<not> prefix ''OK'' event"
  shows "fst (start_p2p_group_owner os w) = None \<and>
    hd (wm_sent (snd (start_p2p_group_owner os w))) = ''P2P_GROUP_ADD'' \<and>
    wm_inbox (snd (start_p2p_group_owner os w)) = answers \<and>
    wm_group_interface (snd (start_p2p_group_owner os w)) = wm_group_interface w"
proof -
  have np: "\<not> prefix ''OK'' (take (kRecvBufSize - 1) event)"
    using assms(7) by (meson prefix_order.trans take_is_prefix)
  show ?thesis
    using assms(1-6) np
    by (simp add: start_p2p_group_owner_def open_ctrl_socket_def send_command_def
      recv_datagram_def send_datagram_def)
qed

theorem event_taken_for_reply_witness:
  "fst (start_p2p_group_owner
     (answering_daemon [Some ''<3>CTRL-EVENT-SCAN-STARTED'', Some ''OK'', Some started_p0])
     (wpa_new\<lparr>wm_sock := True\<rparr>)) = None"
  using event_taken_for_reply [of "wpa_new\<lparr>wm_sock := True\<rparr>"
      "answering_daemon [Some ''<3>CTRL-EVENT-SCAN-STARTED'', Some ''OK'', Some started_p0]"
      "''OK''" "''<3>CTRL-EVENT-SCAN-STARTED''" "[Some ''OK'', Some started_p0]"]
  by (simp add: answering_daemon_def wpa_new_def)

section \<open>One DHCP server at a time\<close>

definition dhcp_inv :: "dhcp_server \<Rightarrow> bool" where
  "dhcp_inv d \<longleftrightarrow> map fst (ds_children d) = (if 0 < ds_pid d then [ds_pid d] else [])"

lemma dhcp_new_inv [inv_rules]: "dhcp_inv dhcp_new"
  by (simp add: dhcp_inv_def dhcp_new_def)

lemma dhcp_start_inv [inv_rules]:
  "\<lbrakk>dhcp_inv d; forked \<noteq> 0\<rbrakk> \<Longrightarrow> dhcp_inv (snd (dhcp_start forked died iface ip d))"
  by (auto simp: dhcp_inv_def dhcp_start_def)

lemma dhcp_stop_inv [inv_rules]: "dhcp_inv d \<Longrightarrow> dhcp_inv (dhcp_stop d)"
  by (cases "ds_children d") (auto simp: dhcp_inv_def dhcp_stop_def split: if_splits)

end
