(* ===== verification/RawSink.thy ===== *)
theory RawSink
  imports Buffers Streaming Download
begin

text \<open>
  Raw dual-camera capture: \<^verbatim>\<open>app/storage/ports/raw-capture-sink.hpp\<close> and
  \<^verbatim>\<open>adapters/storage/raw_capture/filesystem-raw-capture-sink.cpp\<close>.

  A file is the list of planes whose bytes were appended to it, and whether the stream has
  failed; what the disk does with a write (by path and number of planes already written) is an
  argument.  The writer threads take part in a run as explicit steps, one per iteration of
  their loop; joining a thread that was told to stop lets it drain its queue.
\<close>

section \<open>Files\<close>

record raw_file =
  rf_path :: string
  rf_planes :: "frame_plane list"
  rf_failed :: bool

type_synonym disk_answer = "string \<Rightarrow> nat \<Rightarrow> bool"

text \<open>ofstream::write: a stream that has failed takes nothing more.\<close>

definition stream_write :: "disk_answer \<Rightarrow> frame_plane \<Rightarrow> raw_file \<Rightarrow> raw_file" where
  "stream_write ok p file =
     (if rf_failed file then file
      else if ok (rf_path file) (length (rf_planes file))
      then file\<lparr>rf_planes := rf_planes file @ [p]\<rparr>
      else file\<lparr>rf_failed := True\<rparr>)"

definition write_frame_planes :: "disk_answer \<Rightarrow> frame \<Rightarrow> raw_file \<Rightarrow> bool \<times> raw_file" where
  "write_frame_planes ok f file =
     (let file1 = fold (\<lambda>p fl. if fp_data p \<noteq> None \<and> 0 < fp_size p then stream_write ok p fl else fl)
                    (fr_planes f) file
      in (\<not> rf_failed file1, file1))"

section \<open>FilesystemRawCaptureSink\<close>

definition kQueueCapacity :: nat where "kQueueCapacity = 8"

record camera_writer =
  cw_file :: raw_file
  cw_ring :: "frame ring"
  cw_thread :: bool
  cw_stopping :: bool

text \<open>\<^verbatim>\<open>rk_closed\<close> lists the files the sink has opened and closed again.\<close>

record raw_sink =
  rk_video_dir :: string
  rk_camera_count :: u32
  rk_capturing :: bool
  rk_capture_group_id :: string
  rk_writers :: "camera_writer list"
  rk_closed :: "raw_file list"

definition raw_sink_new :: "string \<Rightarrow> u32 \<Rightarrow> raw_sink" where
  "raw_sink_new dir n =
     \<lparr>rk_video_dir = dir, rk_camera_count = n, rk_capturing = False, rk_capture_group_id = [],
      rk_writers = [], rk_closed = []\<rparr>"

text \<open>The path of camera i's file: \<^verbatim>\<open>video_dir_ / name\<close>.\<close>

definition raw_path :: "string \<Rightarrow> string \<Rightarrow> nat \<Rightarrow> string" where
  "raw_path dir gid i =
     (let name = raw_file_name \<lparr>rci_capture_group_id = gid, rci_camera_index = of_nat i\<rparr>
      in if dir = [] \<or> last dir = CHR ''/'' then dir @ name else dir @ ''/'' @ name)"

text \<open>The loop that opens the files: the writers made, and whether all were opened.\<close>

fun open_writers :: "(string \<Rightarrow> bool) \<Rightarrow> string \<Rightarrow> string \<Rightarrow> nat list \<Rightarrow> bool \<times> camera_writer list" where
  "open_writers can_open dir gid [] = (True, [])"
| "open_writers can_open dir gid (i # is) =
     (case ring_new kQueueCapacity of
        Inl _ \<Rightarrow> (False, [])
      | Inr r \<Rightarrow>
          let path = raw_path dir gid i
          in if \<not> can_open path then (False, [])
             else case open_writers can_open dir gid is of
                    (ok, ws) \<Rightarrow>
                      (ok, \<lparr>cw_file = \<lparr>rf_path = path, rf_planes = [], rf_failed = False\<rparr>,
                            cw_ring = r, cw_thread = False, cw_stopping = False\<rparr> # ws))"

definition raw_start ::
  "bool \<Rightarrow> (string \<Rightarrow> bool) \<Rightarrow> string \<Rightarrow> raw_sink \<Rightarrow> bool \<times> raw_sink" where
  "raw_start mkdir_ok can_open gid s =
     (if rk_capturing s then (False, s)
      else if gid = [] then (False, s)
      else if \<not> mkdir_ok then (False, s)
      else
        case open_writers can_open (rk_video_dir s) gid [0 ..< unat (rk_camera_count s)] of
          (False, ws) \<Rightarrow> (False, s\<lparr>rk_closed := rk_closed s @ map cw_file ws\<rparr>)
        | (True, ws) \<Rightarrow>
            (True, s\<lparr>rk_writers := map (\<lambda>w. w\<lparr>cw_thread := True\<rparr>) ws,
                    rk_capture_group_id := gid, rk_capturing := True\<rparr>))"

text \<open>\<^verbatim>\<open>got_lock\<close>: the try_lock succeeded.\<close>

definition raw_push_camera :: "bool \<Rightarrow> nat \<Rightarrow> frame \<Rightarrow> raw_sink \<Rightarrow> raw_sink" where
  "raw_push_camera got_lock i f s =
     (if \<not> got_lock \<or> \<not> rk_capturing s \<or> length (rk_writers s) \<le> i then s
      else let w = rk_writers s ! i
           in s\<lparr>rk_writers := (rk_writers s)[i := w\<lparr>cw_ring := snd (ring_push f (cw_ring w))\<rparr>]\<rparr>)"

function drain_writer :: "disk_answer \<Rightarrow> camera_writer \<Rightarrow> camera_writer" where
  "drain_writer ok w =
     (case ring_try_pop (cw_ring w) of
        (None, r) \<Rightarrow> w\<lparr>cw_ring := r\<rparr>
      | (Some f, r) \<Rightarrow>
          drain_writer ok
            (w\<lparr>cw_ring := r, cw_file := snd (write_frame_planes ok f (cw_file w))\<rparr>))"
  by auto
termination
  by (relation "measure (\<lambda>(_, w). length (rg_queue (cw_ring w)))")
     (auto simp: ring_try_pop_def ring_take_def split: list.splits)

declare drain_writer.simps [simp del]

text \<open>One turn of WriterLoop: told to stop, it drains the queue and ends; otherwise it writes
  what Pop gives.\<close>

definition writer_turn :: "disk_answer \<Rightarrow> camera_writer \<Rightarrow> camera_writer" where
  "writer_turn ok w =
     (if \<not> cw_thread w then w
      else if cw_stopping w then (drain_writer ok w)\<lparr>cw_thread := False\<rparr>
      else case ring_pop [] (cw_ring w) of
             (None, r) \<Rightarrow> w\<lparr>cw_ring := r\<rparr>
           | (Some f, r) \<Rightarrow>
               w\<lparr>cw_ring := r, cw_file := snd (write_frame_planes ok f (cw_file w))\<rparr>)"

definition raw_writer_step :: "disk_answer \<Rightarrow> nat \<Rightarrow> raw_sink \<Rightarrow> raw_sink" where
  "raw_writer_step ok i s =
     (if length (rk_writers s) \<le> i then s
      else s\<lparr>rk_writers := (rk_writers s)[i := writer_turn ok (rk_writers s ! i)]\<rparr>)"

text \<open>Stop for one writer: stopping, Close, join (the thread's last turn), drain, close.\<close>

definition finish_writer :: "disk_answer \<Rightarrow> camera_writer \<Rightarrow> raw_file" where
  "finish_writer ok w =
     (let w1 = w\<lparr>cw_stopping := True, cw_ring := ring_close (cw_ring w)\<rparr>;
          w2 = writer_turn ok w1;
          w3 = drain_writer ok w2
      in cw_file w3)"

definition raw_stop :: "disk_answer \<Rightarrow> raw_sink \<Rightarrow> bool \<times> raw_sink" where
  "raw_stop ok s =
     (if \<not> rk_capturing s then (False, s)
      else (True, s\<lparr>rk_capturing := False, rk_writers := [], rk_capture_group_id := [],
                   rk_closed := rk_closed s @ map (finish_writer ok) (rk_writers s)\<rparr>))"

definition raw_is_capturing :: "raw_sink \<Rightarrow> bool" where
  "raw_is_capturing s = rk_capturing s"

definition raw_sink_destroy :: "disk_answer \<Rightarrow> raw_sink \<Rightarrow> raw_sink" where
  "raw_sink_destroy ok s = (if rk_capturing s then snd (raw_stop ok s) else s)"

section \<open>What a writer does to its queue and file\<close>

definition disk_takes_all :: disk_answer where
  "disk_takes_all path n = True"

lemma write_frame_ok:
  assumes "\<not> rf_failed file"
  shows "write_frame_planes disk_takes_all f file =
    (True, file\<lparr>rf_planes := rf_planes file @ copied_planes f\<rparr>)"
proof -
  have "fold (\<lambda>p fl. if fp_data p \<noteq> None \<and> 0 < fp_size p then stream_write disk_takes_all p fl else fl)
      ps fl = fl\<lparr>rf_planes := rf_planes fl @ [p \<leftarrow> ps. fp_data p \<noteq> None \<and> 0 < fp_size p]\<rparr>"
    if "\<not> rf_failed fl" for ps fl
    using that by (induction ps arbitrary: fl) (simp_all add: stream_write_def disk_takes_all_def)
  then show ?thesis using assms by (simp add: write_frame_planes_def copied_planes_def Let_def)
qed

text \<open>
  A writer after \<^verbatim>\<open>pushed\<close> was pushed to it: what it has written and what it still holds are
  frames of \<^verbatim>\<open>pushed\<close> in that order, and the last ones are all there.
\<close>

definition writer_holds :: "string \<Rightarrow> frame list \<Rightarrow> camera_writer \<Rightarrow> frame list \<Rightarrow> bool" where
  "writer_holds path pushed w written \<longleftrightarrow>
     rf_path (cw_file w) = path \<and> \<not> rf_failed (cw_file w) \<and>
     rf_planes (cw_file w) = concat (map copied_planes written) \<and>
     rg_capacity (cw_ring w) = kQueueCapacity \<and> length (rg_queue (cw_ring w)) \<le> kQueueCapacity \<and>
     suffix (rg_queue (cw_ring w)) pushed \<and>
     subseq (written @ rg_queue (cw_ring w)) pushed \<and>
     suffix (drop (length pushed - kQueueCapacity) pushed) (written @ rg_queue (cw_ring w))"

definition writer_inv :: "string \<Rightarrow> frame list \<Rightarrow> camera_writer \<Rightarrow> bool" where
  "writer_inv path pushed w \<longleftrightarrow>
     cw_thread w \<and> \<not> cw_stopping w \<and> \<not> rg_closed (cw_ring w) \<and>
     (\<exists>written. writer_holds path pushed w written)"

lemma writer_holds_take:
  assumes "writer_holds path pushed w written" "rg_queue (cw_ring w) = f # fs"
    "rg_queue r = fs" "rg_capacity r = rg_capacity (cw_ring w)"
  shows "writer_holds path pushed
    (w\<lparr>cw_ring := r, cw_file := snd (write_frame_planes disk_takes_all f (cw_file w))\<rparr>) (written @ [f])"
  using assms by (auto simp: writer_holds_def write_frame_ok suffix_def)

lemma last_pushed:
  "drop (length (xs @ [x]) - k) (xs @ [x]) =
     (if k = 0 then [] else drop (length xs - (k - 1)) xs @ [x])"
  by (cases k) simp_all

lemma suffix_drop_mono: "m \<le> n \<Longrightarrow> suffix (drop n xs) (drop m xs)"
  by (metis drop_drop le_add_diff_inverse2 suffix_drop)

lemma writer_push_holds:
  assumes "writer_holds path pushed w written" "\<not> rg_closed (cw_ring w)"
  shows "writer_holds path (pushed @ [f]) (w\<lparr>cw_ring := snd (ring_push f (cw_ring w))\<rparr>) written"
proof -
  let ?q = "rg_queue (cw_ring w)"
  have h: "length ?q \<le> kQueueCapacity" "suffix ?q pushed" "subseq (written @ ?q) pushed"
    "suffix (drop (length pushed - kQueueCapacity) pushed) (written @ ?q)"
    "rg_capacity (cw_ring w) = kQueueCapacity"
    using assms(1) by (simp_all add: writer_holds_def)
  have last: "drop (length (pushed @ [f]) - kQueueCapacity) (pushed @ [f]) =
      drop (length pushed - 7) pushed @ [f]"
    using last_pushed [of pushed f kQueueCapacity] by (simp add: kQueueCapacity_def)
  show ?thesis
  proof (cases "length ?q < kQueueCapacity")
    case True
    then have q: "rg_queue (snd (ring_push f (cw_ring w))) = ?q @ [f]"
      "rg_capacity (snd (ring_push f (cw_ring w))) = kQueueCapacity"
      using assms(2) h(5) by (simp_all add: ring_push_def Let_def)
    have "suffix (drop (length pushed - 7) pushed) (written @ ?q)"
      using h(4) suffix_drop_mono [of "length pushed - kQueueCapacity" "length pushed - 7" pushed]
        suffix_order.trans by (fastforce simp: kQueueCapacity_def)
    moreover have "subseq ((written @ ?q) @ [f]) (pushed @ [f])"
      using h(3) by (intro list_emb_append_mono) auto
    ultimately show ?thesis
      using assms(1) True h(2) last q by (simp add: writer_holds_def suffix_append append_assoc [symmetric] del: append_assoc)
  next
    case False
    then have len: "length ?q = kQueueCapacity" using h(1) by simp
    then have ne: "?q \<noteq> []" by (auto simp: kQueueCapacity_def)
    have q: "rg_queue (snd (ring_push f (cw_ring w))) = tl ?q @ [f]"
      "rg_capacity (snd (ring_push f (cw_ring w))) = kQueueCapacity"
      using assms(2) h(5) len by (simp_all add: ring_push_def Let_def)
    have st: "suffix (tl ?q) pushed" using h(2) suffix_tl suffix_order.trans by blast
    have lt: "length (tl ?q) = 7" using len by (simp add: kQueueCapacity_def)
    have "drop (length pushed - 7) pushed = tl ?q"
      using st lt by (auto simp: suffix_def)
    moreover have "subseq ((written @ tl ?q) @ [f]) (pushed @ [f])"
    proof (intro list_emb_append_mono)
      have "subseq (written @ tl ?q) (written @ ?q)"
        by (intro list_emb_append_mono subseq_order.order_refl) (metis suffix_imp_subseq suffix_tl)
      then show "subseq (written @ tl ?q) pushed" using h(3) by (rule subseq_order.trans)
    qed auto
    ultimately show ?thesis
      using assms(1) st last q lt len by (simp add: writer_holds_def suffix_append append_assoc [symmetric] del: append_assoc)
  qed
qed

lemma drain_holds:
  assumes "writer_holds path pushed w written"
  shows "cw_file (drain_writer disk_takes_all w) =
      \<lparr>rf_path = path, rf_planes = concat (map copied_planes (written @ rg_queue (cw_ring w))),
       rf_failed = False\<rparr> \<and> rg_queue (cw_ring (drain_writer disk_takes_all w)) = []"
  using assms
proof (induction "length (rg_queue (cw_ring w))" arbitrary: w written)
  case 0
  then show ?case
    by (simp add: drain_writer.simps [of _ w] ring_try_pop_def ring_take_def writer_holds_def)
next
  case (Suc n)
  then obtain f fs where q: "rg_queue (cw_ring w) = f # fs" by (cases "rg_queue (cw_ring w)") auto
  let ?r = "(cw_ring w)\<lparr>rg_queue := fs, rg_popped := rg_popped (cw_ring w) + 1\<rparr>"
  let ?w = "w\<lparr>cw_ring := ?r, cw_file := snd (write_frame_planes disk_takes_all f (cw_file w))\<rparr>"
  have d: "drain_writer disk_takes_all w = drain_writer disk_takes_all ?w"
    by (simp add: drain_writer.simps [of _ w] ring_try_pop_def ring_take_def q)
  have "writer_holds path pushed ?w (written @ [f])"
    using Suc.prems q by (rule writer_holds_take) simp_all
  from Suc.hyps(1) [OF _ this] Suc.hyps(2) show ?case by (simp add: d q)
qed

lemma finish_holds:
  assumes "writer_inv path pushed w"
  obtains fs where "finish_writer disk_takes_all w =
      \<lparr>rf_path = path, rf_planes = concat (map copied_planes fs), rf_failed = False\<rparr>"
    "subseq fs pushed" "suffix (drop (length pushed - kQueueCapacity) pushed) fs"
proof -
  obtain written where h: "writer_holds path pushed w written" "cw_thread w"
    using assms by (auto simp: writer_inv_def)
  let ?w1 = "w\<lparr>cw_stopping := True, cw_ring := ring_close (cw_ring w)\<rparr>"
  have h1: "writer_holds path pushed ?w1 written"
    using h(1) by (simp add: writer_holds_def ring_close_def)
  have q1: "rg_queue (cw_ring ?w1) = rg_queue (cw_ring w)" by (simp add: ring_close_def)
  note d = drain_holds [OF h1, unfolded q1]
  have "finish_writer disk_takes_all w =
      cw_file (drain_writer disk_takes_all ((drain_writer disk_takes_all ?w1)\<lparr>cw_thread := False\<rparr>))"
    using h(2) by (simp add: finish_writer_def writer_turn_def Let_def)
  also have "\<dots> = cw_file (drain_writer disk_takes_all ?w1)"
    using d by (simp add: drain_writer.simps [of _ "drain_writer disk_takes_all ?w1\<lparr>cw_thread := False\<rparr>"]
      ring_try_pop_def ring_take_def)
  finally show thesis
    using that [of "written @ rg_queue (cw_ring w)"] d h(1) by (simp add: writer_holds_def)
qed

lemma writer_push_inv:
  assumes "writer_inv path pushed w"
  shows "writer_inv path (pushed @ [f]) (w\<lparr>cw_ring := snd (ring_push f (cw_ring w))\<rparr>)"
  using assms writer_push_holds by (fastforce simp: writer_inv_def ring_push_def Let_def)

lemma writer_turn_inv:
  assumes "writer_inv path pushed w"
  shows "writer_inv path pushed (writer_turn disk_takes_all w)"
proof -
  obtain written where h: "writer_holds path pushed w written" "cw_thread w" "\<not> cw_stopping w"
    "\<not> rg_closed (cw_ring w)"
    using assms by (auto simp: writer_inv_def)
  show ?thesis
  proof (cases "rg_queue (cw_ring w)")
    case Nil
    then show ?thesis using h assms by (simp add: writer_turn_def ring_pop_def ring_ready_def)
  next
    case (Cons f fs)
    let ?r = "(cw_ring w)\<lparr>rg_queue := fs, rg_popped := rg_popped (cw_ring w) + 1\<rparr>"
    have "writer_turn disk_takes_all w =
        w\<lparr>cw_ring := ?r, cw_file := snd (write_frame_planes disk_takes_all f (cw_file w))\<rparr>"
      using h Cons by (simp add: writer_turn_def ring_pop_def ring_ready_def ring_take_def)
    moreover have "writer_holds path pushed
        (w\<lparr>cw_ring := ?r, cw_file := snd (write_frame_planes disk_takes_all f (cw_file w))\<rparr>) (written @ [f])"
      using h(1) Cons by (rule writer_holds_take) simp_all
    ultimately show ?thesis using h by (auto simp: writer_inv_def)
  qed
qed

section \<open>A capture session\<close>

datatype raw_event =
    RawPush bool nat frame
  | RawWrite nat

fun raw_event_step :: "disk_answer \<Rightarrow> raw_event \<Rightarrow> raw_sink \<Rightarrow> raw_sink" where
  "raw_event_step ok (RawPush got_lock i f) s = raw_push_camera got_lock i f s"
| "raw_event_step ok (RawWrite i) s = raw_writer_step ok i s"

text \<open>The frames of camera i that met a free lock.\<close>

definition pushed_to :: "nat \<Rightarrow> raw_event list \<Rightarrow> frame list" where
  "pushed_to i evs =
     List.map_filter (\<lambda>e. case e of RawPush True j f \<Rightarrow> if j = i then Some f else None | _ \<Rightarrow> None) evs"

lemma pushed_to_Cons:
  "pushed_to i (e # evs) =
     (case e of RawPush True j f \<Rightarrow> if j = i then f # pushed_to i evs else pushed_to i evs
      | _ \<Rightarrow> pushed_to i evs)"
  by (simp add: pushed_to_def List.map_filter_simps split: raw_event.split bool.split)

definition session_inv_raw :: "string \<Rightarrow> (nat \<Rightarrow> frame list) \<Rightarrow> raw_sink \<Rightarrow> bool" where
  "session_inv_raw gid pushed s \<longleftrightarrow>
     rk_capturing s \<and> length (rk_writers s) = unat (rk_camera_count s) \<and>
     (\<forall>i < length (rk_writers s).
        writer_inv (raw_path (rk_video_dir s) gid i) (pushed i) (rk_writers s ! i))"

lemma raw_push_session:
  assumes "session_inv_raw gid pushed s"
  shows "session_inv_raw gid (if got then pushed(i := pushed i @ [f]) else pushed)
    (raw_push_camera got i f s)"
  using assms writer_push_inv
  by (auto simp: session_inv_raw_def raw_push_camera_def Let_def nth_list_update)

lemma raw_writer_session:
  assumes "session_inv_raw gid pushed s"
  shows "session_inv_raw gid pushed (raw_writer_step disk_takes_all i s)"
  using assms writer_turn_inv
  by (auto simp: session_inv_raw_def raw_writer_step_def nth_list_update)

lemma raw_step_kept:
  "rk_closed (raw_event_step ok e s) = rk_closed s \<and>
   rk_video_dir (raw_event_step ok e s) = rk_video_dir s \<and>
   rk_camera_count (raw_event_step ok e s) = rk_camera_count s"
  by (cases e) (simp_all add: raw_push_camera_def raw_writer_step_def Let_def)

lemma raw_run_kept:
  "rk_closed (fold (raw_event_step ok) evs s) = rk_closed s \<and>
   rk_video_dir (fold (raw_event_step ok) evs s) = rk_video_dir s \<and>
   rk_camera_count (fold (raw_event_step ok) evs s) = rk_camera_count s"
  by (induction evs arbitrary: s) (simp_all add: raw_step_kept)

lemma raw_run_session:
  assumes "session_inv_raw gid pushed s"
  shows "session_inv_raw gid (\<lambda>i. pushed i @ pushed_to i evs)
    (fold (raw_event_step disk_takes_all) evs s)"
  using assms
proof (induction evs arbitrary: pushed s)
  case Nil
  then show ?case by (simp add: pushed_to_def List.map_filter_simps)
next
  case (Cons e evs)
  show ?case
  proof (cases e)
    case (RawPush got i f)
    have eq: "(\<lambda>j. (if got then pushed(i := pushed i @ [f]) else pushed) j @ pushed_to j evs) =
        (\<lambda>j. pushed j @ pushed_to j (e # evs))"
      by (auto simp: pushed_to_Cons RawPush fun_eq_iff)
    show ?thesis
      using Cons.IH [OF raw_push_session [OF Cons.prems, of got i f], unfolded eq]
      by (simp add: RawPush)
  next
    case (RawWrite i)
    then show ?thesis
      using Cons.IH [OF raw_writer_session [OF Cons.prems, of i]] by (simp add: pushed_to_Cons)
  qed
qed

lemma open_writers_inv:
  assumes "open_writers can_open dir gid [a ..< a + n] = (True, ws)"
  shows "length ws = n \<and> (\<forall>i < n. writer_inv (raw_path dir gid (a + i)) [] ((ws ! i)\<lparr>cw_thread := True\<rparr>))"
  using assms
proof (induction n arbitrary: a ws)
  case (Suc n)
  obtain r :: "frame ring" where r: "ring_new kQueueCapacity = Inr r" "rg_queue r = []" "\<not> rg_closed r"
    "rg_capacity r = kQueueCapacity"
    by (simp add: ring_new_def kQueueCapacity_def)
  have u: "[a ..< a + Suc n] = a # [Suc a ..< Suc a + n]" by (simp add: upt_conv_Cons)
  obtain vs where v: "open_writers can_open dir gid [Suc a ..< Suc a + n] = (True, vs)"
    "ws = \<lparr>cw_file = \<lparr>rf_path = raw_path dir gid a, rf_planes = [], rf_failed = False\<rparr>,
           cw_ring = r, cw_thread = False, cw_stopping = False\<rparr> # vs"
    using Suc.prems [unfolded u] r(1)
    by (auto simp: Let_def split: if_splits prod.splits simp del: upt_Suc)
  have "writer_inv (raw_path dir gid a) [] ((hd ws)\<lparr>cw_thread := True\<rparr>)"
    using r by (auto simp: v(2) writer_inv_def writer_holds_def intro: exI [of _ "[]"])
  then show ?case using Suc.IH [OF v(1)] by (auto simp: v(2) nth_Cons split: nat.split)
qed simp

text \<open>C35: A capture session loses only what the queue drops.  Every camera gets a file of its
  own, under the name of its group and index; at Stop the file holds frames pushed for that
  camera, whole and in the order they were pushed, and the last eight pushed are all there,
  whatever the writer threads got to do in between, as long as the disk takes the writes.\<close>

theorem raw_capture_session:
  assumes "raw_start mkdir_ok can_open gid s = (True, s1)" "i < unat (rk_camera_count s)"
    and "stopped = raw_stop disk_takes_all (fold (raw_event_step disk_takes_all) evs s1)"
  shows "fst stopped \<and>
    (\<exists>fs. rk_closed (snd stopped) ! (length (rk_closed s) + i) =
         \<lparr>rf_path = raw_path (rk_video_dir s) gid i, rf_planes = concat (map copied_planes fs),
          rf_failed = False\<rparr> \<and>
       subseq fs (pushed_to i evs) \<and>
       suffix (drop (length (pushed_to i evs) - 8) (pushed_to i evs)) fs)"
proof -
  obtain ws where ws: "open_writers can_open (rk_video_dir s) gid [0 ..< 0 + unat (rk_camera_count s)] = (True, ws)"
    and s1: "s1 = s\<lparr>rk_writers := map (\<lambda>w. w\<lparr>cw_thread := True\<rparr>) ws,
      rk_capture_group_id := gid, rk_capturing := True\<rparr>"
    using assms(1) by (auto simp: raw_start_def split: if_splits prod.splits bool.splits)
  let ?s2 = "fold (raw_event_step disk_takes_all) evs s1"
  have "session_inv_raw gid (\<lambda>_. []) s1"
    using open_writers_inv [OF ws] by (simp add: s1 session_inv_raw_def)
  from raw_run_session [OF this, of evs]
  have inv: "session_inv_raw gid (\<lambda>i. pushed_to i evs) ?s2" by simp
  have kept: "rk_closed ?s2 = rk_closed s" "rk_video_dir ?s2 = rk_video_dir s"
    "rk_camera_count ?s2 = rk_camera_count s"
    using raw_run_kept [of disk_takes_all evs s1] by (simp_all add: s1)
  have i: "i < length (rk_writers ?s2)" using inv assms(2) kept by (simp add: session_inv_raw_def)
  then have w: "writer_inv (raw_path (rk_video_dir s) gid i) (pushed_to i evs) (rk_writers ?s2 ! i)"
    using inv kept by (simp add: session_inv_raw_def)
  have st: "stopped = (True, ?s2\<lparr>rk_capturing := False, rk_writers := [], rk_capture_group_id := [],
      rk_closed := rk_closed s @ map (finish_writer disk_takes_all) (rk_writers ?s2)\<rparr>)"
    using inv kept by (simp add: assms(3) raw_stop_def session_inv_raw_def)
  obtain fs where fs: "finish_writer disk_takes_all (rk_writers ?s2 ! i) =
      \<lparr>rf_path = raw_path (rk_video_dir s) gid i, rf_planes = concat (map copied_planes fs),
       rf_failed = False\<rparr>"
    "subseq fs (pushed_to i evs)"
    "suffix (drop (length (pushed_to i evs) - kQueueCapacity) (pushed_to i evs)) fs"
    using w by (rule finish_holds)
  have "rk_closed (snd stopped) ! (length (rk_closed s) + i) =
      finish_writer disk_takes_all (rk_writers ?s2 ! i)"
    using i by (simp add: st nth_append)
  then show ?thesis using fs by (auto simp: st kQueueCapacity_def)
qed

definition raw_test_frame :: "u64 \<Rightarrow> frame" where
  "raw_test_frame n =
     \<lparr>fr_id = n, fr_format = NV12, fr_memory = CPU, fr_geometry = \<lparr>fg_width = 2, fg_height = 2\<rparr>,
      fr_planes = [\<lparr>fp_stride = 2, fp_data = Some (unat n, 0), fp_size = 6\<rparr>],
      fr_captured_at = 0, fr_owner = Some (unat n)\<rparr>"

theorem raw_capture_session_witness:
  "fst (raw_stop disk_takes_all
     (fold (raw_event_step disk_takes_all) [RawPush True 1 (raw_test_frame 1), RawWrite 1, RawPush True 1 (raw_test_frame 2)]
       (snd (raw_start True (\<lambda>_. True) ''g'' (raw_sink_new ''/v'' 2)))))"
proof -
  have "raw_start True (\<lambda>_. True) ''g'' (raw_sink_new ''/v'' 2) =
      (True, snd (raw_start True (\<lambda>_. True) ''g'' (raw_sink_new ''/v'' 2)))"
    by (simp add: raw_start_def raw_sink_new_def ring_new_def kQueueCapacity_def Let_def
      upt_conv_Cons split: prod.split)
  from raw_capture_session [OF this, of 1 _
    "[RawPush True 1 (raw_test_frame 1), RawWrite 1, RawPush True 1 (raw_test_frame 2)]", OF _ refl]
  show ?thesis by (simp add: raw_sink_new_def)
qed

end
