(* ===== verification/Config.thy ===== *)
theory Config
  imports Overlay
begin

text \<open>
  Configuration and identity: the models of \<^verbatim>\<open>domain/config/models\<close>, their readers
  (\<^verbatim>\<open>adapters/config/json\<close>), the loader (\<^verbatim>\<open>app/config/services/config_loader\<close>), the model
  version parser, the advertised Bluetooth name and the identifiers of
  \<^verbatim>\<open>domain/common/utils/uuid.hpp\<close>.

  JSON documents belong to a library: their type and the operations the readers use (contains,
  at, is_null, get for each type) are a record of arguments.  An exception is \<^term>\<open>Inl\<close> of its
  message.
\<close>

section \<open>Models\<close>

record device_static_ip_data =
  si_enabled :: "bool option"
  si_ip_address :: "string option"
  si_subnet_mask :: "string option"
  si_gateway :: "string option"

record device_wifi_direct_data =
  dw_enabled :: "bool option"
  dw_ssid :: "string option"
  dw_passphrase :: "string option"
  dw_channel :: "u32 option"
  dw_ip_address :: "string option"

record device_ethernet_data =
  de_enabled :: "bool option"
  de_static_ip :: "device_static_ip_data option"

record device_bluetooth_data =
  db_enabled :: "bool option"
  db_name :: "string option"
  db_password :: "string option"

record device_connectivity_data =
  dc_wifi_direct :: "device_wifi_direct_data option"
  dc_ethernet :: "device_ethernet_data option"
  dc_bluetooth :: "device_bluetooth_data option"

record device_data =
  dd_name :: "string option"
  dd_model :: "string option"
  dd_version :: "string option"
  dd_serial_number :: "string option"
  dd_manufacturer :: "string option"
  dd_timezone :: "string option"
  dd_timestamp :: "string option"
  dd_connectivity :: "device_connectivity_data option"

record storage_data =
  sd_log :: "string option"
  sd_video :: "string option"
  sd_snapshots :: "string option"
  sd_thumbnails :: "string option"
  sd_min_free_bytes :: "u64 option"

record wifi_direct_data =
  wd_enabled :: "bool option"
  wd_ssid :: "string option"
  wd_passphrase :: "string option"
  wd_channel :: "u32 option"
  wd_ip_address :: "string option"

text \<open>The arrays of 9 and 5 floats are lists; reading one asks for exactly that many.\<close>

record calibration_camera_device_data =
  cd_id :: "u32 option"
  cd_intrinsic_matrix :: "fl list option"
  cd_distortion_coefficients :: "fl list option"
  cd_last_calibration_date :: "string option"

record calibration_cameras_data =
  cc_exposure :: "u32 option"
  cc_gain :: "fl option"
  cc_white_balance :: "u32 option"
  cc_focus :: "u32 option"
  cc_width :: "u32 option"
  cc_height :: "u32 option"
  cc_format :: "u32 option"
  cc_fps :: "u32 option"
  cc_device :: "calibration_camera_device_data list option"

record calibration_microphone_device_data =
  md_id :: "u32 option"
  md_sensitivity :: "fl option"
  md_last_calibration_date :: "string option"

record calibration_microphones_data =
  mc_noise_reduction :: "bool option"
  mc_device :: "calibration_microphone_device_data list option"

record calibration_data =
  cal_cameras :: "calibration_cameras_data option"
  cal_microphones :: "calibration_microphones_data option"

record config_data =
  cfg_calibration :: calibration_data
  cfg_device :: device_data
  cfg_storage :: storage_data
  cfg_wifi_direct :: wifi_direct_data

definition kIntrinsicMatrixSize :: nat where "kIntrinsicMatrixSize = 9"
definition kDistortionCoeffCount :: nat where "kDistortionCoeffCount = 5"

text \<open>ConfigReturn: success with the data, or failure.\<close>

type_synonym 'a config_return = "'a option"

section \<open>Reading optional fields\<close>

record 'j json_lib =
  jl_contains :: "'j \<Rightarrow> string \<Rightarrow> bool"
  jl_at :: "'j \<Rightarrow> string \<Rightarrow> 'j"
  jl_is_null :: "'j \<Rightarrow> bool"
  jl_bool :: "'j \<Rightarrow> string + bool"
  jl_string :: "'j \<Rightarrow> string + string"
  jl_u32 :: "'j \<Rightarrow> string + u32"
  jl_u64 :: "'j \<Rightarrow> string + u64"
  jl_float :: "'j \<Rightarrow> string + fl"
  jl_vector :: "'j \<Rightarrow> string + 'j list"
  jl_array :: "nat \<Rightarrow> 'j \<Rightarrow> string + 'j list"

definition json_get_opt ::
  "'j json_lib \<Rightarrow> ('j \<Rightarrow> string + 'a) \<Rightarrow> 'j \<Rightarrow> string \<Rightarrow>
   (('a option \<Rightarrow> 'a option) \<Rightarrow> 'v \<Rightarrow> 'v) \<Rightarrow> 'v \<Rightarrow> string + 'v" where
  "json_get_opt J get obj key upd v =
     (if jl_contains J obj key \<and> \<not> jl_is_null J (jl_at J obj key)
      then case get (jl_at J obj key) of
             Inl e \<Rightarrow> Inl e
           | Inr x \<Rightarrow> Inr (upd (\<lambda>_. Some x) v)
      else Inr v)"

text \<open>One reader after the other; an exception ends the sequence.\<close>

fun run_fields :: "('v \<Rightarrow> string + 'v) list \<Rightarrow> 'v \<Rightarrow> string + 'v" where
  "run_fields [] v = Inr v"
| "run_fields (f # fs) v = (case f v of Inl e \<Rightarrow> Inl e | Inr v1 \<Rightarrow> run_fields fs v1)"

fun get_all :: "('j \<Rightarrow> string + 'a) \<Rightarrow> 'j list \<Rightarrow> string + 'a list" where
  "get_all get [] = Inr []"
| "get_all get (j # js) =
     (case get j of
        Inl e \<Rightarrow> Inl e
      | Inr x \<Rightarrow> (case get_all get js of Inl e \<Rightarrow> Inl e | Inr xs \<Rightarrow> Inr (x # xs)))"

definition get_vector :: "'j json_lib \<Rightarrow> ('j \<Rightarrow> string + 'a) \<Rightarrow> 'j \<Rightarrow> string + 'a list" where
  "get_vector J get j = (case jl_vector J j of Inl e \<Rightarrow> Inl e | Inr js \<Rightarrow> get_all get js)"

definition get_float_array :: "'j json_lib \<Rightarrow> nat \<Rightarrow> 'j \<Rightarrow> string + fl list" where
  "get_float_array J n j =
     (case jl_array J n j of Inl e \<Rightarrow> Inl e | Inr js \<Rightarrow> get_all (jl_float J) js)"

section \<open>The readers\<close>

definition from_json_static_ip :: "'j json_lib \<Rightarrow> 'j \<Rightarrow> string + device_static_ip_data" where
  "from_json_static_ip J j =
     run_fields
       [json_get_opt J (jl_bool J) j ''enabled'' si_enabled_update,
        json_get_opt J (jl_string J) j ''ip_address'' si_ip_address_update,
        json_get_opt J (jl_string J) j ''subnet_mask'' si_subnet_mask_update,
        json_get_opt J (jl_string J) j ''gateway'' si_gateway_update]
       \<lparr>si_enabled = None, si_ip_address = None, si_subnet_mask = None, si_gateway = None\<rparr>"

definition from_json_device_wifi_direct ::
  "'j json_lib \<Rightarrow> 'j \<Rightarrow> string + device_wifi_direct_data" where
  "from_json_device_wifi_direct J j =
     run_fields
       [json_get_opt J (jl_bool J) j ''enabled'' dw_enabled_update,
        json_get_opt J (jl_string J) j ''ssid'' dw_ssid_update,
        json_get_opt J (jl_string J) j ''passphrase'' dw_passphrase_update,
        json_get_opt J (jl_u32 J) j ''channel'' dw_channel_update,
        json_get_opt J (jl_string J) j ''ip_address'' dw_ip_address_update]
       \<lparr>dw_enabled = None, dw_ssid = None, dw_passphrase = None, dw_channel = None,
        dw_ip_address = None\<rparr>"

definition from_json_ethernet :: "'j json_lib \<Rightarrow> 'j \<Rightarrow> string + device_ethernet_data" where
  "from_json_ethernet J j =
     run_fields
       [json_get_opt J (jl_bool J) j ''enabled'' de_enabled_update,
        json_get_opt J (from_json_static_ip J) j ''static_ip'' de_static_ip_update]
       \<lparr>de_enabled = None, de_static_ip = None\<rparr>"

definition from_json_bluetooth :: "'j json_lib \<Rightarrow> 'j \<Rightarrow> string + device_bluetooth_data" where
  "from_json_bluetooth J j =
     run_fields
       [json_get_opt J (jl_bool J) j ''enabled'' db_enabled_update,
        json_get_opt J (jl_string J) j ''name'' db_name_update,
        json_get_opt J (jl_string J) j ''password'' db_password_update]
       \<lparr>db_enabled = None, db_name = None, db_password = None\<rparr>"

definition from_json_connectivity :: "'j json_lib \<Rightarrow> 'j \<Rightarrow> string + device_connectivity_data" where
  "from_json_connectivity J j =
     run_fields
       [json_get_opt J (from_json_device_wifi_direct J) j ''wifi_direct'' dc_wifi_direct_update,
        json_get_opt J (from_json_ethernet J) j ''ethernet'' dc_ethernet_update,
        json_get_opt J (from_json_bluetooth J) j ''bluetooth'' dc_bluetooth_update]
       \<lparr>dc_wifi_direct = None, dc_ethernet = None, dc_bluetooth = None\<rparr>"

definition device_data_default :: device_data where
  "device_data_default =
     \<lparr>dd_name = None, dd_model = None, dd_version = None, dd_serial_number = None,
      dd_manufacturer = None, dd_timezone = None, dd_timestamp = None, dd_connectivity = None\<rparr>"

definition from_json_device :: "'j json_lib \<Rightarrow> 'j \<Rightarrow> string + device_data" where
  "from_json_device J j =
     run_fields
       [json_get_opt J (jl_string J) j ''name'' dd_name_update,
        json_get_opt J (jl_string J) j ''model'' dd_model_update,
        json_get_opt J (jl_string J) j ''version'' dd_version_update,
        json_get_opt J (jl_string J) j ''serial_number'' dd_serial_number_update,
        json_get_opt J (jl_string J) j ''manufacturer'' dd_manufacturer_update,
        json_get_opt J (jl_string J) j ''timezone'' dd_timezone_update,
        json_get_opt J (jl_string J) j ''timestamp'' dd_timestamp_update,
        json_get_opt J (from_json_connectivity J) j ''connectivity'' dd_connectivity_update]
       device_data_default"

definition storage_data_default :: storage_data where
  "storage_data_default =
     \<lparr>sd_log = None, sd_video = None, sd_snapshots = None, sd_thumbnails = None,
      sd_min_free_bytes = None\<rparr>"

definition from_json_storage :: "'j json_lib \<Rightarrow> 'j \<Rightarrow> string + storage_data" where
  "from_json_storage J j =
     run_fields
       [json_get_opt J (jl_string J) j ''log'' sd_log_update,
        json_get_opt J (jl_string J) j ''video'' sd_video_update,
        json_get_opt J (jl_string J) j ''snapshots'' sd_snapshots_update,
        json_get_opt J (jl_string J) j ''thumbnails'' sd_thumbnails_update,
        json_get_opt J (jl_u64 J) j ''min_free_bytes'' sd_min_free_bytes_update]
       storage_data_default"

definition wifi_direct_data_default :: wifi_direct_data where
  "wifi_direct_data_default =
     \<lparr>wd_enabled = None, wd_ssid = None, wd_passphrase = None, wd_channel = None,
      wd_ip_address = None\<rparr>"

definition from_json_wifi_direct :: "'j json_lib \<Rightarrow> 'j \<Rightarrow> string + wifi_direct_data" where
  "from_json_wifi_direct J j =
     run_fields
       [json_get_opt J (jl_bool J) j ''enabled'' wd_enabled_update,
        json_get_opt J (jl_string J) j ''ssid'' wd_ssid_update,
        json_get_opt J (jl_string J) j ''passphrase'' wd_passphrase_update,
        json_get_opt J (jl_u32 J) j ''channel'' wd_channel_update,
        json_get_opt J (jl_string J) j ''ip_address'' wd_ip_address_update]
       wifi_direct_data_default"

definition from_json_camera_device ::
  "'j json_lib \<Rightarrow> 'j \<Rightarrow> string + calibration_camera_device_data" where
  "from_json_camera_device J j =
     run_fields
       [json_get_opt J (jl_u32 J) j ''id'' cd_id_update,
        json_get_opt J (get_float_array J kIntrinsicMatrixSize) j ''intrinsic_matrix''
          cd_intrinsic_matrix_update,
        json_get_opt J (get_float_array J kDistortionCoeffCount) j ''distortion_coefficients''
          cd_distortion_coefficients_update,
        json_get_opt J (jl_string J) j ''last_calibration_date'' cd_last_calibration_date_update]
       \<lparr>cd_id = None, cd_intrinsic_matrix = None, cd_distortion_coefficients = None,
        cd_last_calibration_date = None\<rparr>"

definition from_json_cameras :: "'j json_lib \<Rightarrow> 'j \<Rightarrow> string + calibration_cameras_data" where
  "from_json_cameras J j =
     run_fields
       [json_get_opt J (jl_u32 J) j ''exposure'' cc_exposure_update,
        json_get_opt J (jl_float J) j ''gain'' cc_gain_update,
        json_get_opt J (jl_u32 J) j ''white_balance'' cc_white_balance_update,
        json_get_opt J (jl_u32 J) j ''focus'' cc_focus_update,
        json_get_opt J (jl_u32 J) j ''width'' cc_width_update,
        json_get_opt J (jl_u32 J) j ''height'' cc_height_update,
        json_get_opt J (jl_u32 J) j ''format'' cc_format_update,
        json_get_opt J (jl_u32 J) j ''fps'' cc_fps_update,
        json_get_opt J (get_vector J (from_json_camera_device J)) j ''device'' cc_device_update]
       \<lparr>cc_exposure = None, cc_gain = None, cc_white_balance = None, cc_focus = None,
        cc_width = None, cc_height = None, cc_format = None, cc_fps = None, cc_device = None\<rparr>"

definition from_json_microphone_device ::
  "'j json_lib \<Rightarrow> 'j \<Rightarrow> string + calibration_microphone_device_data" where
  "from_json_microphone_device J j =
     run_fields
       [json_get_opt J (jl_u32 J) j ''id'' md_id_update,
        json_get_opt J (jl_float J) j ''sensitivity'' md_sensitivity_update,
        json_get_opt J (jl_string J) j ''last_calibration_date'' md_last_calibration_date_update]
       \<lparr>md_id = None, md_sensitivity = None, md_last_calibration_date = None\<rparr>"

definition from_json_microphones :: "'j json_lib \<Rightarrow> 'j \<Rightarrow> string + calibration_microphones_data" where
  "from_json_microphones J j =
     run_fields
       [json_get_opt J (jl_bool J) j ''noise_reduction'' mc_noise_reduction_update,
        json_get_opt J (get_vector J (from_json_microphone_device J)) j ''device'' mc_device_update]
       \<lparr>mc_noise_reduction = None, mc_device = None\<rparr>"

definition calibration_data_default :: calibration_data where
  "calibration_data_default = \<lparr>cal_cameras = None, cal_microphones = None\<rparr>"

definition from_json_calibration :: "'j json_lib \<Rightarrow> 'j \<Rightarrow> string + calibration_data" where
  "from_json_calibration J j =
     run_fields
       [json_get_opt J (from_json_cameras J) j ''cameras'' cal_cameras_update,
        json_get_opt J (from_json_microphones J) j ''microphones'' cal_microphones_update]
       calibration_data_default"

section \<open>The file reader and the loader\<close>

text \<open>\<^verbatim>\<open>parse\<close> opens and parses a file: None when it cannot be opened, an exception when it is not
  JSON.\<close>

definition json_load ::
  "(string \<Rightarrow> (string + 'j) option) \<Rightarrow> ('j \<Rightarrow> string + 'a) \<Rightarrow> string \<Rightarrow> 'a config_return" where
  "json_load parse from_json path =
     (case parse path of
        None \<Rightarrow> None
      | Some (Inl _) \<Rightarrow> None
      | Some (Inr j) \<Rightarrow> (case from_json j of Inl _ \<Rightarrow> None | Inr v \<Rightarrow> Some v))"

definition make_path :: "string \<Rightarrow> string \<Rightarrow> string \<Rightarrow> string" where
  "make_path dir filename ext =
     (let name = filename @ ''.'' @ ext
      in if dir = [] \<or> last dir = CHR ''/'' then dir @ name else dir @ ''/'' @ name)"

record config_loader =
  cl_root_path :: string
  cl_file_type :: string
  cl_adapters :: bool

definition config_loader_new :: "string \<Rightarrow> string \<Rightarrow> string + config_loader" where
  "config_loader_new dir file_type =
     (if file_type = ''json''
      then Inr \<lparr>cl_root_path = dir, cl_file_type = file_type, cl_adapters = True\<rparr>
      else Inl (''Unsupported config file type: '' @ file_type))"

definition config_loader_get ::
  "'j json_lib \<Rightarrow> (string \<Rightarrow> (string + 'j) option) \<Rightarrow> config_loader \<Rightarrow> string + config_data" where
  "config_loader_get J parse l =
     (if \<not> cl_adapters l then Inl ''ConfigLoader adapters not initialized''
      else
        let path = (\<lambda>name. make_path (cl_root_path l) name (cl_file_type l))
        in case (json_load parse (from_json_device J) (path ''device''),
                 json_load parse (from_json_calibration J) (path ''calibration''),
                 json_load parse (from_json_storage J) (path ''storage''),
                 json_load parse (from_json_wifi_direct J) (path ''wifi-direct'')) of
             (Some d, Some c, Some s, Some w) \<Rightarrow>
               Inr \<lparr>cfg_calibration = c, cfg_device = d, cfg_storage = s, cfg_wifi_direct = w\<rparr>
           | _ \<Rightarrow> Inl ''failed to load configuration files'')"

section \<open>Model version\<close>

text \<open>\<^verbatim>\<open>std::from_chars\<close> for int: an optional minus, then digits.  None is invalid input; otherwise
  the value (None out of range) and what is left of the input.\<close>

definition from_chars_int :: "string \<Rightarrow> (int option \<times> string) option" where
  "from_chars_int s =
     (let neg = (s \<noteq> [] \<and> hd s = CHR ''-'');
          body = (if neg then tl s else s);
          ds = takeWhile is_digit body;
          n = foldl (\<lambda>acc c. acc * 10 + digit_val c) 0 ds;
          v = (if neg then - int n else int n)
      in if ds = [] then None
         else Some (if - (2 ^ 31) \<le> v \<and> v < 2 ^ 31 then Some v else None, dropWhile is_digit body))"

definition parse_model_version :: "string \<Rightarrow> int option" where
  "parse_model_version model =
     (if length model < 2 then None
      else if hd model \<noteq> CHR ''v'' \<and> hd model \<noteq> CHR ''V'' then None
      else case from_chars_int (tl model) of
             None \<Rightarrow> None
           | Some (None, _) \<Rightarrow> None
           | Some (Some v, rest) \<Rightarrow> if rest \<noteq> [] then None else Some v)"

section \<open>Advertised name\<close>

definition kBleNamePrefix :: string where "kBleNamePrefix = ''sst-cam-''"
definition kUnitNumberWrap :: u32 where "kUnitNumberWrap = 10000"
definition kDecimalBase :: u64 where "kDecimalBase = 10"
definition kSerialParseBound :: u64 where "kSerialParseBound = 1000000000"

text \<open>\<^verbatim>\<open>fmt04\<close> prints an integer with at least four digits.\<close>

definition make_advertised_name :: "(nat \<Rightarrow> string) \<Rightarrow> u32 \<Rightarrow> string" where
  "make_advertised_name fmt04 unit_number =
     kBleNamePrefix @ fmt04 (unat (unit_number mod kUnitNumberWrap))"

fun derive_unit_loop :: "u64 \<Rightarrow> bool \<Rightarrow> string \<Rightarrow> u64" where
  "derive_unit_loop v saw [] = v"
| "derive_unit_loop v saw (c # cs) =
     (if is_digit c
      then derive_unit_loop ((v * kDecimalBase + of_nat (digit_val c)) mod kSerialParseBound) True cs
      else if saw then v else derive_unit_loop v saw cs)"

definition derive_unit_number :: "string \<Rightarrow> u32" where
  "derive_unit_number serial = ucast (derive_unit_loop 0 False serial)"

section \<open>Identifiers\<close>

definition hex_digit :: "nat \<Rightarrow> char" where
  "hex_digit n = (if n < 10 then char_of (48 + n) else char_of (87 + n))"

text \<open>fmt's \<^verbatim>\<open>{:02x}\<close> of a byte and \<^verbatim>\<open>{:08x}\<close> of a word are arguments; \<^verbatim>\<open>high\<close> and \<^verbatim>\<open>low\<close> are the
  two numbers drawn.\<close>

definition uuid_bytes :: "u64 \<Rightarrow> u64 \<Rightarrow> u8 list" where
  "uuid_bytes high low =
     (let bytes = map (\<lambda>i. ucast (drop_bit (i * 8) high)) [0 ..< 8] @
                  map (\<lambda>i. ucast (drop_bit (i * 8) low)) [0 ..< 8];
          bytes1 = bytes[6 := or (and (bytes ! 6) 0x0F) 0x40]
      in bytes1[8 := or (and (bytes1 ! 8) 0x3F) 0x80])"

definition make_uuid_v4 :: "(u8 \<Rightarrow> string) \<Rightarrow> u64 \<Rightarrow> u64 \<Rightarrow> string" where
  "make_uuid_v4 fmt02x high low =
     (let hex = (\<lambda>a b. concat (map fmt02x (take (b - a) (drop a (uuid_bytes high low)))))
      in hex 0 4 @ ''-'' @ hex 4 6 @ ''-'' @ hex 6 8 @ ''-'' @ hex 8 10 @ ''-'' @ hex 10 16)"

definition make_secure_token :: "(u32 \<Rightarrow> string) \<Rightarrow> u32 \<Rightarrow> u32 \<Rightarrow> u32 \<Rightarrow> u32 \<Rightarrow> string" where
  "make_secure_token fmt08x a b c d = fmt08x a @ fmt08x b @ fmt08x c @ fmt08x d"

section \<open>Properties of loading\<close>

text \<open>A reader looks at the keys it names and at nothing else.\<close>

definition same_keys :: "'j json_lib \<Rightarrow> string list \<Rightarrow> 'j \<Rightarrow> 'j \<Rightarrow> bool" where
  "same_keys J ks a b \<longleftrightarrow>
     list_all (\<lambda>k. jl_contains J a k = jl_contains J b k \<and>
       (jl_contains J a k \<longrightarrow> jl_at J a k = jl_at J b k)) ks"

lemma json_get_opt_cong:
  "same_keys J [k] a b \<Longrightarrow> json_get_opt J g a k u = json_get_opt J g b k u"
  by (auto simp: same_keys_def json_get_opt_def fun_eq_iff)

lemma same_keys_Cons [simp]:
  "same_keys J (k # l # ks) a b \<longleftrightarrow> same_keys J [k] a b \<and> same_keys J (l # ks) a b"
  by (auto simp: same_keys_def)

text \<open>Storage and device settings depend only on the keys the readers name: two documents
  that agree on those give the same settings or the same error, and a document that has none of
  them, even one that is not an object, is read as settings with every field unset.\<close>

theorem config_declared_keys:
  "(same_keys J [''log'', ''video'', ''snapshots'', ''thumbnails'', ''min_free_bytes''] a b \<longrightarrow>
      from_json_storage J a = from_json_storage J b) \<and>
   (same_keys J [''name'', ''model'', ''version'', ''serial_number'', ''manufacturer'', ''timezone'',
       ''timestamp'', ''connectivity''] a b \<longrightarrow>
      from_json_device J a = from_json_device J b) \<and>
   ((\<forall>k. \<not> jl_contains J a k) \<longrightarrow>
      from_json_storage J a = Inr storage_data_default \<and>
      from_json_device J a = Inr device_data_default)"
proof (intro conjI impI)
  assume h: "same_keys J [''log'', ''video'', ''snapshots'', ''thumbnails'', ''min_free_bytes''] a b"
  show "from_json_storage J a = from_json_storage J b"
    using h by (simp add: from_json_storage_def json_get_opt_cong [where J = J and a = a and b = b])
next
  assume h: "same_keys J [''name'', ''model'', ''version'', ''serial_number'', ''manufacturer'', ''timezone'',
       ''timestamp'', ''connectivity''] a b"
  show "from_json_device J a = from_json_device J b"
    using h by (simp add: from_json_device_def json_get_opt_cong [where J = J and a = a and b = b])
qed (simp_all add: from_json_storage_def from_json_device_def json_get_opt_def)

text \<open>A document library in which a document is a list of named strings.\<close>

definition string_json :: "(string \<times> string) list json_lib" where
  "string_json =
     \<lparr>jl_contains = (\<lambda>j k. map_of j k \<noteq> None), jl_at = (\<lambda>j k. [([], the (map_of j k))]),
      jl_is_null = (\<lambda>j. j = []), jl_bool = (\<lambda>_. Inl ''type''),
      jl_string = (\<lambda>j. if j = [] then Inl ''type'' else Inr (snd (hd j))),
      jl_u32 = (\<lambda>_. Inl ''type''), jl_u64 = (\<lambda>_. Inl ''type''), jl_float = (\<lambda>_. Inl ''type''),
      jl_vector = (\<lambda>_. Inl ''type''), jl_array = (\<lambda>_ _. Inl ''type'')\<rparr>"

theorem config_declared_keys_witness:
  "from_json_storage string_json [(''video'', ''/v''), (''colour'', ''red'')] =
     from_json_storage string_json [(''video'', ''/v'')] \<and>
   from_json_storage string_json [(''video'', ''/v'')] =
     Inr (storage_data_default\<lparr>sd_video := Some ''/v''\<rparr>) \<and>
   from_json_device string_json [] = Inr device_data_default"
proof -
  have "from_json_storage string_json [(''video'', ''/v''), (''colour'', ''red'')] =
      from_json_storage string_json [(''video'', ''/v'')]"
    using config_declared_keys [of string_json "[(''video'', ''/v''), (''colour'', ''red'')]" "[(''video'', ''/v'')]"]
    by (simp add: same_keys_def string_json_def)
  moreover have "from_json_storage string_json [(''video'', ''/v'')] =
      Inr (storage_data_default\<lparr>sd_video := Some ''/v''\<rparr>)"
    by (simp add: from_json_storage_def json_get_opt_def string_json_def)
  moreover have "from_json_device string_json [] = Inr device_data_default"
    using config_declared_keys [of string_json "[]"] by (simp add: string_json_def)
  ultimately show ?thesis by simp
qed

section \<open>Numbers in names\<close>

lemma takeWhile_digits: "list_all is_digit ds \<Longrightarrow> takeWhile is_digit ds = ds"
  by (induction ds) auto

lemma dropWhile_digits: "list_all is_digit ds \<Longrightarrow> dropWhile is_digit ds = []"
  by (induction ds) auto

lemma show_nat_not_minus: "hd (show_nat n) \<noteq> CHR ''-''"
  using show_nat_digits [of n] by (cases "show_nat n") (auto simp: is_digit_def)

text \<open>A model name made of v or V and a number is parsed back to that number, and is refused
  as soon as the number does not fit an int.\<close>

theorem model_version_roundtrip:
  "parse_model_version (''v'' @ show_nat n) = (if n < 2 ^ 31 then Some (int n) else None) \<and>
   parse_model_version (''V'' @ show_nat n) = (if n < 2 ^ 31 then Some (int n) else None)"
proof -
  have len: "\<not> length (show_nat n) < 1" by (cases "show_nat n") auto
  have bound: "int n < 2 ^ 31 \<longleftrightarrow> n < 2 ^ 31"
    by (metis of_nat_less_iff of_nat_numeral of_nat_power)
  have t: "takeWhile is_digit (show_nat n) = show_nat n"
    "dropWhile is_digit (show_nat n) = []"
    by (rule takeWhile_digits dropWhile_digits, rule show_nat_digits)+
  have low: "- (2 ^ 31) \<le> int n" by simp
  have "from_chars_int (show_nat n) = Some (if n < 2 ^ 31 then Some (int n) else None, [])"
    using show_nat_not_minus [of n]
    by (simp only: from_chars_int_def Let_def t show_nat_value show_nat_nonempty low bound
      simp_thms if_False if_True)
  then show ?thesis using len by (simp add: parse_model_version_def)
qed

definition digits_value :: "string \<Rightarrow> nat" where
  "digits_value ds = foldl (\<lambda>acc c. acc * 10 + digit_val c) 0 ds"

lemma digits_value_snoc: "digits_value (ds @ [d]) = digits_value ds * 10 + digit_val d"
  by (simp add: digits_value_def)

lemma digit_val_bound: "is_digit c \<Longrightarrow> digit_val c < 10"
  by (auto simp: is_digit_def digit_val_def)

lemma derive_step:
  assumes "unat v < 10 ^ 9" "is_digit c"
  shows "unat ((v * kDecimalBase + of_nat (digit_val c)) mod kSerialParseBound) =
    (unat v * 10 + digit_val c) mod 10 ^ 9"
proof -
  have b: "unat v * 10 + digit_val c < 2 ^ 64" using assms digit_val_bound [of c] by simp
  have "unat (v * kDecimalBase + of_nat (digit_val c)) = unat v * 10 + digit_val c"
    using b by (simp add: kDecimalBase_def unat_word_ariths take_bit_nat_eq_self unat_of_nat)
  then show ?thesis by (simp add: unat_mod_distrib kSerialParseBound_def)
qed

lemma derive_digits:
  assumes "list_all is_digit ds" "unat v < 10 ^ 9" "post = [] \<or> \<not> is_digit (hd post)"
    "saw \<or> ds \<noteq> []"
  shows "unat (derive_unit_loop v saw (ds @ post)) =
    foldl (\<lambda>acc c. (acc * 10 + digit_val c) mod 10 ^ 9) (unat v) ds"
  using assms
proof (induction ds arbitrary: v saw)
  case Nil
  then show ?case by (cases post) auto
next
  case (Cons c ds)
  let ?v = "(v * kDecimalBase + of_nat (digit_val c)) mod kSerialParseBound"
  have "unat ?v = (unat v * 10 + digit_val c) mod 10 ^ 9"
    using Cons.prems by (intro derive_step) auto
  then show ?case using Cons.IH [of ?v True] Cons.prems by simp
qed

lemma foldl_digits_mod:
  "foldl (\<lambda>acc c. (acc * 10 + digit_val c) mod m) (a mod m) ds =
     foldl (\<lambda>acc c. acc * 10 + digit_val c) a ds mod m"
proof (induction ds arbitrary: a)
  case (Cons d ds)
  have "(a mod m * 10 + digit_val d) mod m = (a * 10 + digit_val d) mod m"
    by (metis mod_add_left_eq mod_mult_left_eq)
  then show ?case using Cons by simp
qed simp

lemma derive_prefix:
  assumes "list_all (\<lambda>c. \<not> is_digit c) pre"
  shows "derive_unit_loop v False (pre @ s) = derive_unit_loop v False s"
  using assms by (induction pre) auto

text \<open>The documented result of \<^verbatim>\<open>{:04}\<close>: decimal digits, filled with zeros to four.\<close>

definition zero_pad4 :: "nat \<Rightarrow> string" where
  "zero_pad4 n = replicate (4 - length (show_nat n)) (CHR ''0'') @ show_nat n"

text \<open>C37: The advertised name carries the last four digits of the first number in the serial
  number, whatever surrounds it and however long it is.\<close>

theorem advertised_name_digits:
  assumes "fmt04 = zero_pad4"
    and "list_all (\<lambda>c. \<not> is_digit c) pre" "list_all is_digit ds" "ds \<noteq> []"
    and "post = [] \<or> \<not> is_digit (hd post)"
  shows "make_advertised_name fmt04 (derive_unit_number (pre @ ds @ post)) =
    ''sst-cam-'' @ zero_pad4 (digits_value ds mod 10000)"
proof -
  have v: "unat (derive_unit_loop 0 False (pre @ ds @ post)) = digits_value ds mod 10 ^ 9"
    using derive_digits [of ds 0 post False] foldl_digits_mod [of "10 ^ 9" 0 ds] assms(3-5)
    by (simp add: derive_prefix [OF assms(2)] digits_value_def)
  have small: "digits_value ds mod 10 ^ 9 < 2 ^ 32"
    by (rule less_trans [of _ "10 ^ 9"]) simp_all
  have "unat (derive_unit_number (pre @ ds @ post)) = digits_value ds mod 10 ^ 9"
    using v small unat_ucast_small [of "derive_unit_loop 0 False (pre @ ds @ post)", where 'b = 32]
    by (simp add: derive_unit_number_def)
  then have "unat (derive_unit_number (pre @ ds @ post) mod kUnitNumberWrap) =
      digits_value ds mod 10 ^ 9 mod 10000"
    by (simp add: unat_mod_distrib kUnitNumberWrap_def)
  also have "\<dots> = digits_value ds mod 10000" by (simp add: mod_mod_cancel)
  finally show ?thesis by (simp add: make_advertised_name_def kBleNamePrefix_def assms(1))
qed

theorem advertised_name_digits_witness:
  "make_advertised_name zero_pad4 (derive_unit_number ''SN-1234567890123 rev B'') = ''sst-cam-0123''"
proof -
  have chars: "char_of (49 :: nat) = CHR ''1''" "char_of (50 :: nat) = CHR ''2''"
    "char_of (51 :: nat) = CHR ''3''"
    by code_simp+
  have "make_advertised_name zero_pad4 (derive_unit_number (''SN-'' @ ''1234567890123'' @ '' rev B'')) =
      ''sst-cam-'' @ zero_pad4 (digits_value ''1234567890123'' mod 10000)"
    by (rule advertised_name_digits) (simp_all add: is_digit_def)
  also have "\<dots> = ''sst-cam-0123''"
    by (simp add: zero_pad4_def digits_value_def digit_val_def show_nat.simps digit_char_def chars)
  finally show ?thesis by simp
qed

end
