(* ===== verification/Control.thy ===== *)
theory Control
  imports Config Recording Streaming Download Overlay Wifi RawSink
begin

text \<open>
  The command plane: the dispatcher (\<^verbatim>\<open>app/control/services/dispatcher\<close>) and one handler per
  concern (\<^verbatim>\<open>app/control/services/handlers\<close>).

  The protobuf messages are generated code; they are represented by the fields the firmware
  reads and writes, an enumeration by the values the firmware names and a catch-all for every
  other number (in particular the zero of an unset field).  A handler answers with a response,
  throws, or runs into undefined behaviour; it works on the services it holds references to.
\<close>

section \<open>Messages\<close>

datatype recording_action =
    RECORDING_START | RECORDING_STOP | RECORDING_PAUSE | RECORDING_RESUME | RECORDING_OTHER int

datatype streaming_action = STREAMING_START | STREAMING_STOP | STREAMING_OTHER int

datatype match_action =
    MATCH_KICKOFF | MATCH_PERIOD_START | MATCH_PERIOD_END | MATCH_FINAL_WHISTLE
  | MATCH_CLOCK_PAUSE | MATCH_CLOCK_RESUME | MATCH_OTHER int

record session_config_msg =
  sm_match_uuid :: string
  sm_user_uuid :: string
  sm_sport :: string
  sm_num_periods :: i32
  sm_period_length_seconds :: i32
  sm_rtmp_url :: "string option"
  sm_stream_key :: "string option"
  sm_video_output_path :: string
  sm_thumbnail_output_path :: string
  sm_team_a_id :: string
  sm_team_b_id :: string
  sm_team_a_name :: string
  sm_team_b_name :: string
  sm_team_a_color_hex :: string
  sm_team_b_color_hex :: string

datatype command_payload =
    PayloadNotSet
  | GetDeviceInfo
  | GetTelemetry
  | GetMatchState
  | PushSessionConfig session_config_msg
  | PushOverlayLayout pb_layout
  | RecordingControl recording_action
  | RawCapture "recording_action option" "string option"
  | StreamingControl streaming_action string
  | SetStreamingConfig string
  | MatchControl match_action u32
  | ScoreUpdate string i32
  | BannerEvent string "(string \<times> string) list" u32
  | ListRecordings
  | DownloadRequest string
  | Thumbnail u32 u32 u32
  | StartWifiDirect
  | StopWifiDirect
  | OtherPayload int

datatype payload_case =
    CaseNotSet | CaseGetDeviceInfo | CaseGetTelemetry | CaseGetMatchState
  | CasePushSessionConfig | CasePushOverlayLayout | CaseRecordingControl | CaseRawCapture
  | CaseStreamingControl | CaseSetStreamingConfig | CaseMatchControl | CaseScoreUpdate
  | CaseBannerEvent | CaseListRecordings | CaseDownloadRequest | CaseThumbnail
  | CaseStartWifiDirect | CaseStopWifiDirect | CaseOther int

fun payload_case_of :: "command_payload \<Rightarrow> payload_case" where
  "payload_case_of PayloadNotSet = CaseNotSet"
| "payload_case_of GetDeviceInfo = CaseGetDeviceInfo"
| "payload_case_of GetTelemetry = CaseGetTelemetry"
| "payload_case_of GetMatchState = CaseGetMatchState"
| "payload_case_of (PushSessionConfig _) = CasePushSessionConfig"
| "payload_case_of (PushOverlayLayout _) = CasePushOverlayLayout"
| "payload_case_of (RecordingControl _) = CaseRecordingControl"
| "payload_case_of (RawCapture _ _) = CaseRawCapture"
| "payload_case_of (StreamingControl _ _) = CaseStreamingControl"
| "payload_case_of (SetStreamingConfig _) = CaseSetStreamingConfig"
| "payload_case_of (MatchControl _ _) = CaseMatchControl"
| "payload_case_of (ScoreUpdate _ _) = CaseScoreUpdate"
| "payload_case_of (BannerEvent _ _ _) = CaseBannerEvent"
| "payload_case_of ListRecordings = CaseListRecordings"
| "payload_case_of (DownloadRequest _) = CaseDownloadRequest"
| "payload_case_of (Thumbnail _ _ _) = CaseThumbnail"
| "payload_case_of StartWifiDirect = CaseStartWifiDirect"
| "payload_case_of StopWifiDirect = CaseStopWifiDirect"
| "payload_case_of (OtherPayload n) = CaseOther n"

record command =
  cm_correlation_id :: string
  cm_payload :: command_payload

datatype response_status = StatusOk | StatusError | StatusUnsupported

record device_info =
  di_device_id :: string
  di_name :: string
  di_firmware_version :: string
  di_model :: string
  di_protocol_version :: u32

record system_stats =
  sy_storage_free_bytes :: u64
  sy_storage_total_bytes :: u64
  sy_temp_celsius :: fl
  sy_ram_used_pct :: fl
  sy_cpu_used_pct :: fl
  sy_uptime_seconds :: u64
  sy_battery_level_pct :: u32

datatype pb_wifi_state = WIFI_UNKNOWN

record telemetry =
  te_stats :: system_stats
  te_is_recording :: bool
  te_is_streaming :: bool
  te_is_raw_capturing :: bool
  te_wifi_state :: pb_wifi_state
  te_internet_reachable :: bool

datatype match_status =
    MATCH_NOT_STARTED | MATCH_ACTIVE | MATCH_PAUSED | MATCH_HALF_TIME | MATCH_FINISHED

record match_state =
  ms_status :: match_status
  ms_current_period :: u32
  ms_time_remaining_s :: u32
  ms_score_a :: u32
  ms_score_b :: u32
  ms_team_a_id :: string
  ms_team_b_id :: string
  ms_updated_at :: u64

record recording_metadata =
  rm_summary :: recording_summary
  rm_raw :: "(u32 \<times> string) option"

record download_token_msg =
  dm_recording_id :: string
  dm_http_url :: string
  dm_auth_token :: string
  dm_expires_at :: u64

record wifi_group_msg =
  wgm_ssid :: string
  wgm_psk :: string
  wgm_group_owner_ip :: string
  wgm_preview_port :: u32
  wgm_download_port :: u32
  wgm_role :: string

datatype response_payload =
    NoPayload
  | DeviceInfoPayload device_info
  | TelemetryPayload telemetry
  | MatchStatePayload match_state
  | RecordingListPayload "recording_metadata list"
  | DownloadTokenPayload download_token_msg
  | ThumbnailPayload "u8 list" u64
  | WifiDirectGroupPayload wifi_group_msg

record command_response =
  cr_correlation_id :: string
  cr_status :: response_status
  cr_error_message :: string
  cr_payload :: response_payload

definition reply_ok :: "response_payload \<Rightarrow> command_response" where
  "reply_ok p =
     \<lparr>cr_correlation_id = [], cr_status = StatusOk, cr_error_message = [], cr_payload = p\<rparr>"

definition reply_error :: "string \<Rightarrow> command_response" where
  "reply_error msg =
     \<lparr>cr_correlation_id = [], cr_status = StatusError, cr_error_message = msg,
      cr_payload = NoPayload\<rparr>"

definition reply_unsupported :: "string \<Rightarrow> command_response" where
  "reply_unsupported msg =
     \<lparr>cr_correlation_id = [], cr_status = StatusUnsupported, cr_error_message = msg,
      cr_payload = NoPayload\<rparr>"

lemmas replies = reply_ok_def reply_error_def reply_unsupported_def

section \<open>The dispatcher\<close>

datatype handle_result =
    Responds command_response
  | Throws string
  | Undefined

text \<open>A handler works on \<^typ>\<open>'w\<close> in an environment \<^typ>\<open>'e\<close> of answers from outside.\<close>

record ('e, 'w) command_handler =
  ha_cases :: "payload_case list"
  ha_handle :: "'e \<Rightarrow> command_payload \<Rightarrow> 'w \<Rightarrow> handle_result \<times> 'w"

type_synonym ('e, 'w) dispatcher = "(payload_case \<times> ('e, 'w) command_handler) list"

definition try_emplace :: "'k \<Rightarrow> 'v \<Rightarrow> ('k \<times> 'v) list \<Rightarrow> ('k \<times> 'v) list" where
  "try_emplace k v m = (if map_of m k = None then m @ [(k, v)] else m)"

definition register_handler ::
  "('e, 'w) command_handler option \<Rightarrow> ('e, 'w) dispatcher \<Rightarrow> ('e, 'w) dispatcher" where
  "register_handler handler d =
     (case handler of
        None \<Rightarrow> d
      | Some h \<Rightarrow> fold (\<lambda>k m. try_emplace k h m) (ha_cases h) d)"

definition dispatch ::
  "('e, 'w) dispatcher \<Rightarrow> 'e \<Rightarrow> command \<Rightarrow> 'w \<Rightarrow> command_response option \<times> 'w" where
  "dispatch d e cmd w =
     (if payload_case_of (cm_payload cmd) = CaseNotSet
      then (Some ((reply_unsupported ''empty command: no payload set'')
              \<lparr>cr_correlation_id := cm_correlation_id cmd\<rparr>), w)
      else case map_of d (payload_case_of (cm_payload cmd)) of
             None \<Rightarrow>
               (Some ((reply_unsupported ''command not supported on this firmware'')
                  \<lparr>cr_correlation_id := cm_correlation_id cmd\<rparr>), w)
           | Some h \<Rightarrow>
               (case ha_handle h e (cm_payload cmd) w of
                  (Responds r, w1) \<Rightarrow> (Some (r\<lparr>cr_correlation_id := cm_correlation_id cmd\<rparr>), w1)
                | (Throws msg, w1) \<Rightarrow>
                    (Some ((reply_error msg)\<lparr>cr_correlation_id := cm_correlation_id cmd\<rparr>), w1)
                | (Undefined, w1) \<Rightarrow> (None, w1)))"

end
