(* ===== verification/Handlers.thy ===== *)
theory Handlers
  imports Control
begin

text \<open>
  The handlers of \<^verbatim>\<open>app/control/services/handlers\<close>, each on the services it refers to.
\<close>

definition clock_value :: "u64 option \<Rightarrow> u64" where
  "clock_value now_ms = (case now_ms of None \<Rightarrow> 0 | Some t \<Rightarrow> t)"

section \<open>DeviceHandler\<close>

definition kProtocolVersion :: u32 where "kProtocolVersion = 1"

definition value_or :: "'a option \<Rightarrow> 'a \<Rightarrow> 'a" where
  "value_or v d = (case v of None \<Rightarrow> d | Some x \<Rightarrow> x)"

definition handle_device_info :: "device_data \<Rightarrow> command_response" where
  "handle_device_info d =
     reply_ok (DeviceInfoPayload
       \<lparr>di_device_id = value_or (dd_serial_number d) [], di_name = value_or (dd_name d) [],
        di_firmware_version = value_or (dd_version d) [], di_model = value_or (dd_model d) [],
        di_protocol_version = kProtocolVersion\<rparr>)"

text \<open>A flag provider is None when the function object is empty.\<close>

definition flag :: "bool option \<Rightarrow> bool" where
  "flag provider = (provider = Some True)"

definition handle_telemetry ::
  "system_stats \<Rightarrow> bool option \<Rightarrow> bool option \<Rightarrow> bool option \<Rightarrow> command_response" where
  "handle_telemetry stats is_recording is_streaming is_raw_capturing =
     reply_ok (TelemetryPayload
       \<lparr>te_stats = stats, te_is_recording = flag is_recording, te_is_streaming = flag is_streaming,
        te_is_raw_capturing = flag is_raw_capturing, te_wifi_state = WIFI_UNKNOWN,
        te_internet_reachable = False\<rparr>)"

definition device_handle ::
  "device_data \<Rightarrow> system_stats \<Rightarrow> bool option \<Rightarrow> bool option \<Rightarrow> bool option \<Rightarrow>
   command_payload \<Rightarrow> command_response" where
  "device_handle d stats rec str raw p =
     (if p = GetDeviceInfo then handle_device_info d else handle_telemetry stats rec str raw)"

section \<open>SessionHandler\<close>

definition session_config_of :: "session_config_msg \<Rightarrow> session_config" where
  "session_config_of m =
     \<lparr>sc_match_uuid = sm_match_uuid m, sc_user_uuid = sm_user_uuid m, sc_sport = sm_sport m,
      sc_num_periods = sm_num_periods m, sc_period_length_seconds = sm_period_length_seconds m,
      sc_rtmp_url = value_or (sm_rtmp_url m) [], sc_stream_key = value_or (sm_stream_key m) [],
      sc_video_output_path = sm_video_output_path m,
      sc_thumbnail_output_path = sm_thumbnail_output_path m, sc_team_a_id = sm_team_a_id m,
      sc_team_b_id = sm_team_b_id m, sc_team_a_name = sm_team_a_name m,
      sc_team_b_name = sm_team_b_name m, sc_team_a_color_hex = sm_team_a_color_hex m,
      sc_team_b_color_hex = sm_team_b_color_hex m\<rparr>"

definition session_handle ::
  "(string \<Rightarrow> bool) \<Rightarrow> session_config_msg \<Rightarrow> session_state \<Rightarrow>
   command_response \<times> session_state" where
  "session_handle mkdirs m s =
     (case apply_session_config mkdirs (session_config_of m) s of
        (True, s1) \<Rightarrow> (reply_ok NoPayload, s1)
      | (False, s1) \<Rightarrow>
          (reply_error
             ''session config rejected: WiFi Direct group must be up first (out of order)'', s1))"

section \<open>RecordingHandler\<close>

definition recording_handle ::
  "'r recorder_ops \<Rightarrow> bool \<Rightarrow> (frame \<Rightarrow> string \<Rightarrow> bool) \<Rightarrow> recording_action \<Rightarrow>
   session_state \<times> 'r recording_service \<Rightarrow>
   command_response \<times> session_state \<times> 'r recording_service" where
  "recording_handle ro disk_ok write_thumb action w =
     (case w of (s, r) \<Rightarrow>
        case action of
          RECORDING_START \<Rightarrow>
            (case ss_config (session_snapshot s) of
               None \<Rightarrow> (reply_error ''recording start with no active session config'', s, r)
             | Some cfg \<Rightarrow>
                 if ss_phase (session_snapshot s) \<noteq> Ready
                 then (reply_error ''recording start rejected: session not ready'', s, r)
                 else
                   case start_recording ro disk_ok (sc_video_output_path cfg)
                          (sc_thumbnail_output_path cfg) r of
                     (False, r1) \<Rightarrow>
                       (reply_error ''recorder failed to start (disk full or already running)'', s, r1)
                   | (True, r1) \<Rightarrow>
                       (case on_recording_start s of
                          (False, s1) \<Rightarrow>
                            (reply_error ''recording start rejected: session not ready'', s1,
                             snd (stop_recording ro write_thumb r1))
                        | (True, s1) \<Rightarrow> (reply_ok NoPayload, s1, r1)))
        | RECORDING_STOP \<Rightarrow>
            (case stop_recording ro write_thumb r of (result, r1) \<Rightarrow>
               let s1 = snd (on_recording_stop s)
               in (if sr_success result then reply_ok NoPayload
                   else reply_error ''no active recording to stop'', s1, r1))
        | RECORDING_PAUSE \<Rightarrow>
            (case pause_recording ro r of (ok, r1) \<Rightarrow>
               (if ok then reply_ok NoPayload else reply_error ''cannot pause: not recording'', s, r1))
        | RECORDING_RESUME \<Rightarrow>
            (case resume_recording ro r of (ok, r1) \<Rightarrow>
               (if ok then reply_ok NoPayload else reply_error ''cannot resume: not paused'', s, r1))
        | RECORDING_OTHER _ \<Rightarrow> (reply_error ''unknown recording action'', s, r))"

section \<open>RawCaptureHandler\<close>

text \<open>An absent action and an absent group id are None; \<^verbatim>\<open>raw.action()\<close> of a present one.\<close>

definition raw_capture_handle ::
  "bool \<Rightarrow> (string \<Rightarrow> bool) \<Rightarrow> disk_answer \<Rightarrow> recording_action option \<Rightarrow> string option \<Rightarrow>
   raw_sink \<Rightarrow> command_response \<times> raw_sink" where
  "raw_capture_handle mkdir_ok can_open disk action capture_group_id k =
     (case action of
        None \<Rightarrow> (reply_error ''raw capture: action not set'', k)
      | Some a \<Rightarrow>
          (case a of
             RECORDING_START \<Rightarrow>
               (case capture_group_id of
                  None \<Rightarrow> (reply_error ''raw capture start: missing capture_group_id'', k)
                | Some gid \<Rightarrow>
                    if gid = [] then (reply_error ''raw capture start: missing capture_group_id'', k)
                    else
                      (case raw_start mkdir_ok can_open gid k of
                         (False, k1) \<Rightarrow>
                           (reply_error ''raw capture failed to start (already capturing or I/O)'', k1)
                       | (True, k1) \<Rightarrow> (reply_ok NoPayload, k1)))
           | RECORDING_STOP \<Rightarrow>
               (case raw_stop disk k of
                  (False, k1) \<Rightarrow> (reply_error ''raw capture stop: no active raw capture'', k1)
                | (True, k1) \<Rightarrow> (reply_ok NoPayload, k1))
           | RECORDING_PAUSE \<Rightarrow>
               (reply_unsupported ''raw capture does not support pause/resume'', k)
           | RECORDING_RESUME \<Rightarrow>
               (reply_unsupported ''raw capture does not support pause/resume'', k)
           | RECORDING_OTHER _ \<Rightarrow> (reply_error ''raw capture: unsupported action'', k)))"

section \<open>StreamingHandler\<close>

definition kEgressStreamId :: int where "kEgressStreamId = 1"

definition egress_config :: "string \<Rightarrow> platform_stream_config" where
  "egress_config destination =
     platform_stream_config_default
       \<lparr>pc_stream_id := kEgressStreamId, pc_name := ''egress'', pc_type := Rtmp,
        pc_url := destination\<rparr>"

text \<open>\<^verbatim>\<open>url\<close> is the configured URL.\<close>

definition streaming_handle_control ::
  "'p streamer_ops \<Rightarrow> 'p option \<Rightarrow> streaming_action \<Rightarrow> string \<Rightarrow>
   string \<times> ('a, 'p) streaming_service \<Rightarrow>
   command_response \<times> string \<times> ('a, 'p) streaming_service" where
  "streaming_handle_control po factory action dest w =
     (case w of (url, st) \<Rightarrow>
        if action = STREAMING_START
        then
          let destination = (if dest = [] then url else dest)
          in if destination = []
             then (reply_error ''streaming start: no destination provided or configured'', url, st)
             else
               (case start_platform_stream po factory (egress_config destination) st of
                  (False, st1) \<Rightarrow>
                    (reply_error ''streaming start failed (already streaming or bad destination)'',
                     url, st1)
                | (True, st1) \<Rightarrow> (reply_ok NoPayload, url, st1))
        else if action = STREAMING_STOP
        then
          (case stop_platform_stream po kEgressStreamId st of (stopped, _, st1) \<Rightarrow>
             (if stopped then reply_ok NoPayload else reply_error ''no active stream to stop'',
              url, st1))
        else (reply_error ''unknown streaming action'', url, st))"

definition streaming_handle_set_config ::
  "string \<Rightarrow> string \<times> ('a, 'p) streaming_service \<Rightarrow>
   command_response \<times> string \<times> ('a, 'p) streaming_service" where
  "streaming_handle_set_config custom w =
     (case w of (url, st) \<Rightarrow> (reply_ok NoPayload, custom, st))"

text \<open>Handle: another payload would be read as a control message with every field unset.\<close>

definition streaming_handle ::
  "'p streamer_ops \<Rightarrow> 'p option \<Rightarrow> command_payload \<Rightarrow>
   string \<times> ('a, 'p) streaming_service \<Rightarrow>
   command_response \<times> string \<times> ('a, 'p) streaming_service" where
  "streaming_handle po factory p w =
     (case p of
        SetStreamingConfig custom \<Rightarrow> streaming_handle_set_config custom w
      | StreamingControl action dest \<Rightarrow> streaming_handle_control po factory action dest w
      | _ \<Rightarrow> streaming_handle_control po factory (STREAMING_OTHER 0) [] w)"

section \<open>DownloadHandler\<close>

definition metadata_of :: "recording_summary \<Rightarrow> recording_metadata" where
  "metadata_of r =
     \<lparr>rm_summary = r\<lparr>rsm_is_raw := False, rsm_camera_index := 0, rsm_capture_group_id := []\<rparr>,
      rm_raw = (if rsm_is_raw r then Some (rsm_camera_index r, rsm_capture_group_id r) else None)\<rparr>"

definition download_handle_list :: "bool \<Rightarrow> dir_entry list \<Rightarrow> command_response" where
  "download_handle_list root_exists tree =
     reply_ok (RecordingListPayload (map metadata_of (enumerate_recordings root_exists tree)))"

definition download_url :: "fmt_lib \<Rightarrow> string \<Rightarrow> u32 \<Rightarrow> string \<Rightarrow> string" where
  "download_url F ip port rid =
     ''http://'' @ ip @ '':'' @ fm_int F (uint port) @ ''/recordings/'' @ rid"

definition download_handle_request ::
  "fmt_lib \<Rightarrow> string \<Rightarrow> u32 \<Rightarrow> u64 \<Rightarrow> bool \<Rightarrow> dir_entry list \<Rightarrow> u64 \<Rightarrow> string \<Rightarrow> string \<Rightarrow>
   token_table \<Rightarrow> command_response \<times> token_table" where
  "download_handle_request F ip port ttl root_exists tree now fresh rid tokens =
     (case mint_token root_exists tree now fresh rid ttl tokens of
        (None, t1) \<Rightarrow> (reply_error (''recording not found: '' @ rid), t1)
      | (Some tok, t1) \<Rightarrow>
          (reply_ok (DownloadTokenPayload
             \<lparr>dm_recording_id = dt_recording_id tok,
              dm_http_url = download_url F ip port (dt_recording_id tok),
              dm_auth_token = dt_token tok, dm_expires_at = dt_expires_at_unix tok\<rparr>), t1))"

definition download_handle ::
  "fmt_lib \<Rightarrow> string \<Rightarrow> u32 \<Rightarrow> u64 \<Rightarrow> bool \<Rightarrow> dir_entry list \<Rightarrow> u64 \<Rightarrow> string \<Rightarrow> command_payload \<Rightarrow>
   token_table \<Rightarrow> command_response \<times> token_table" where
  "download_handle F ip port ttl root_exists tree now fresh p tokens =
     (case p of
        DownloadRequest rid \<Rightarrow>
          download_handle_request F ip port ttl root_exists tree now fresh rid tokens
      | _ \<Rightarrow> (download_handle_list root_exists tree, tokens))"

section \<open>ThumbnailHandler\<close>

text \<open>\<^verbatim>\<open>encode\<close> is the JPEG encoder: it may throw, give nothing, or bytes.\<close>

definition thumbnail_handle ::
  "(frame \<Rightarrow> output_size \<Rightarrow> u32 \<Rightarrow> string + u8 list option) \<Rightarrow> frame option \<Rightarrow> u64 option \<Rightarrow>
   u32 \<Rightarrow> u32 \<Rightarrow> u32 \<Rightarrow> handle_result" where
  "thumbnail_handle encode latest now_ms width height quality =
     (case latest of
        None \<Rightarrow> Responds (reply_error ''no frame available for thumbnail'')
      | Some f \<Rightarrow>
          (case encode f \<lparr>osz_width = width, osz_height = height\<rparr> quality of
             Inl msg \<Rightarrow> Throws msg
           | Inr None \<Rightarrow> Responds (reply_error ''thumbnail JPEG encode failed'')
           | Inr (Some bytes) \<Rightarrow>
               if bytes = [] then Responds (reply_error ''thumbnail JPEG encode failed'')
               else Responds (reply_ok (ThumbnailPayload bytes (clock_value now_ms)))))"

section \<open>MatchStateHandler\<close>

definition derive_status :: "session_state \<Rightarrow> match_status" where
  "derive_status s =
     (if ss_config s = None then MATCH_NOT_STARTED
      else case lm_segment (ss_match s) of
             HalfTime \<Rightarrow> MATCH_HALF_TIME
           | FullTime \<Rightarrow> MATCH_FINISHED
           | InPlay \<Rightarrow>
               if lm_period (ss_match s) = 0 then MATCH_NOT_STARTED
               else if lm_clock_running (ss_match s) then MATCH_ACTIVE else MATCH_PAUSED)"

definition derive_time_remaining :: "session_state \<Rightarrow> u32" where
  "derive_time_remaining s =
     (case ss_config s of
        None \<Rightarrow> 0
      | Some cfg \<Rightarrow>
          if sint (sc_period_length_seconds cfg) \<le> 0 then 0
          else let len = sc_period_length_seconds cfg; elapsed = lm_clock_seconds (ss_match s)
               in if len \<le> elapsed then 0 else len - elapsed)"

definition match_state_handle :: "u64 option \<Rightarrow> session_state \<Rightarrow> command_response" where
  "match_state_handle now_ms s =
     (let st = session_snapshot s
      in reply_ok (MatchStatePayload
           \<lparr>ms_status = derive_status st, ms_current_period = lm_period (ss_match st),
            ms_time_remaining_s = derive_time_remaining st, ms_score_a = lm_score_a (ss_match st),
            ms_score_b = lm_score_b (ss_match st),
            ms_team_a_id = (case ss_config st of None \<Rightarrow> [] | Some c \<Rightarrow> sc_team_a_id c),
            ms_team_b_id = (case ss_config st of None \<Rightarrow> [] | Some c \<Rightarrow> sc_team_b_id c),
            ms_updated_at = clock_value now_ms\<rparr>))"

section \<open>OverlayHandler\<close>

text \<open>SetBindingData from the session, then Refresh; None where Refresh is undefined.\<close>

definition sync_overlay ::
  "fmt_lib \<Rightarrow> renderer \<Rightarrow> u64 option \<Rightarrow> session_state \<Rightarrow> overlay_controller \<Rightarrow>
   (bool \<times> overlay_controller) option" where
  "sync_overlay F render now_ms s c =
     controller_refresh F render (clock_value now_ms)
       (controller_set_binding_data (build_binding_data (session_snapshot s)) c)"

definition overlay_handle ::
  "fmt_lib \<Rightarrow> renderer \<Rightarrow> u64 option \<Rightarrow> pb_layout \<Rightarrow> session_state \<times> overlay_controller \<Rightarrow>
   handle_result \<times> session_state \<times> overlay_controller" where
  "overlay_handle F render now_ms pb w =
     (case w of (s, c) \<Rightarrow>
        case on_overlay_configured s of
          (False, s1) \<Rightarrow>
            (Responds (reply_error
               ''overlay layout rejected: a session config must be applied first (out of order)''),
             s1, c)
        | (True, s1) \<Rightarrow>
            let c1 = controller_set_layout (map_layout_from_proto pb) c
            in case sync_overlay F render now_ms s1 c1 of
                 None \<Rightarrow> (Undefined, s1, c1)
               | Some (_, c2) \<Rightarrow> (Responds (reply_ok NoPayload), s1, c2))"

section \<open>MatchHandler\<close>

text \<open>Negating the smallest int is undefined.\<close>

definition score_defined :: "i32 \<Rightarrow> bool" where
  "score_defined delta \<longleftrightarrow> sint delta \<noteq> - (2 ^ 31)"

definition update_score :: "i32 \<Rightarrow> u32 \<Rightarrow> u32" where
  "update_score delta score =
     (if sint delta < 0 \<and> score < - delta then 0
      else word_of_int (uint score + sint delta))"

definition after_update ::
  "fmt_lib \<Rightarrow> renderer \<Rightarrow> u64 option \<Rightarrow> session_state \<Rightarrow> overlay_controller \<Rightarrow>
   handle_result \<times> session_state \<times> overlay_controller" where
  "after_update F render now_ms s c =
     (case sync_overlay F render now_ms s c of
        None \<Rightarrow> (Undefined, s, c)
      | Some (_, c1) \<Rightarrow> (Responds (reply_ok NoPayload), s, c1))"

definition handle_score_update ::
  "fmt_lib \<Rightarrow> renderer \<Rightarrow> u64 option \<Rightarrow> string \<Rightarrow> i32 \<Rightarrow> session_state \<times> overlay_controller \<Rightarrow>
   handle_result \<times> session_state \<times> overlay_controller" where
  "handle_score_update F render now_ms team_id delta w =
     (case w of (s, c) \<Rightarrow>
        case ss_config (session_snapshot s) of
          None \<Rightarrow> (Responds (reply_error ''score update with no active session''), s, c)
        | Some cfg \<Rightarrow>
            let is_home = (team_id = sc_team_a_id cfg);
                is_away = (team_id = sc_team_b_id cfg)
            in if \<not> is_home \<and> \<not> is_away
               then (Responds (reply_error ''score update: unknown team_id''), s, c)
               else
                 let update = (\<lambda>m. if is_home
                                   then m\<lparr>lm_score_a := update_score delta (lm_score_a m)\<rparr>
                                   else m\<lparr>lm_score_b := update_score delta (lm_score_b m)\<rparr>)
                 in case apply_match_update (Some update) s of
                      (False, s1) \<Rightarrow>
                        (Responds (reply_error ''score update rejected: no active session''), s1, c)
                    | (True, s1) \<Rightarrow>
                        if \<not> score_defined delta then (Undefined, s, c)
                        else after_update F render now_ms s1 c)"

definition match_control_update :: "match_action \<Rightarrow> u32 \<Rightarrow> live_match \<Rightarrow> live_match" where
  "match_control_update action period m =
     (case action of
        MATCH_KICKOFF \<Rightarrow>
          m\<lparr>lm_period := (if 0 < period then period else 1), lm_clock_seconds := 0,
            lm_clock_running := True, lm_segment := InPlay\<rparr>
      | MATCH_PERIOD_START \<Rightarrow>
          m\<lparr>lm_period := (if 0 < period then period else lm_period m),
            lm_clock_running := True, lm_segment := InPlay\<rparr>
      | MATCH_PERIOD_END \<Rightarrow> m\<lparr>lm_clock_running := False, lm_segment := HalfTime\<rparr>
      | MATCH_FINAL_WHISTLE \<Rightarrow> m\<lparr>lm_clock_running := False, lm_segment := FullTime\<rparr>
      | MATCH_CLOCK_PAUSE \<Rightarrow> m\<lparr>lm_clock_running := False\<rparr>
      | MATCH_CLOCK_RESUME \<Rightarrow> m\<lparr>lm_clock_running := True\<rparr>
      | MATCH_OTHER _ \<Rightarrow> m)"

definition handle_match_control ::
  "fmt_lib \<Rightarrow> renderer \<Rightarrow> u64 option \<Rightarrow> match_action \<Rightarrow> u32 \<Rightarrow> session_state \<times> overlay_controller \<Rightarrow>
   handle_result \<times> session_state \<times> overlay_controller" where
  "handle_match_control F render now_ms action period w =
     (case w of (s, c) \<Rightarrow>
        case apply_match_update (Some (match_control_update action period)) s of
          (False, s1) \<Rightarrow>
            (Responds (reply_error ''match control rejected: no active session''), s1, c)
        | (True, s1) \<Rightarrow> after_update F render now_ms s1 c)"

text \<open>The order of std::string, and emplace into a std::map kept as a sorted list.\<close>

fun string_less :: "string \<Rightarrow> string \<Rightarrow> bool" where
  "string_less xs [] \<longleftrightarrow> False"
| "string_less [] (y # ys) \<longleftrightarrow> True"
| "string_less (x # xs) (y # ys) \<longleftrightarrow>
     (of_char x :: nat) < of_char y \<or> x = y \<and> string_less xs ys"

fun map_emplace :: "string \<Rightarrow> string \<Rightarrow> (string \<times> string) list \<Rightarrow> (string \<times> string) list" where
  "map_emplace k v [] = [(k, v)]"
| "map_emplace k v ((k1, v1) # m) =
     (if k = k1 then (k1, v1) # m
      else if string_less k k1 then (k, v) # (k1, v1) # m
      else (k1, v1) # map_emplace k v m)"

definition handle_banner_event ::
  "fmt_lib \<Rightarrow> renderer \<Rightarrow> u64 option \<Rightarrow> string \<Rightarrow> (string \<times> string) list \<Rightarrow> u32 \<Rightarrow>
   session_state \<times> overlay_controller \<Rightarrow> handle_result \<times> session_state \<times> overlay_controller" where
  "handle_banner_event F render now_ms template_id kvs duration_s w =
     (case w of (s, c) \<Rightarrow>
        let params = fold (\<lambda>(k, v). map_emplace k v) kvs [];
            now = clock_value now_ms;
            c1 = snd (controller_activate_banner template_id params duration_s now c)
        in case controller_refresh F render now c1 of
             None \<Rightarrow> (Undefined, s, c1)
           | Some (_, c2) \<Rightarrow> (Responds (reply_ok NoPayload), s, c2))"

definition match_handle ::
  "fmt_lib \<Rightarrow> renderer \<Rightarrow> u64 option \<Rightarrow> command_payload \<Rightarrow> session_state \<times> overlay_controller \<Rightarrow>
   handle_result \<times> session_state \<times> overlay_controller" where
  "match_handle F render now_ms p w =
     (case p of
        ScoreUpdate team_id delta \<Rightarrow> handle_score_update F render now_ms team_id delta w
      | MatchControl action period \<Rightarrow> handle_match_control F render now_ms action period w
      | BannerEvent template_id kvs duration_s \<Rightarrow>
          handle_banner_event F render now_ms template_id kvs duration_s w
      | _ \<Rightarrow> (Responds (reply_error ''match handler: unexpected command''), w))"

definition tick_clock_update :: "live_match \<Rightarrow> live_match" where
  "tick_clock_update m =
     (if lm_clock_running m then m\<lparr>lm_clock_seconds := lm_clock_seconds m + 1\<rparr> else m)"

definition tick_clock ::
  "fmt_lib \<Rightarrow> renderer \<Rightarrow> u64 option \<Rightarrow> session_state \<times> overlay_controller \<Rightarrow>
   (session_state \<times> overlay_controller) option" where
  "tick_clock F render now_ms w =
     (case w of (s, c) \<Rightarrow>
        case apply_match_update (Some tick_clock_update) s of
          (False, s1) \<Rightarrow> Some (s1, c)
        | (True, s1) \<Rightarrow>
            (case sync_overlay F render now_ms s1 c of
               None \<Rightarrow> None
             | Some (_, c1) \<Rightarrow> Some (s1, c1)))"

section \<open>WifiDirectHandler\<close>

record 'a link_state =
  lk_session :: session_state
  lk_wifi :: wpa_manager
  lk_dhcp :: dhcp_server
  lk_streaming :: 'a

text \<open>
  \<^verbatim>\<open>forked\<close> and \<^verbatim>\<open>died\<close> are the operating system's answers to starting the DHCP server.
\<close>

definition wifi_handle_start ::
  "wpa_os \<Rightarrow> int \<Rightarrow> bool \<Rightarrow> 'a app_server_ops \<Rightarrow> u32 \<Rightarrow> u32 \<Rightarrow>
   ('a, 'p) streaming_service link_state \<Rightarrow>
   command_response \<times> ('a, 'p) streaming_service link_state" where
  "wifi_handle_start os forked died ao preview_port download_port w =
     (case start_p2p_group_owner os (lk_wifi w) of
        (None, m) \<Rightarrow>
          (reply_error ''failed to form WiFi Direct group owner'', w\<lparr>lk_wifi := m\<rparr>)
      | (Some g, m) \<Rightarrow>
          (case dhcp_start forked died (wg_group_interface g) (wg_group_owner_ip g) (lk_dhcp w) of
             (False, d) \<Rightarrow>
               (reply_error ''failed to start DHCP on the WiFi Direct group'',
                w\<lparr>lk_wifi := wifi_stop os m, lk_dhcp := d\<rparr>)
           | (True, d) \<Rightarrow>
               (case on_wifi_ready (lk_session w) of
                  (False, s) \<Rightarrow>
                    (reply_error ''WiFi Direct group up but session not ready to accept it'',
                     w\<lparr>lk_wifi := wifi_stop os m, lk_dhcp := dhcp_stop d, lk_session := s\<rparr>)
                | (True, s) \<Rightarrow>
                    let cfg = app_stream_config_default
                                \<lparr>ac_address := wg_group_owner_ip g, ac_port := ucast preview_port\<rparr>;
                        st = snd (start_app_stream ao cfg (lk_streaming w))
                    in (reply_ok (WifiDirectGroupPayload
                          \<lparr>wgm_ssid = wg_ssid g, wgm_psk = wg_psk g,
                           wgm_group_owner_ip = wg_group_owner_ip g,
                           wgm_preview_port = preview_port, wgm_download_port = download_port,
                           wgm_role = wg_role g\<rparr>),
                        w\<lparr>lk_wifi := m, lk_dhcp := d, lk_session := s, lk_streaming := st\<rparr>))))"

definition wifi_handle_stop ::
  "wpa_os \<Rightarrow> 'a link_state \<Rightarrow> command_response \<times> 'a link_state" where
  "wifi_handle_stop os w =
     (let w1 = w\<lparr>lk_dhcp := dhcp_stop (lk_dhcp w)\<rparr>;
          w2 = w1\<lparr>lk_wifi := wifi_stop os (lk_wifi w1)\<rparr>;
          w3 = w2\<lparr>lk_session := snd (on_wifi_stopped (lk_session w2))\<rparr>
      in (reply_ok NoPayload, w3))"

definition wifi_handle ::
  "wpa_os \<Rightarrow> int \<Rightarrow> bool \<Rightarrow> 'a app_server_ops \<Rightarrow> u32 \<Rightarrow> u32 \<Rightarrow> command_payload \<Rightarrow>
   ('a, 'p) streaming_service link_state \<Rightarrow>
   command_response \<times> ('a, 'p) streaming_service link_state" where
  "wifi_handle os forked died ao preview_port download_port p w =
     (if p = StopWifiDirect then wifi_handle_stop os w
      else wifi_handle_start os forked died ao preview_port download_port w)"

end
