(* ===== verification/System.thy ===== *)
theory System
  imports Handlers
begin

text \<open>
  The wiring of \<^verbatim>\<open>main.cpp\<close>: the services the handlers share, the registered dispatcher, the
  disconnect cleanup (\<^verbatim>\<open>app/session/services/session_cleanup\<close>), the pipeline's frames and the
  clock thread, as one device that events act on.

  Everything the device asks of the outside while an event is handled (operating system,
  GStreamer, clocks, directory tree, encoder, renderer) is one environment, chosen anew for
  every event.
\<close>

section \<open>The device\<close>

record device =
  dv_session :: session_state
  dv_recording :: "gst_recorder recording_service"
  dv_streaming :: gst_streaming
  dv_url :: string
  dv_wifi :: wpa_manager
  dv_dhcp :: dhcp_server
  dv_overlay :: overlay_controller
  dv_tokens :: token_table
  dv_raw :: raw_sink
  dv_latest_frame :: "frame option"

record environment =
  en_mkdirs :: "string \<Rightarrow> bool"
  en_gst :: gst_env
  en_fs_exists :: "string \<Rightarrow> bool"
  en_available :: "string \<Rightarrow> u64 option"
  en_write_thumb :: "frame \<Rightarrow> string \<Rightarrow> bool"
  en_rtsp :: rtsp_env
  en_rtmp :: rtmp_env
  en_wpa :: wpa_os
  en_forked :: int
  en_died :: bool
  en_raw_mkdir :: bool
  en_raw_open :: "string \<Rightarrow> bool"
  en_disk :: disk_answer
  en_root_exists :: bool
  en_tree :: "dir_entry list"
  en_now_unix :: u64
  en_fresh_token :: string
  en_encode :: "frame \<Rightarrow> output_size \<Rightarrow> u32 \<Rightarrow> string + u8 list option"
  en_fmt :: fmt_lib
  en_render :: renderer
  en_now_ms :: u64
  en_epoch_ms :: u64
  en_stats :: system_stats

definition kVideoRootFallback :: string where "kVideoRootFallback = ''/var/lib/sst/cam/videos''"
definition kOverlayWidth :: u32 where "kOverlayWidth = 1280"
definition kOverlayHeight :: u32 where "kOverlayHeight = 720"
definition kPreviewPort :: u32 where "kPreviewPort = 8554"
definition kDownloadPort :: u32 where "kDownloadPort = 8080"
definition kDownloadTokenTtlSeconds :: u64 where "kDownloadTokenTtlSeconds = 3600"
definition kGroupOwnerIp :: string where "kGroupOwnerIp = ''192.168.49.1''"

definition video_root :: "config_data \<Rightarrow> string" where
  "video_root cfg = value_or (sd_video (cfg_storage cfg)) kVideoRootFallback"

definition device_new :: "config_data \<Rightarrow> device" where
  "device_new cfg =
     \<lparr>dv_session = session_state_default,
      dv_recording = recording_service_new gst_recorder_new,
      dv_streaming = streaming_new,
      dv_url = [],
      dv_wifi = wpa_new,
      dv_dhcp = dhcp_new,
      dv_overlay = overlay_controller_new \<lparr>osz_width = kOverlayWidth, osz_height = kOverlayHeight\<rparr>,
      dv_tokens = [],
      dv_raw = raw_sink_new (video_root cfg) 2,
      dv_latest_frame = None\<rparr>"

definition disk_ok :: "config_data \<Rightarrow> environment \<Rightarrow> bool" where
  "disk_ok cfg e =
     has_enough_free_space (en_fs_exists e) (en_available e) (video_root cfg)
       (sd_min_free_bytes (cfg_storage cfg))"

section \<open>The registered handlers\<close>

text \<open>HandledCases of each handler.\<close>

definition device_cases :: "payload_case list" where
  "device_cases = [CaseGetDeviceInfo, CaseGetTelemetry]"

definition session_cases :: "payload_case list" where
  "session_cases = [CasePushSessionConfig]"

definition wifi_cases :: "payload_case list" where
  "wifi_cases = [CaseStartWifiDirect, CaseStopWifiDirect]"

definition overlay_cases :: "payload_case list" where
  "overlay_cases = [CasePushOverlayLayout]"

definition match_cases :: "payload_case list" where
  "match_cases = [CaseMatchControl, CaseScoreUpdate, CaseBannerEvent]"

definition match_state_cases :: "payload_case list" where
  "match_state_cases = [CaseGetMatchState]"

definition recording_cases :: "payload_case list" where
  "recording_cases = [CaseRecordingControl]"

definition streaming_cases :: "payload_case list" where
  "streaming_cases = [CaseStreamingControl, CaseSetStreamingConfig]"

definition download_cases :: "payload_case list" where
  "download_cases = [CaseListRecordings, CaseDownloadRequest]"

definition raw_capture_cases :: "payload_case list" where
  "raw_capture_cases = [CaseRawCapture]"

definition thumbnail_cases :: "payload_case list" where
  "thumbnail_cases = [CaseThumbnail]"

lemmas handled_cases [simp] = device_cases_def session_cases_def wifi_cases_def overlay_cases_def
  match_cases_def match_state_cases_def recording_cases_def streaming_cases_def
  download_cases_def raw_capture_cases_def thumbnail_cases_def

type_synonym device_handler = "(environment, device) command_handler"

definition device_handler :: "config_data \<Rightarrow> device_handler" where
  "device_handler cfg =
     \<lparr>ha_cases = device_cases,
      ha_handle = (\<lambda>e p w.
        (Responds (device_handle (cfg_device cfg) (en_stats e)
           (Some (current_recording_state (dv_recording w) \<noteq> RecIdle))
           (Some (list_active_platform_streams (dv_streaming w) \<noteq> []))
           (Some (raw_is_capturing (dv_raw w))) p), w))\<rparr>"

definition session_handler :: device_handler where
  "session_handler =
     \<lparr>ha_cases = session_cases,
      ha_handle = (\<lambda>e p w.
        case p of
          PushSessionConfig m \<Rightarrow>
            (case session_handle (en_mkdirs e) m (dv_session w) of
               (r, s) \<Rightarrow> (Responds r, w\<lparr>dv_session := s\<rparr>))
        | _ \<Rightarrow> (Undefined, w))\<rparr>"

definition wifi_handler :: device_handler where
  "wifi_handler =
     \<lparr>ha_cases = wifi_cases,
      ha_handle = (\<lambda>e p w.
        case wifi_handle (en_wpa e) (en_forked e) (en_died e) (rtsp_ops (en_rtsp e)) kPreviewPort
               kDownloadPort p
               \<lparr>lk_session = dv_session w, lk_wifi = dv_wifi w, lk_dhcp = dv_dhcp w,
                lk_streaming = dv_streaming w\<rparr> of
          (r, l) \<Rightarrow>
            (Responds r,
             w\<lparr>dv_session := lk_session l, dv_wifi := lk_wifi l, dv_dhcp := lk_dhcp l,
               dv_streaming := lk_streaming l\<rparr>))\<rparr>"

definition overlay_handler :: device_handler where
  "overlay_handler =
     \<lparr>ha_cases = overlay_cases,
      ha_handle = (\<lambda>e p w.
        case p of
          PushOverlayLayout pb \<Rightarrow>
            (case overlay_handle (en_fmt e) (en_render e) (Some (en_now_ms e)) pb
                    (dv_session w, dv_overlay w) of
               (r, s, c) \<Rightarrow> (r, w\<lparr>dv_session := s, dv_overlay := c\<rparr>))
        | _ \<Rightarrow> (Undefined, w))\<rparr>"

definition match_handler :: device_handler where
  "match_handler =
     \<lparr>ha_cases = match_cases,
      ha_handle = (\<lambda>e p w.
        case match_handle (en_fmt e) (en_render e) (Some (en_now_ms e)) p
               (dv_session w, dv_overlay w) of
          (r, s, c) \<Rightarrow> (r, w\<lparr>dv_session := s, dv_overlay := c\<rparr>))\<rparr>"

definition match_state_handler :: device_handler where
  "match_state_handler =
     \<lparr>ha_cases = match_state_cases,
      ha_handle = (\<lambda>e p w.
        (Responds (match_state_handle (Some (en_epoch_ms e)) (dv_session w)), w))\<rparr>"

definition recording_handler :: "config_data \<Rightarrow> device_handler" where
  "recording_handler cfg =
     \<lparr>ha_cases = recording_cases,
      ha_handle = (\<lambda>e p w.
        case p of
          RecordingControl a \<Rightarrow>
            (case recording_handle (gst_recorder_ops (en_gst e)) (disk_ok cfg e) (en_write_thumb e) a
                    (dv_session w, dv_recording w) of
               (r, s, rs) \<Rightarrow> (Responds r, w\<lparr>dv_session := s, dv_recording := rs\<rparr>))
        | _ \<Rightarrow> (Undefined, w))\<rparr>"

definition streaming_handler :: device_handler where
  "streaming_handler =
     \<lparr>ha_cases = streaming_cases,
      ha_handle = (\<lambda>e p w.
        case streaming_handle (rtmp_ops (en_rtmp e)) (Some rtmp_new) p
               (dv_url w, dv_streaming w) of
          (r, url, st) \<Rightarrow> (Responds r, w\<lparr>dv_url := url, dv_streaming := st\<rparr>))\<rparr>"

definition download_handler :: device_handler where
  "download_handler =
     \<lparr>ha_cases = download_cases,
      ha_handle = (\<lambda>e p w.
        case download_handle (en_fmt e) kGroupOwnerIp kDownloadPort kDownloadTokenTtlSeconds
               (en_root_exists e) (en_tree e) (en_now_unix e) (en_fresh_token e) p (dv_tokens w) of
          (r, t) \<Rightarrow> (Responds r, w\<lparr>dv_tokens := t\<rparr>))\<rparr>"

definition raw_capture_handler :: device_handler where
  "raw_capture_handler =
     \<lparr>ha_cases = raw_capture_cases,
      ha_handle = (\<lambda>e p w.
        case p of
          RawCapture action gid \<Rightarrow>
            (case raw_capture_handle (en_raw_mkdir e) (en_raw_open e) (en_disk e) action gid
                    (dv_raw w) of
               (r, k) \<Rightarrow> (Responds r, w\<lparr>dv_raw := k\<rparr>))
        | _ \<Rightarrow> (Undefined, w))\<rparr>"

definition thumbnail_handler :: device_handler where
  "thumbnail_handler =
     \<lparr>ha_cases = thumbnail_cases,
      ha_handle = (\<lambda>e p w.
        case p of
          Thumbnail width height quality \<Rightarrow>
            (thumbnail_handle (en_encode e) (dv_latest_frame w) (Some (en_epoch_ms e)) width height
               quality, w)
        | _ \<Rightarrow> (Undefined, w))\<rparr>"

text \<open>The registrations, in the order of main.\<close>

definition main_dispatcher :: "config_data \<Rightarrow> (environment, device) dispatcher" where
  "main_dispatcher cfg =
     fold (\<lambda>h. register_handler (Some h))
       [device_handler cfg, session_handler, wifi_handler, overlay_handler, match_handler,
        match_state_handler, recording_handler cfg, streaming_handler, download_handler,
        raw_capture_handler, thumbnail_handler] []"

section \<open>Disconnect\<close>

definition finalize_recording :: "environment \<Rightarrow> device \<Rightarrow> string option \<times> device" where
  "finalize_recording e w =
     (None, w\<lparr>dv_recording :=
       snd (stop_recording (gst_recorder_ops (en_gst e)) (en_write_thumb e) (dv_recording w))\<rparr>)"

definition cleanup_stop_streaming :: "environment \<Rightarrow> device \<Rightarrow> string option \<times> device" where
  "cleanup_stop_streaming e w =
     (None, w\<lparr>dv_streaming :=
       stop_streaming (rtsp_ops (en_rtsp e)) (rtmp_ops (en_rtmp e)) (dv_streaming w)\<rparr>)"

definition teardown_wifi_direct :: "environment \<Rightarrow> device \<Rightarrow> string option \<times> device" where
  "teardown_wifi_direct e w =
     (let w1 = w\<lparr>dv_dhcp := dhcp_stop (dv_dhcp w)\<rparr>
      in (None, w1\<lparr>dv_wifi := wifi_stop (en_wpa e) (dv_wifi w1)\<rparr>))"

definition device_cleanup :: "environment \<Rightarrow> device session_cleanup" where
  "device_cleanup e =
     \<lparr>cl_finalize_recording = finalize_recording e, cl_stop_streaming = cleanup_stop_streaming e,
      cl_teardown_wifi_direct = teardown_wifi_direct e\<rparr>"

section \<open>Events\<close>

text \<open>
  What happens to the device: the transport's callbacks, a final frame of the pipeline (kept
  for snapshots, then pushed to recording and streaming in the order of the fan-out), a frame
  of a camera for raw capture, a turn of a raw writer thread, a download over HTTP and the
  clock thread.
\<close>

datatype device_event =
    Connect
  | Disconnect environment
  | Command environment command
  | FinalFrame environment frame
  | CameraFrame bool nat frame
  | RawWriter disk_answer nat
  | HttpGet "string \<Rightarrow> nat option" u64 "string option"
  | ClockTick environment

definition device_disconnect :: "environment \<Rightarrow> device \<Rightarrow> device" where
  "device_disconnect e w =
     (case on_disconnect (device_cleanup e) (dv_session w) w of
        (s, w1) \<Rightarrow> w1\<lparr>dv_session := s\<rparr>)"

definition device_final_frame :: "environment \<Rightarrow> frame \<Rightarrow> device \<Rightarrow> device" where
  "device_final_frame e f w =
     w\<lparr>dv_latest_frame := Some f,
       dv_recording := recording_push (gst_recorder_ops (en_gst e)) f (dv_recording w),
       dv_streaming :=
         streaming_push (rtsp_ops (en_rtsp e)) (rtmp_ops (en_rtmp e)) f (dv_streaming w)\<rparr>"

text \<open>None after undefined behaviour.\<close>

fun device_step :: "config_data \<Rightarrow> device_event \<Rightarrow> device \<Rightarrow> device option" where
  "device_step cfg Connect w = Some (w\<lparr>dv_session := snd (on_connect (dv_session w))\<rparr>)"
| "device_step cfg (Disconnect e) w = Some (device_disconnect e w)"
| "device_step cfg (Command e cmd) w =
     (case dispatch (main_dispatcher cfg) e cmd w of
        (None, _) \<Rightarrow> None
      | (Some _, w1) \<Rightarrow> Some w1)"
| "device_step cfg (FinalFrame e f) w = Some (device_final_frame e f w)"
| "device_step cfg (CameraFrame got_lock i f) w =
     Some (w\<lparr>dv_raw := raw_push_camera got_lock i f (dv_raw w)\<rparr>)"
| "device_step cfg (RawWriter disk i) w = Some (w\<lparr>dv_raw := raw_writer_step disk i (dv_raw w)\<rparr>)"
| "device_step cfg (HttpGet file_size now auth) w =
     Some (w\<lparr>dv_tokens := snd (handle_download file_size now auth (dv_tokens w))\<rparr>)"
| "device_step cfg (ClockTick e) w =
     (case tick_clock (en_fmt e) (en_render e) (Some (en_now_ms e)) (dv_session w, dv_overlay w) of
        None \<Rightarrow> None
      | Some (s, c) \<Rightarrow> Some (w\<lparr>dv_session := s, dv_overlay := c\<rparr>))"

inductive device_reachable :: "config_data \<Rightarrow> device \<Rightarrow> bool" for cfg where
  boot: "device_reachable cfg (device_new cfg)"
| event: "\<lbrakk>device_reachable cfg w; device_step cfg ev w = Some w1\<rbrakk> \<Longrightarrow> device_reachable cfg w1"

end
