(* ===== verification/SystemProps.thy ===== *)
theory SystemProps
  imports System
begin

text \<open>
  The contract of a handler (an answer for every command it declares, well formed) and the
  dispatcher of main under it: every command is answered.
\<close>

section \<open>Routing\<close>

lemma main_dispatcher_list:
  "main_dispatcher cfg =
     [(CaseGetDeviceInfo, device_handler cfg), (CaseGetTelemetry, device_handler cfg),
      (CasePushSessionConfig, session_handler), (CaseStartWifiDirect, wifi_handler),
      (CaseStopWifiDirect, wifi_handler), (CasePushOverlayLayout, overlay_handler),
      (CaseMatchControl, match_handler), (CaseScoreUpdate, match_handler),
      (CaseBannerEvent, match_handler), (CaseGetMatchState, match_state_handler),
      (CaseRecordingControl, recording_handler cfg), (CaseStreamingControl, streaming_handler),
      (CaseSetStreamingConfig, streaming_handler), (CaseListRecordings, download_handler),
      (CaseDownloadRequest, download_handler), (CaseRawCapture, raw_capture_handler),
      (CaseThumbnail, thumbnail_handler)]"
  by (simp add: main_dispatcher_def register_handler_def try_emplace_def device_handler_def
    session_handler_def wifi_handler_def overlay_handler_def match_handler_def
    match_state_handler_def recording_handler_def streaming_handler_def download_handler_def
    raw_capture_handler_def thumbnail_handler_def)

text \<open>A well-formed answer: success carries no error message, anything else no payload.\<close>

definition well_formed :: "command_response \<Rightarrow> bool" where
  "well_formed r \<longleftrightarrow>
     (if cr_status r = StatusOk then cr_error_message r = [] else cr_payload r = NoPayload)"

lemma well_formed_replies [simp]:
  "well_formed (reply_ok p)" "well_formed (reply_error m)" "well_formed (reply_unsupported m)"
  "well_formed (r\<lparr>cr_correlation_id := i\<rparr>) = well_formed r"
  by (simp_all add: well_formed_def replies)

text \<open>What the dispatcher needs from the handlers registered with it.\<close>

locale handler_contract =
  fixes d :: "('e, 'w) dispatcher" and may_fail :: "payload_case \<Rightarrow> bool"
  assumes answers: "\<lbrakk>(payload_case_of p, h) \<in> set d; ha_handle h e p w = (Responds r, w1)\<rbrakk> \<Longrightarrow>
      well_formed r"
    and defined: "\<lbrakk>(payload_case_of p, h) \<in> set d; ha_handle h e p w = (Undefined, w1)\<rbrakk> \<Longrightarrow>
      may_fail (payload_case_of p)"
begin

lemma dispatch_answers:
  "case dispatch d e cmd w of
     (Some r, _) \<Rightarrow> cr_correlation_id r = cm_correlation_id cmd \<and> well_formed r
   | (None, _) \<Rightarrow> may_fail (payload_case_of (cm_payload cmd))"
proof (cases "map_of d (payload_case_of (cm_payload cmd))")
  case (Some h)
  then have m: "(payload_case_of (cm_payload cmd), h) \<in> set d" by (rule map_of_SomeD)
  show ?thesis
  proof (cases "ha_handle h e (cm_payload cmd) w")
    case (Pair res w1)
    then show ?thesis
      using Some answers [OF m] defined [OF m]
      by (cases res) (auto simp: dispatch_def)
  qed
qed (simp add: dispatch_def)

end

definition may_fail_case :: "payload_case \<Rightarrow> bool" where
  "may_fail_case k \<longleftrightarrow> k \<in> {CasePushOverlayLayout, CaseMatchControl, CaseScoreUpdate, CaseBannerEvent}"

lemma recording_handle_wf:
  "well_formed (fst (recording_handle ro dk wt a w))"
  by (cases w; cases a)
     (auto simp: recording_handle_def Let_def split: option.split prod.split bool.split)

lemma raw_capture_handle_wf:
  "well_formed (fst (raw_capture_handle mk op disk a g k))"
  by (auto simp: raw_capture_handle_def split: option.split recording_action.split prod.split bool.split)

lemma streaming_handle_wf:
  "well_formed (fst (streaming_handle po fa p w))"
  by (cases w)
     (auto simp: streaming_handle_def streaming_handle_control_def streaming_handle_set_config_def
       Let_def split: command_payload.split prod.split bool.split)

lemma download_handle_wf:
  "well_formed (fst (download_handle F ip port ttl re tree now fresh p t))"
  by (auto simp: download_handle_def download_handle_list_def download_handle_request_def
    split: command_payload.split prod.split option.split)

lemma wifi_handle_wf:
  "well_formed (fst (wifi_handle os fk dd ao pp dp p w))"
  by (auto simp: wifi_handle_def wifi_handle_start_def wifi_handle_stop_def Let_def
    split: prod.split option.split bool.split)

lemma session_handle_wf: "well_formed (fst (session_handle mk m s))"
  by (auto simp: session_handle_def split: prod.split bool.split)

lemma device_handle_wf: "well_formed (device_handle d st a b c p)"
  by (simp add: device_handle_def handle_device_info_def handle_telemetry_def)

lemma thumbnail_handle_wf:
  "thumbnail_handle en la now wi he qu \<noteq> Undefined"
  "thumbnail_handle en la now wi he qu = Responds r \<Longrightarrow> well_formed r"
  by (auto simp: thumbnail_handle_def split: option.splits sum.splits if_splits)

lemma after_update_wf:
  "fst (after_update F render now s c) = Responds r \<Longrightarrow> well_formed r"
  by (auto simp: after_update_def split: option.splits prod.splits)

lemma match_handle_wf:
  "fst (match_handle F render now p w) = Responds r \<Longrightarrow> well_formed r"
  by (cases w)
     (auto simp: match_handle_def handle_score_update_def handle_match_control_def
       handle_banner_event_def Let_def dest: after_update_wf
       split: command_payload.splits prod.splits option.splits bool.splits if_splits)

lemma overlay_handle_wf:
  "fst (overlay_handle F render now pb w) = Responds r \<Longrightarrow> well_formed r"
  by (cases w) (auto simp: overlay_handle_def Let_def split: prod.splits option.splits bool.splits)

lemma wf_of_fst: "\<lbrakk>x = (r, z); well_formed (fst x)\<rbrakk> \<Longrightarrow> well_formed r"
  by simp

lemmas handles_wf = recording_handle_wf [THEN wf_of_fst [rotated]]
  raw_capture_handle_wf [THEN wf_of_fst [rotated]] streaming_handle_wf [THEN wf_of_fst [rotated]]
  download_handle_wf [THEN wf_of_fst [rotated]] wifi_handle_wf [THEN wf_of_fst [rotated]]
  session_handle_wf [THEN wf_of_fst [rotated]] thumbnail_handle_wf(2)

lemma match_handle_wf2: "match_handle F render now p w = (Responds r, z) \<Longrightarrow> well_formed r"
  using match_handle_wf [of F render now p w r] by simp

lemma overlay_handle_wf2: "overlay_handle F render now p w = (Responds r, z) \<Longrightarrow> well_formed r"
  using overlay_handle_wf [of F render now p w r] by simp

lemmas device_handlers = device_handler_def session_handler_def wifi_handler_def
  overlay_handler_def match_handler_def match_state_handler_def recording_handler_def
  streaming_handler_def download_handler_def raw_capture_handler_def thumbnail_handler_def

text \<open>Every registered handler answers in form, and only the overlay can be undefined.\<close>

definition answers_well :: "device_handler \<Rightarrow> bool" where
  "answers_well h \<longleftrightarrow>
     (\<forall>e p w r w1. ha_handle h e p w = (Responds r, w1) \<longrightarrow> well_formed r)"

lemma device_handlers_answer:
  "answers_well (device_handler cfg)" "answers_well session_handler" "answers_well wifi_handler"
  "answers_well overlay_handler" "answers_well match_handler" "answers_well match_state_handler"
  "answers_well (recording_handler cfg)" "answers_well streaming_handler"
  "answers_well download_handler" "answers_well raw_capture_handler" "answers_well thumbnail_handler"
  by (auto simp: answers_well_def device_handlers device_handle_wf match_state_handle_def Let_def
    dest: handles_wf match_handle_wf2 overlay_handle_wf2
    split: command_payload.splits prod.splits)

lemma main_defined:
  assumes "(payload_case_of p, h) \<in> set (main_dispatcher cfg)" "ha_handle h e p w = (Undefined, w1)"
  shows "may_fail_case (payload_case_of p)"
  using assms
  by (cases p)
     (auto simp: main_dispatcher_list device_handlers may_fail_case_def thumbnail_handle_wf(1)
       split: prod.splits)

interpretation main_plane: handler_contract "main_dispatcher cfg" may_fail_case for cfg
proof unfold_locales
  fix p :: command_payload and h :: device_handler and e w r w1
  assume m: "(payload_case_of p, h) \<in> set (main_dispatcher cfg)"
    and a: "ha_handle h e p w = (Responds r, w1)"
  have "answers_well h" using m by (auto simp: main_dispatcher_list device_handlers_answer)
  then show "well_formed r" using a unfolding answers_well_def by blast
qed (rule main_defined)

text \<open>C3: Every command gets exactly one answer, with its own correlation id, unless handling it
  runs into undefined behaviour, which only an overlay layout, match control, score update or
  banner can do.  The answer is well formed: success carries no error message, anything else
  carries no payload.  UNSUPPORTED, with the device untouched, is the answer to an empty command
  and to every payload the firmware does not know; every payload it knows reaches a handler.\<close>

theorem every_command_answered:
  "(case dispatch (main_dispatcher cfg) e cmd w of
      (Some r, w1) \<Rightarrow>
        cr_correlation_id r = cm_correlation_id cmd \<and>
        (if cr_status r = StatusOk then cr_error_message r = [] else cr_payload r = NoPayload) \<and>
        (if cm_payload cmd = PayloadNotSet \<or> (\<exists>n. cm_payload cmd = OtherPayload n)
         then cr_status r = StatusUnsupported \<and> w1 = w else True)
    | (None, w1) \<Rightarrow>
        payload_case_of (cm_payload cmd) \<in>
          {CasePushOverlayLayout, CaseMatchControl, CaseScoreUpdate, CaseBannerEvent}) \<and>
   ((\<exists>h. map_of (main_dispatcher cfg) (payload_case_of (cm_payload cmd)) = Some h \<and>
         payload_case_of (cm_payload cmd) \<in> set (ha_cases h)) \<longleftrightarrow>
      \<not> (cm_payload cmd = PayloadNotSet \<or> (\<exists>n. cm_payload cmd = OtherPayload n)))"
proof -
  have u: "fst (dispatch (main_dispatcher cfg) e cmd w) \<noteq> None \<and>
      cr_status (the (fst (dispatch (main_dispatcher cfg) e cmd w))) = StatusUnsupported \<and>
      snd (dispatch (main_dispatcher cfg) e cmd w) = w"
    if "cm_payload cmd = PayloadNotSet \<or> (\<exists>n. cm_payload cmd = OtherPayload n)"
    using that by (auto simp: dispatch_def main_dispatcher_list replies)
  have h: "(\<exists>h. map_of (main_dispatcher cfg) (payload_case_of (cm_payload cmd)) = Some h \<and>
         payload_case_of (cm_payload cmd) \<in> set (ha_cases h)) \<longleftrightarrow>
      \<not> (cm_payload cmd = PayloadNotSet \<or> (\<exists>n. cm_payload cmd = OtherPayload n))"
    by (cases "cm_payload cmd") (simp_all add: main_dispatcher_list device_handlers)
  have a: "case dispatch (main_dispatcher cfg) e cmd w of
     (Some r, _) \<Rightarrow> cr_correlation_id r = cm_correlation_id cmd \<and> well_formed r
   | (None, _) \<Rightarrow> may_fail_case (payload_case_of (cm_payload cmd))"
    by (rule main_plane.dispatch_answers)
  show ?thesis
    using u a h
    by (auto simp: well_formed_def may_fail_case_def split: prod.splits option.splits)
qed

end
