(* ===== verification/Lifecycle.thy ===== *)
theory Lifecycle
  imports SystemProps
begin

text \<open>
  The device over its whole life: the invariants that tie the session to the recorder, the DHCP
  server, the preview and the streams through every event, the one way out of step, what a
  disconnect leaves behind, and the commands whose effect depends on that state.
\<close>

section \<open>The invariant\<close>

definition rec_good :: "gst_recorder recording_service \<Rightarrow> bool" where
  "rec_good s \<longleftrightarrow> (\<forall>env. gst.recording_ok env s)"

lemma rec_good_iff: "gst.recording_ok env s \<longleftrightarrow> rec_good s"
  by (simp add: rec_good_def gst.recording_ok_def)

lemma rec_call_good [inv_rules]:
  assumes "rec_good s"
  shows "rec_good (snd (rec_call (gst_recorder_ops env) op s))"
  using gst.rec_call_refines [of env s op] assms by (simp add: rec_good_iff)

lemma rec_ops_good [inv_rules]:
  assumes "rec_good s"
  shows "rec_good (snd (start_recording (gst_recorder_ops env) dk v t s))"
    "rec_good (snd (pause_recording (gst_recorder_ops env) s))"
    "rec_good (snd (resume_recording (gst_recorder_ops env) s))"
    "rec_good (snd (stop_recording (gst_recorder_ops env) wt s))"
    "rec_good (recording_push (gst_recorder_ops env) f s)"
  using rec_call_good [OF assms, of env "RecStart dk v t"] rec_call_good [OF assms, of env RecPause]
    rec_call_good [OF assms, of env RecResume] rec_call_good [OF assms, of env "RecStop wt"]
    rec_call_good [OF assms, of env "RecPush f"]
  by (simp_all split: prod.splits)

definition stream_good :: "gst_streaming \<Rightarrow> bool" where
  "stream_good s \<longleftrightarrow> (\<forall>re. stp.streaming_ok re s)"

lemma stream_good_iff: "stp.streaming_ok re s \<longleftrightarrow> stream_good s"
  by (simp add: stream_good_def stp.streaming_ok_def)

lemma stream_ops_good [inv_rules]:
  assumes "stream_good s"
  shows "stream_good (snd (start_app_stream (rtsp_ops rp) cfg s))"
    "stream_good (snd (start_platform_stream (rtmp_ops re) fa pc s))"
    "stream_good (snd (snd (stop_platform_stream (rtmp_ops re) i s)))"
    "stream_good (streaming_push (rtsp_ops rp) (rtmp_ops re) f s)"
    "stream_good (stop_streaming (rtsp_ops rp) (rtmp_ops re) s)"
  using assms stream_step_ok [of re s rp "StAppStart cfg"] stream_step_ok [of re s rp "StPlatformStart fa pc"]
    stream_step_ok [of re s rp "StPlatformStop i"] stream_step_ok [of re s rp "StPush f"]
    stream_step_ok [of re s rp StStopAll]
  by (simp_all add: stream_good_iff)

definition linked :: "session_state \<Rightarrow> 'r recording_service \<Rightarrow> bool" where
  "linked s r \<longleftrightarrow> (ss_phase s = Recording \<longrightarrow> rs_state r \<noteq> RecIdle)"

definition device_ok :: "device \<Rightarrow> bool" where
  "device_ok w \<longleftrightarrow>
     session_inv (dv_session w) \<and> linked (dv_session w) (dv_recording w) \<and>
     rec_good (dv_recording w) \<and> stream_good (dv_streaming w)"

text \<open>A session step that cannot enter the recording phase keeps the link, and no command opens or
  closes the session.\<close>

definition quiet_step :: "session_state \<Rightarrow> session_state \<Rightarrow> bool" where
  "quiet_step s t \<longleftrightarrow>
     (session_inv s \<longrightarrow> session_inv t) \<and> (ss_phase t = Recording \<longrightarrow> ss_phase s = Recording) \<and>
     (ss_phase t = Idle \<longleftrightarrow> ss_phase s = Idle)"

lemma quiet_refl [simp]: "quiet_step s s"
  by (simp add: quiet_step_def)

lemma session_inv_calls [inv_rules]:
  assumes "session_inv s"
  shows "session_inv (snd (on_connect s))" "session_inv (snd (on_wifi_ready s))"
    "session_inv (snd (on_wifi_stopped s))" "session_inv (snd (apply_session_config mk cfg s))"
    "session_inv (snd (on_overlay_configured s))" "session_inv (snd (on_recording_start s))"
    "session_inv (snd (on_recording_stop s))" "session_inv (snd (apply_match_update mu s))"
  using assms
  by (cases "ss_phase s";
      auto simp: session_inv_def session_defs phase_order split: option.splits)+

lemma session_quiet:
  "quiet_step s (snd (on_wifi_ready s))"
  "quiet_step s (snd (on_wifi_stopped s))" "quiet_step s (snd (apply_session_config mk cfg s))"
  "quiet_step s (snd (on_overlay_configured s))" "quiet_step s (snd (on_recording_stop s))"
  "quiet_step s (snd (apply_match_update mu s))"
  by (auto simp: quiet_step_def inv_rules)
     (auto simp: session_defs phase_order split: if_splits option.splits)

lemma session_quiet_eq:
  "on_wifi_ready s = (b, t) \<Longrightarrow> quiet_step s t"
  "apply_session_config mk cfg s = (b, t) \<Longrightarrow> quiet_step s t"
  "on_overlay_configured s = (b, t) \<Longrightarrow> quiet_step s t"
  "apply_match_update mu s = (b, t) \<Longrightarrow> quiet_step s t"
  by (metis session_quiet snd_conv)+

lemma quiet_keeps:
  "\<lbrakk>quiet_step s t; session_inv s\<rbrakk> \<Longrightarrow> session_inv t"
  "\<lbrakk>quiet_step s t; linked s r\<rbrakk> \<Longrightarrow> linked t r"
  "quiet_step s t \<Longrightarrow> ss_phase t = Idle \<longleftrightarrow> ss_phase s = Idle"
  by (auto simp: quiet_step_def linked_def)

lemma stream_good_eq:
  "\<lbrakk>start_app_stream (rtsp_ops rp) cfg s = (b, t); stream_good s\<rbrakk> \<Longrightarrow> stream_good t"
  "\<lbrakk>start_platform_stream (rtmp_ops re) fa pc s = (b, t); stream_good s\<rbrakk> \<Longrightarrow> stream_good t"
  "\<lbrakk>stop_platform_stream (rtmp_ops re) i s = (b, q, t); stream_good s\<rbrakk> \<Longrightarrow> stream_good t"
  by (metis stream_ops_good snd_conv)+

lemma device_ok_session:
  assumes "device_ok w" "quiet_step (dv_session w) s"
    "dv_session w1 = s" "dv_recording w1 = dv_recording w" "stream_good (dv_streaming w1)"
  shows "device_ok w1"
  using assms by (auto simp: device_ok_def quiet_step_def linked_def)

text \<open>Whether a session is open.\<close>

definition session_open :: "device \<Rightarrow> bool" where
  "session_open w \<longleftrightarrow> ss_phase (dv_session w) \<noteq> Idle"

definition keeps_ok :: "device_handler \<Rightarrow> bool" where
  "keeps_ok h \<longleftrightarrow>
     (\<forall>e p w. device_ok w \<longrightarrow>
        device_ok (snd (ha_handle h e p w)) \<and>
        session_open (snd (ha_handle h e p w)) = session_open w)"

lemma device_ok_same:
  "\<lbrakk>device_ok w; dv_session w1 = dv_session w; dv_recording w1 = dv_recording w;
    dv_streaming w1 = dv_streaming w\<rbrakk> \<Longrightarrow> device_ok w1"
  by (simp add: device_ok_def)

lemma passive_keep:
  "keeps_ok (device_handler cfg)" "keeps_ok match_state_handler" "keeps_ok download_handler"
  "keeps_ok raw_capture_handler" "keeps_ok thumbnail_handler"
  by (auto simp: keeps_ok_def session_open_def device_handlers elim: device_ok_same
    split: prod.split command_payload.split)

lemma session_handle_quiet: "session_handle mk m s = (r, t) \<Longrightarrow> quiet_step s t"
  by (auto simp: session_handle_def dest: session_quiet_eq split: prod.splits bool.splits)

lemma session_keep: "keeps_ok session_handler"
  by (auto simp: keeps_ok_def session_open_def session_handler_def device_ok_def
    dest!: session_handle_quiet intro: quiet_keeps
    simp: quiet_keeps(3) split: prod.split command_payload.split)

lemma overlay_quiet: "overlay_handle F render now pb (s, c) = (r, t, d) \<Longrightarrow> quiet_step s t"
  by (auto simp: overlay_handle_def Let_def dest: session_quiet_eq
    split: prod.splits bool.splits option.splits)

lemma after_update_session: "after_update F render now s c = (r, t, d) \<Longrightarrow> t = s"
  by (auto simp: after_update_def split: option.splits prod.splits)

lemma match_quiet: "match_handle F render now p (s, c) = (r, t, d) \<Longrightarrow> quiet_step s t"
  by (auto simp: match_handle_def handle_score_update_def handle_match_control_def
    handle_banner_event_def Let_def dest!: after_update_session dest: session_quiet_eq
    split: command_payload.splits prod.splits bool.splits option.splits if_splits)

lemma overlay_keep: "keeps_ok overlay_handler" "keeps_ok match_handler"
  by (auto simp: keeps_ok_def session_open_def overlay_handler_def match_handler_def device_ok_def
      dest!: overlay_quiet match_quiet intro: quiet_keeps simp: quiet_keeps(3)
      split: prod.split command_payload.split)

lemma streaming_handle_good:
  "\<lbrakk>streaming_handle (rtmp_ops re) fa p (url, st) = (r, u, st1); stream_good st\<rbrakk> \<Longrightarrow> stream_good st1"
  by (auto simp: streaming_handle_def streaming_handle_control_def streaming_handle_set_config_def
    Let_def dest: stream_good_eq
    split: command_payload.splits prod.splits bool.splits if_splits)

lemma streaming_keep: "keeps_ok streaming_handler"
  by (auto simp: keeps_ok_def session_open_def streaming_handler_def device_ok_def dest!: streaming_handle_good
    split: prod.split)

lemma wifi_quiet:
  assumes "wifi_handle os fk dd (rtsp_ops rp) pp dp p l = (r, l1)"
  shows "quiet_step (lk_session l) (lk_session l1) \<and>
    (stream_good (lk_streaming l) \<longrightarrow> stream_good (lk_streaming l1))"
  using assms
  by (auto simp: wifi_handle_def wifi_handle_start_def wifi_handle_stop_def Let_def session_quiet
    intro: inv_rules dest: session_quiet_eq
    split: prod.splits option.splits bool.splits if_splits)

lemma wifi_keep: "keeps_ok wifi_handler"
  by (auto simp: keeps_ok_def session_open_def wifi_handler_def device_ok_def dest!: wifi_quiet
    intro: quiet_keeps simp: quiet_keeps(3) split: prod.split)

lemma started_recording: "start_recording ro dk v t r = (True, r1) \<Longrightarrow> rs_state r1 = RecRecording"
  by (auto simp: start_recording_def Let_def split: if_splits prod.splits bool.splits)

lemma paused_recording:
  "pause_recording ro r = (b, r1) \<Longrightarrow> rs_state r \<noteq> RecIdle \<Longrightarrow> rs_state r1 \<noteq> RecIdle"
  "resume_recording ro r = (b, r1) \<Longrightarrow> rs_state r \<noteq> RecIdle \<Longrightarrow> rs_state r1 \<noteq> RecIdle"
  by (auto simp: pause_recording_def resume_recording_def split: if_splits)

lemma rec_good_eq:
  "\<lbrakk>start_recording (gst_recorder_ops env) dk v t s = (b, s1); rec_good s\<rbrakk> \<Longrightarrow> rec_good s1"
  "\<lbrakk>pause_recording (gst_recorder_ops env) s = (b, s1); rec_good s\<rbrakk> \<Longrightarrow> rec_good s1"
  "\<lbrakk>resume_recording (gst_recorder_ops env) s = (b, s1); rec_good s\<rbrakk> \<Longrightarrow> rec_good s1"
  "\<lbrakk>stop_recording (gst_recorder_ops env) wt s = (x, s1); rec_good s\<rbrakk> \<Longrightarrow> rec_good s1"
  by (metis rec_ops_good snd_conv)+

lemma recording_stop_phase:
  "ss_phase (snd (on_recording_stop s)) \<noteq> Recording"
  "ss_phase (snd (on_recording_stop s)) = Idle \<longleftrightarrow> ss_phase s = Idle"
  by (auto simp: on_recording_stop_def)

lemma recording_handle_keeps:
  assumes "recording_handle (gst_recorder_ops env) dk wt a (s, r) = (resp, s1, r1)"
    "session_inv s" "linked s r" "rec_good r"
  shows "session_inv s1 \<and> linked s1 r1 \<and> rec_good r1 \<and> (ss_phase s1 = Idle \<longleftrightarrow> ss_phase s = Idle)"
proof (cases a)
  case RECORDING_START
  have iv: "ss_phase s = Ready \<Longrightarrow> session_inv (s\<lparr>ss_phase := Recording\<rparr>)"
    using session_inv_calls(6) [of s] assms(2) by (simp add: on_recording_start_def)
  show ?thesis
    using assms RECORDING_START iv
    by (auto simp: recording_handle_def linked_def session_snapshot_def on_recording_start_def
      dest: rec_good_eq started_recording
      split: option.splits if_splits prod.splits bool.splits)
next
  case RECORDING_STOP
  then show ?thesis
    using assms session_inv_calls(7) [of s] recording_stop_phase [of s]
    by (auto simp: recording_handle_def linked_def Let_def recording_stop_phase(2) dest: rec_good_eq
        split: prod.splits)
next
  case RECORDING_PAUSE
  then show ?thesis
    using assms by (auto simp: recording_handle_def linked_def dest: rec_good_eq paused_recording split: prod.splits)
next
  case RECORDING_RESUME
  then show ?thesis
    using assms by (auto simp: recording_handle_def linked_def dest: rec_good_eq paused_recording split: prod.splits)
next
  case (RECORDING_OTHER n)
  then show ?thesis using assms by (simp add: recording_handle_def)
qed

lemma recording_keep: "keeps_ok (recording_handler cfg)"
  by (auto simp: keeps_ok_def session_open_def recording_handler_def device_ok_def dest!: recording_handle_keeps
    split: prod.split command_payload.split)

lemma dispatch_ok:
  assumes "device_ok w" "dispatch (main_dispatcher cfg) e cmd w = (r, w1)"
  shows "device_ok w1" "session_open w1 = session_open w"
proof -
  have "device_ok w1 \<and> session_open w1 = session_open w"
  proof (cases "map_of (main_dispatcher cfg) (payload_case_of (cm_payload cmd))")
    case None
    then show ?thesis using assms by (auto simp: dispatch_def split: if_splits)
  next
    case (Some h)
    then have "h \<in> snd ` set (main_dispatcher cfg)" by (metis map_of_SomeD imageI snd_conv)
    then have "keeps_ok h"
      by (auto simp: main_dispatcher_list passive_keep session_keep overlay_keep streaming_keep
        wifi_keep recording_keep)
    then have "device_ok (snd (ha_handle h e (cm_payload cmd) w)) \<and>
        session_open (snd (ha_handle h e (cm_payload cmd) w)) = session_open w"
      using assms(1) by (simp add: keeps_ok_def)
    then show ?thesis
      using assms Some by (auto simp: dispatch_def split: if_splits prod.splits handle_result.splits)
  qed
  then show "device_ok w1" "session_open w1 = session_open w" by simp_all
qed

section \<open>Disconnect\<close>

lemma device_disconnect_eq:
  "device_disconnect e w =
     (if ss_phase (dv_session w) = Idle then w
      else w\<lparr>dv_session := session_state_default,
             dv_recording := snd (stop_recording (gst_recorder_ops (en_gst e)) (en_write_thumb e) (dv_recording w)),
             dv_streaming := stop_streaming (rtsp_ops (en_rtsp e)) (rtmp_ops (en_rtmp e)) (dv_streaming w),
             dv_dhcp := dhcp_stop (dv_dhcp w), dv_wifi := wifi_stop (en_wpa e) (dv_wifi w)\<rparr>)"
  by (simp add: device_disconnect_def on_disconnect_def cleanup_safe_def device_cleanup_def
    finalize_recording_def cleanup_stop_streaming_def teardown_wifi_direct_def Let_def)

lemma session_default_ok: "session_inv session_state_default"
  by (simp add: session_inv_def session_state_default_def phase_order)

lemma linked_default [simp]: "linked session_state_default r"
  by (simp add: linked_def session_state_default_def)

lemma disconnect_ok: "device_ok w \<Longrightarrow> device_ok (device_disconnect e w)"
  by (simp add: device_disconnect_eq device_ok_def session_default_ok rec_ops_good
    stream_ops_good)

lemma recording_push_state [simp]: "rs_state (recording_push ro f r) = rs_state r"
  by (simp add: recording_push_def)

lemma final_frame_ok: "device_ok w \<Longrightarrow> device_ok (device_final_frame e f w)"
  by (simp add: device_ok_def device_final_frame_def linked_def rec_ops_good stream_ops_good)

lemma tick_quiet:
  "tick_clock F render now (s, c) = Some (t, d) \<Longrightarrow> quiet_step s t"
  by (auto simp: tick_clock_def dest: session_quiet_eq split: prod.splits bool.splits option.splits)

lemma device_step_ok:
  assumes "device_ok w" "device_step cfg ev w = Some w1"
  shows "device_ok w1"
  using assms
proof (cases ev)
  case (Command e cmd)
  then show ?thesis using assms dispatch_ok
    by (auto split: prod.splits option.splits)
next
  case (ClockTick e)
  then show ?thesis using assms
    by (auto simp: device_ok_def dest!: tick_quiet intro: quiet_keeps split: prod.splits option.splits)
next
  case (Disconnect e)
  then show ?thesis using assms disconnect_ok by auto
next
  case (FinalFrame e f)
  then show ?thesis using assms final_frame_ok by auto
next
  case Connect
  then show ?thesis using assms
    by (auto simp: device_ok_def linked_def session_inv_calls) (auto simp: on_connect_def split: if_splits)
qed (auto simp: device_ok_def)

lemma device_new_ok: "device_ok (device_new cfg)"
proof -
  have "stp.streaming_ok re streaming_new" for re
    using stream_run_ok [of re _ "[]"] by simp
  then show ?thesis
    by (simp add: device_ok_def device_new_def session_default_ok rec_good_def
      stream_good_def gst_service_ok)
qed

lemma reachable_ok: "device_reachable cfg w \<Longrightarrow> device_ok w"
  by (induction rule: device_reachable.induct) (auto intro: device_new_ok device_step_ok)

text \<open>The cleanup of the device keeps the promises of its port.\<close>

definition recording_over :: "device \<Rightarrow> bool" where
  "recording_over w \<longleftrightarrow>
     rs_state (dv_recording w) = RecIdle \<and> \<not> gr_running (rs_recorder (dv_recording w))"

definition streams_over :: "device \<Rightarrow> bool" where
  "streams_over w \<longleftrightarrow>
     st_streams (dv_streaming w) = [] \<and> st_names (dv_streaming w) = [] \<and>
     \<not> rv_running (st_server (dv_streaming w))"

definition wifi_over :: "device \<Rightarrow> bool" where
  "wifi_over w \<longleftrightarrow>
     ds_pid (dv_dhcp w) \<le> 0 \<and> \<not> wm_sock (dv_wifi w) \<and> wifi_state_of (dv_wifi w) = wifi_state_default"

definition services_good :: "device \<Rightarrow> bool" where
  "services_good w \<longleftrightarrow> rec_good (dv_recording w) \<and> stream_good (dv_streaming w)"

lemma stopped_recording:
  assumes "rec_good r"
  shows "rs_state (snd (stop_recording (gst_recorder_ops env) wt r)) = RecIdle"
    "\<not> gr_running (rs_recorder (snd (stop_recording (gst_recorder_ops env) wt r)))"
    "rs_state r \<noteq> RecIdle \<Longrightarrow>
       gr_finalized (rs_recorder (snd (stop_recording (gst_recorder_ops env) wt r))) =
         gr_finalized (rs_recorder r) @ [(rs_video_path r, gr_fed (rs_recorder r))]"
  using assms unfolding rec_good_iff [of env, symmetric]
  by (auto simp: stop_recording_def gst.recording_ok_def gst_stop_def gst_inv_def
      gst_teardown_def Let_def split: prod.split)

interpretation device_port: cleanup_port "device_cleanup e" services_good recording_over streams_over wifi_over
  for e
proof unfold_locales
  fix w w1 :: device and x
  assume good: "services_good w"
  then have "stp.streaming_ok (en_rtmp e) (dv_streaming w)"
    by (simp add: services_good_def stream_good_iff)
  note cleared = stp.stop_streaming_clears [OF this, of "en_rtsp e"]
  show "cl_finalize_recording (device_cleanup e) w = (x, w1) \<Longrightarrow> services_good w1 \<and> recording_over w1"
    using good stopped_recording
    by (auto simp: device_cleanup_def finalize_recording_def services_good_def recording_over_def rec_ops_good)
  show "services_good w1 \<and> recording_over w1 \<and> streams_over w1"
    if "recording_over w" "cl_stop_streaming (device_cleanup e) w = (x, w1)"
    using that good cleared
    by (auto simp: device_cleanup_def cleanup_stop_streaming_def services_good_def recording_over_def
        streams_over_def stream_ops_good)
  show "services_good w1 \<and> recording_over w1 \<and> streams_over w1 \<and> wifi_over w1"
    if "recording_over w" "streams_over w" "cl_teardown_wifi_direct (device_cleanup e) w = (x, w1)"
    using that good
    by (auto simp: device_cleanup_def teardown_wifi_direct_def services_good_def recording_over_def
        streams_over_def wifi_over_def dhcp_stop_def wifi_stop_def close_ctrl_socket_def
        wifi_state_of_def Let_def)
qed

lemma disconnect_resets_spec:
  assumes "device_reachable cfg w" "ss_phase (dv_session w) \<noteq> Idle" "w1 = device_disconnect e w"
  shows "dv_session w1 = session_state_default \<and>
    rs_state (dv_recording w1) = RecIdle \<and> \<not> gr_running (rs_recorder (dv_recording w1)) \<and>
    (rs_state (dv_recording w) \<noteq> RecIdle \<longrightarrow>
       gr_finalized (rs_recorder (dv_recording w1)) = gr_finalized (rs_recorder (dv_recording w)) @
         [(rs_video_path (dv_recording w), gr_fed (rs_recorder (dv_recording w)))]) \<and>
    st_streams (dv_streaming w1) = [] \<and> st_names (dv_streaming w1) = [] \<and>
    \<not> rv_running (st_server (dv_streaming w1)) \<and>
    ds_pid (dv_dhcp w1) \<le> 0 \<and> \<not> wm_sock (dv_wifi w1) \<and>
    wifi_state_of (dv_wifi w1) = wifi_state_default \<and>
    dv_raw w1 = dv_raw w \<and> dv_tokens w1 = dv_tokens w \<and> dv_overlay w1 = dv_overlay w"
proof -
  have ok: "device_ok w" using assms(1) by (rule reachable_ok)
  then have good: "services_good w" by (simp add: device_ok_def services_good_def)
  obtain t w2 where D: "on_disconnect (device_cleanup e) (dv_session w) w = (t, w2)" by fastforce
  note over = device_port.disconnect_over [OF good assms(2) D]
  have w1: "w1 = w2\<lparr>dv_session := t\<rparr>" using D assms(3) by (simp add: device_disconnect_def)
  have "rs_state (dv_recording w) \<noteq> RecIdle \<longrightarrow>
       gr_finalized (rs_recorder (dv_recording w1)) = gr_finalized (rs_recorder (dv_recording w)) @
         [(rs_video_path (dv_recording w), gr_fed (rs_recorder (dv_recording w)))]"
    "dv_raw w1 = dv_raw w \<and> dv_tokens w1 = dv_tokens w \<and> dv_overlay w1 = dv_overlay w"
    using good assms(2) stopped_recording(3) unfolding assms(3)
    by (auto simp: device_disconnect_eq services_good_def)
  then show ?thesis
    using over w1 by (simp add: recording_over_def streams_over_def wifi_over_def)
qed

section \<open>A device at work\<close>

definition test_config :: config_data where
  "test_config =
     \<lparr>cfg_calibration = calibration_data_default, cfg_device = device_data_default,
      cfg_storage = storage_data_default, cfg_wifi_direct = wifi_direct_data_default\<rparr>"

text \<open>An environment in which every call succeeds.\<close>

definition test_env :: environment where
  "test_env =
     \<lparr>en_mkdirs = (\<lambda>_. True),
      en_gst = \<lparr>ge_pipeline = (\<lambda>_. True), ge_error = (\<lambda>_. False), ge_appsrc = (\<lambda>_. True),
        ge_encoder = (\<lambda>_. True), ge_playing = (\<lambda>_. True), ge_alloc = (\<lambda>_. True)\<rparr>,
      en_fs_exists = (\<lambda>_. True), en_available = (\<lambda>_. None), en_write_thumb = (\<lambda>_ _. True),
      en_rtsp = \<lparr>rp_attach = (\<lambda>_. 1), rp_buffer = (\<lambda>_. True)\<rparr>,
      en_rtmp = \<lparr>re_parse_error = (\<lambda>_. False), re_pipeline = (\<lambda>_. True), re_appsrc = (\<lambda>_. True),
        re_playing = (\<lambda>_. True), re_lock = (\<lambda>_. True), re_buffer = (\<lambda>_. True)\<rparr>,
      en_wpa = answering_daemon [Some ''OK'', Some started_p0],
      en_forked = 42, en_died = False, en_raw_mkdir = True, en_raw_open = (\<lambda>_. True),
      en_disk = (\<lambda>_ _. True), en_root_exists = True, en_tree = [], en_now_unix = 0,
      en_fresh_token = ''token'', en_encode = (\<lambda>_ _ _. Inr None),
      en_fmt = \<lparr>fm_int = (\<lambda>_. []), fm_int02 = (\<lambda>_. []), fm_float = (\<lambda>_. [])\<rparr>,
      en_render = (\<lambda>_ w h. Some \<lparr>ri_width = w, ri_height = h, ri_stride = 0, ri_pixels = []\<rparr>),
      en_now_ms = 0, en_epoch_ms = 0,
      en_stats = \<lparr>sy_storage_free_bytes = 0, sy_storage_total_bytes = 0, sy_temp_celsius = Fin 0,
        sy_ram_used_pct = Fin 0, sy_cpu_used_pct = Fin 0, sy_uptime_seconds = 0,
        sy_battery_level_pct = 0\<rparr>\<rparr>"

definition test_session :: session_config_msg where
  "test_session =
     \<lparr>sm_match_uuid = ''m'', sm_user_uuid = ''u'', sm_sport = ''s'', sm_num_periods = 2,
      sm_period_length_seconds = 60, sm_rtmp_url = None, sm_stream_key = None,
      sm_video_output_path = ''/v/m.mp4'', sm_thumbnail_output_path = [], sm_team_a_id = ''a'',
      sm_team_b_id = ''b'', sm_team_a_name = ''A'', sm_team_b_name = ''B'',
      sm_team_a_color_hex = [], sm_team_b_color_hex = []\<rparr>"

definition test_layout :: pb_layout where
  "test_layout = \<lparr>pl_canvas_width = 1280, pl_canvas_height = 720, pl_elements = [], pl_templates = []\<rparr>"

fun run_events :: "config_data \<Rightarrow> device_event list \<Rightarrow> device \<Rightarrow> device option" where
  "run_events cfg [] w = Some w"
| "run_events cfg (ev # evs) w =
     (case device_step cfg ev w of None \<Rightarrow> None | Some w1 \<Rightarrow> run_events cfg evs w1)"

lemma run_events_reachable:
  "\<lbrakk>run_events cfg evs w = Some w1; device_reachable cfg w\<rbrakk> \<Longrightarrow> device_reachable cfg w1"
  by (induction evs arbitrary: w) (auto intro: device_reachable.event split: option.splits)

text \<open>A device that is set up from power-on, in surroundings where that works: the WiFi daemon forms a
  group, the DHCP server starts, directories can be made and an empty scene can be drawn.\<close>

definition calm_env :: "environment \<Rightarrow> bool" where
  "calm_env e \<longleftrightarrow>
     en_wpa e = answering_daemon [Some ''OK'', Some started_p0] \<and> en_forked e = 42 \<and> \<not> en_died e \<and>
     (\<forall>dir. en_mkdirs e dir) \<and> (\<forall>sc. rsc_elements sc = [] \<longrightarrow> en_render e sc 1280 720 \<noteq> None)"

definition send_in :: "environment \<Rightarrow> command_payload \<Rightarrow> device_event" where
  "send_in e p = Command e \<lparr>cm_correlation_id = ''c'', cm_payload = p\<rparr>"

lemma wifi_step:
  assumes "calm_env e" "dv_wifi w = wpa_new" "dv_dhcp w = dhcp_new" "ss_phase (dv_session w) = Connected"
  shows "\<exists>w1. device_step cfg (send_in e StartWifiDirect) w = Some w1 \<and>
    ss_phase (dv_session w1) = WifiReady \<and> ds_pid (dv_dhcp w1) = 42 \<and>
    dv_overlay w1 = dv_overlay w \<and> dv_recording w1 = dv_recording w"
proof -
  obtain m where "start_p2p_group_owner (en_wpa e) wpa_new = (Some group_p0, m)"
    using start_p0 assms(1) by (metis calm_env_def prod.collapse)
  then show ?thesis
    using assms
    by (simp add: calm_env_def send_in_def dispatch_def main_dispatcher_list wifi_handler_def wifi_handle_def
      wifi_handle_start_def dhcp_start_def dhcp_new_def group_p0_def on_wifi_ready_def phase_order Let_def)
qed

lemma parents_made: "(\<And>dir. mk dir) \<Longrightarrow> fst (prepare_output_dirs mk cfg)"
  by (simp add: prepare_output_dirs_def make_parent_def Let_def split: prod.split option.split)

lemma config_step:
  assumes "calm_env e" "ss_phase (dv_session w) = WifiReady"
  shows "\<exists>w1. device_step cfg (send_in e (PushSessionConfig m)) w = Some w1 \<and>
    ss_phase (dv_session w1) = Configured \<and> ss_config (dv_session w1) = Some (session_config_of m) \<and>
    dv_dhcp w1 = dv_dhcp w \<and> dv_overlay w1 = dv_overlay w \<and> dv_recording w1 = dv_recording w"
  using assms
  by (simp add: calm_env_def send_in_def dispatch_def main_dispatcher_list session_handler_def session_handle_def
    apply_session_config_def parents_made phase_order)

lemma layout_step:
  assumes "calm_env e" "ss_phase (dv_session w) = Configured" "pl_elements pb = []"
    "dv_overlay w = overlay_controller_new \<lparr>osz_width = 1280, osz_height = 720\<rparr>"
  shows "\<exists>w1 img. device_step cfg (send_in e (PushOverlayLayout pb)) w = Some w1 \<and>
    ss_phase (dv_session w1) = Ready \<and> ss_config (dv_session w1) = ss_config (dv_session w) \<and>
    dv_dhcp w1 = dv_dhcp w \<and> dv_recording w1 = dv_recording w \<and> oc_sink (dv_overlay w1) = Some img"
proof -
  define c where "c = controller_set_binding_data
      (build_binding_data (session_snapshot ((dv_session w)\<lparr>ss_phase := Ready\<rparr>)))
      (controller_set_layout (map_layout_from_proto pb) (dv_overlay w))"
  obtain sc os where B: "build_scene (en_fmt e) (en_now_ms e) (oc_scene c) = (sc, os)" by fastforce
  then have empty: "rsc_elements sc = []"
    using assms(3)
    by (auto simp: c_def build_scene_def expire_banners_def controller_set_binding_data_def
      set_binding_data_def controller_set_layout_def set_layout_def map_layout_from_proto_def Let_def)
  then obtain img where img: "en_render e sc 1280 720 = Some img" using assms(1) by (auto simp: calm_env_def)
  have "oc_out_size c = \<lparr>osz_width = 1280, osz_height = 720\<rparr>" "\<not> oc_pushed_once c"
    by (simp_all add: c_def assms(4) controller_set_binding_data_def controller_set_layout_def
      overlay_controller_new_def)
  then obtain c1 where "controller_refresh (en_fmt e) (en_render e) (en_now_ms e) c = Some (True, c1)"
    "oc_sink c1 = Some img"
    using B img empty by (simp add: controller_refresh_def scene_signature_def caching_push_frame_def Let_def)
  then show ?thesis
    using assms(2)
    by (simp add: send_in_def dispatch_def main_dispatcher_list overlay_handler_def overlay_handle_def
      on_overlay_configured_def sync_overlay_def clock_value_def Let_def phase_order c_def)
qed

definition setup_events :: "environment \<Rightarrow> device_event list" where
  "setup_events e =
     [Connect, send_in e StartWifiDirect, send_in e (PushSessionConfig test_session),
      send_in e (PushOverlayLayout test_layout)]"

lemma setup_run:
  assumes "calm_env e"
  obtains w img where "run_events cfg (setup_events e) (device_new cfg) = Some w"
    "ss_phase (dv_session w) = Ready" "ss_config (dv_session w) = Some (session_config_of test_session)"
    "ds_pid (dv_dhcp w) = 42" "dv_recording w = recording_service_new gst_recorder_new"
    "oc_sink (dv_overlay w) = Some img"
proof -
  let ?w0 = "device_new cfg\<lparr>dv_session := snd (on_connect (dv_session (device_new cfg)))\<rparr>"
  have w0: "dv_wifi ?w0 = wpa_new" "dv_dhcp ?w0 = dhcp_new" "ss_phase (dv_session ?w0) = Connected"
    "dv_overlay ?w0 = overlay_controller_new \<lparr>osz_width = 1280, osz_height = 720\<rparr>"
    "dv_recording ?w0 = recording_service_new gst_recorder_new"
    by (simp_all add: device_new_def on_connect_def session_state_default_def kOverlayWidth_def kOverlayHeight_def)
  obtain w1 where w1: "device_step cfg (send_in e StartWifiDirect) ?w0 = Some w1"
    "ss_phase (dv_session w1) = WifiReady" "ds_pid (dv_dhcp w1) = 42"
    "dv_overlay w1 = dv_overlay ?w0" "dv_recording w1 = dv_recording ?w0"
    using wifi_step [OF assms w0(1-3)] by blast
  obtain w2 where w2: "device_step cfg (send_in e (PushSessionConfig test_session)) w1 = Some w2"
    "ss_phase (dv_session w2) = Configured" "ss_config (dv_session w2) = Some (session_config_of test_session)"
    "dv_dhcp w2 = dv_dhcp w1" "dv_overlay w2 = dv_overlay w1" "dv_recording w2 = dv_recording w1"
    using config_step [OF assms w1(2)] by blast
  have "pl_elements test_layout = []" by (simp add: test_layout_def)
  from layout_step [OF assms w2(2) this w2(5) [unfolded w1(4) w0(4)]]
  obtain w3 img where w3: "device_step cfg (send_in e (PushOverlayLayout test_layout)) w2 = Some w3"
    "ss_phase (dv_session w3) = Ready" "ss_config (dv_session w3) = ss_config (dv_session w2)"
    "dv_dhcp w3 = dv_dhcp w2" "dv_recording w3 = dv_recording w2" "oc_sink (dv_overlay w3) = Some img"
    by blast
  have "run_events cfg (setup_events e) (device_new cfg) = Some w3"
    by (simp add: setup_events_def w1(1) w2(1) w3(1))
  then show thesis
    by (rule that) (simp_all add: w3 w2 w1 w0)
qed

lemma test_env_calm: "calm_env test_env"
  by (simp add: calm_env_def test_env_def)

definition send :: "command_payload \<Rightarrow> device_event" where
  "send = send_in test_env"

text \<open>From power-on to a running recording.\<close>

definition recording_run :: "device option" where
  "recording_run =
     run_events test_config (setup_events test_env @ [send (RecordingControl RECORDING_START)])
       (device_new test_config)"

lemma run_events_append:
  "run_events cfg (es @ fs) w = (case run_events cfg es w of None \<Rightarrow> None | Some w1 \<Rightarrow> run_events cfg fs w1)"
  by (induction es arbitrary: w) (simp_all split: option.split)

lemma test_disk_ok: "disk_ok test_config test_env"
  by code_simp

lemma recording_run_phase:
  "map_option (\<lambda>w. (ss_phase (dv_session w), ds_pid (dv_dhcp w))) recording_run =
     Some (Recording, 42)"
proof -
  obtain w where w: "run_events test_config (setup_events test_env) (device_new test_config) = Some w"
    "ss_phase (dv_session w) = Ready" "ss_config (dv_session w) = Some (session_config_of test_session)"
    "ds_pid (dv_dhcp w) = 42" "dv_recording w = recording_service_new gst_recorder_new"
    by (rule setup_run [OF test_env_calm])
  have "fst (start_recording (gst_recorder_ops (en_gst test_env)) True ''/v/m.mp4'' []
      (recording_service_new gst_recorder_new))"
    by code_simp
  then obtain r where "start_recording (gst_recorder_ops (en_gst test_env)) True ''/v/m.mp4'' []
      (recording_service_new gst_recorder_new) = (True, r)"
    by (metis prod.collapse)
  then show ?thesis
    using w(2-5)
    by (simp add: recording_run_def run_events_append w(1) send_def send_in_def dispatch_def
      main_dispatcher_list recording_handler_def recording_handle_def session_snapshot_def test_disk_ok
      on_recording_start_def session_config_of_def test_session_def)
qed

definition recording_device :: device where
  "recording_device = the recording_run"

lemma recording_run_Some:
  "recording_run = Some recording_device" "ss_phase (dv_session recording_device) = Recording"
  "ds_pid (dv_dhcp recording_device) = 42"
proof -
  obtain w where w: "recording_run = Some w" using recording_run_phase by auto
  have d: "recording_device = w" by (simp only: recording_device_def w option.sel)
  show "recording_run = Some recording_device" unfolding d by (rule w)
  show "ss_phase (dv_session recording_device) = Recording" "ds_pid (dv_dhcp recording_device) = 42"
    using recording_run_phase unfolding d w by (simp_all only: option.map option.inject prod.inject)
qed

lemma recording_device_reachable: "device_reachable test_config recording_device"
  by (rule run_events_reachable [OF recording_run_Some(1) [unfolded recording_run_def]
    device_reachable.boot])

lemmas recording_device_phase = recording_run_Some(2)

section \<open>Staying in step\<close>

lemma egress_refused:
  "start_platform_stream (rtmp_ops re) (Some rtmp_new) (egress_config d) st = (False, st)"
  by (simp add: start_platform_stream_def rtmp_start_def egress_config_def rtmp_new_def
    platform_stream_config_default_def kEgressStreamId_def)

text \<open>What holds after every event: a recorder runs only in a session, the DHCP server runs exactly from
  the phase on in which the group is up, the preview only in a session, and no platform stream
  ever runs.\<close>

definition services_tied :: "device \<Rightarrow> bool" where
  "services_tied w \<longleftrightarrow>
     (rs_state (dv_recording w) \<noteq> RecIdle \<longrightarrow> ss_phase (dv_session w) \<noteq> Idle) \<and>
     (0 < ds_pid (dv_dhcp w) \<longleftrightarrow> WifiReady \<le> ss_phase (dv_session w)) \<and>
     (rv_running (st_server (dv_streaming w)) \<longrightarrow> ss_phase (dv_session w) \<noteq> Idle) \<and>
     st_streams (dv_streaming w) = []"

text \<open>A recorder that runs outside the recording phase is out of step.\<close>

definition in_step :: "device \<Rightarrow> bool" where
  "in_step w \<longleftrightarrow> (rs_state (dv_recording w) \<noteq> RecIdle \<longrightarrow> ss_phase (dv_session w) = Recording)"

fun forks :: "device_event \<Rightarrow> bool" where
  "forks (Command e cmd) \<longleftrightarrow> en_forked e \<noteq> 0"
| "forks ev \<longleftrightarrow> True"

fun stops_wifi :: "device_event \<Rightarrow> bool" where
  "stops_wifi (Command e cmd) \<longleftrightarrow> cm_payload cmd = StopWifiDirect"
| "stops_wifi ev \<longleftrightarrow> False"

fun ends_recording :: "device_event \<Rightarrow> bool" where
  "ends_recording (Disconnect e) \<longleftrightarrow> True"
| "ends_recording (Command e cmd) \<longleftrightarrow> cm_payload cmd = RecordingControl RECORDING_STOP"
| "ends_recording ev \<longleftrightarrow> False"

text \<open>A session step that stays on its side of every boundary the services depend on.\<close>

definition same_side :: "session_state \<Rightarrow> session_state \<Rightarrow> bool" where
  "same_side s t \<longleftrightarrow>
     (ss_phase t = Idle \<longleftrightarrow> ss_phase s = Idle) \<and> (WifiReady \<le> ss_phase t \<longleftrightarrow> WifiReady \<le> ss_phase s) \<and>
     (ss_phase t = Recording \<longleftrightarrow> ss_phase s = Recording)"

lemma session_same_side:
  "apply_session_config mk cfg s = (b, t) \<Longrightarrow> same_side s t"
  "on_overlay_configured s = (b, t) \<Longrightarrow> same_side s t"
  "apply_match_update mu s = (b, t) \<Longrightarrow> same_side s t"
  "same_side s s"
  by (auto simp: same_side_def session_defs phase_order split: if_splits option.splits)

lemma handles_same_side:
  "session_handle mk m s = (r, t) \<Longrightarrow> same_side s t"
  "overlay_handle F render now pb (s, c) = (q, t, d) \<Longrightarrow> same_side s t"
  "match_handle F render now p (s, c) = (q, t, d) \<Longrightarrow> same_side s t"
  "tick_clock F render now (s, c) = Some (t, d) \<Longrightarrow> same_side s t"
  by (auto simp: session_handle_def overlay_handle_def match_handle_def handle_score_update_def
    handle_match_control_def handle_banner_event_def tick_clock_def Let_def dest!: after_update_session
    dest: session_same_side(1-3) intro: session_same_side(4)
    split: command_payload.splits prod.splits bool.splits option.splits if_splits)

lemma side_keeps:
  assumes "same_side (dv_session w) s" "dv_session w1 = s" "dv_recording w1 = dv_recording w"
    "dv_dhcp w1 = dv_dhcp w" "dv_streaming w1 = dv_streaming w"
  shows "services_tied w \<Longrightarrow> services_tied w1" "in_step w \<Longrightarrow> in_step w1"
  using assms by (auto simp: same_side_def services_tied_def in_step_def)

definition keeps_step :: "device_handler \<Rightarrow> bool" where
  "keeps_step h \<longleftrightarrow>
     (\<forall>e p w. en_forked e \<noteq> 0 \<longrightarrow> services_tied w \<longrightarrow>
        services_tied (snd (ha_handle h e p w)) \<and>
        (p \<noteq> StopWifiDirect \<longrightarrow> in_step w \<longrightarrow> in_step (snd (ha_handle h e p w))))"

lemma keeps_step_side:
  assumes "\<And>e p w. same_side (dv_session w) (dv_session (snd (ha_handle h e p w))) \<and>
    dv_recording (snd (ha_handle h e p w)) = dv_recording w \<and>
    dv_dhcp (snd (ha_handle h e p w)) = dv_dhcp w \<and> dv_streaming (snd (ha_handle h e p w)) = dv_streaming w"
  shows "keeps_step h"
  unfolding keeps_step_def using side_keeps [OF _ refl] assms by blast

lemma side_steps:
  "keeps_step (device_handler cfg)" "keeps_step session_handler" "keeps_step overlay_handler"
  "keeps_step match_handler" "keeps_step match_state_handler" "keeps_step download_handler"
  "keeps_step raw_capture_handler" "keeps_step thumbnail_handler"
  by (rule keeps_step_side;
      auto simp: device_handlers dest: handles_same_side intro: session_same_side(4)
        split: prod.split command_payload.split)+

lemma streaming_side:
  "\<lbrakk>streaming_handle (rtmp_ops re) (Some rtmp_new) p (url, st) = (r, u, st1); st_streams st = []\<rbrakk> \<Longrightarrow> st1 = st"
  by (auto simp: streaming_handle_def streaming_handle_control_def streaming_handle_set_config_def
    stop_platform_stream_def egress_refused Let_def
    split: command_payload.splits prod.splits bool.splits if_splits)

lemma streaming_step: "keeps_step streaming_handler"
  by (auto simp: keeps_step_def streaming_handler_def services_tied_def in_step_def dest!: streaming_side
    split: prod.splits)

lemma failed_recording:
  "start_recording ro dk v t r = (False, r1) \<Longrightarrow> rs_state r1 = rs_state r"
  by (auto simp: start_recording_def Let_def split: if_splits prod.splits bool.splits)

lemma idle_recording:
  "pause_recording ro r = (b, r1) \<Longrightarrow> rs_state r = RecIdle \<Longrightarrow> rs_state r1 = RecIdle"
  "resume_recording ro r = (b, r1) \<Longrightarrow> rs_state r = RecIdle \<Longrightarrow> rs_state r1 = RecIdle"
  "stop_recording ro wt r = (x, r1) \<Longrightarrow> rs_state r1 = RecIdle"
  by (auto simp: pause_recording_def resume_recording_def stop_recording_def Let_def split: if_splits prod.splits)

lemma recording_handle_step:
  assumes "recording_handle ro dk wt a (s, r) = (resp, s1, r1)"
  shows "(ss_phase s1 = Idle \<longleftrightarrow> ss_phase s = Idle) \<and> (WifiReady \<le> ss_phase s1 \<longleftrightarrow> WifiReady \<le> ss_phase s) \<and>
    ((rs_state r \<noteq> RecIdle \<longrightarrow> ss_phase s \<noteq> Idle) \<longrightarrow> rs_state r1 \<noteq> RecIdle \<longrightarrow> ss_phase s1 \<noteq> Idle) \<and>
    ((rs_state r \<noteq> RecIdle \<longrightarrow> ss_phase s = Recording) \<longrightarrow> rs_state r1 \<noteq> RecIdle \<longrightarrow> ss_phase s1 = Recording) \<and>
    (a = RECORDING_STOP \<longrightarrow> rs_state r1 = RecIdle)"
  using assms
  by (cases a)
     (auto simp: recording_handle_def session_snapshot_def on_recording_start_def on_recording_stop_def
        phase_order Let_def
      dest: idle_recording failed_recording split: option.splits if_splits prod.splits bool.splits)

lemma recording_step: "keeps_step (recording_handler cfg)"
  unfolding keeps_step_def
  by (auto simp: recording_handler_def services_tied_def in_step_def dest!: recording_handle_step
    split: prod.splits command_payload.splits)

lemma preview_streams:
  "st_streams (snd (start_app_stream ao cfg st)) = st_streams st"
  by (auto simp: start_app_stream_def split: prod.splits)

lemma ready_phases:
  "on_wifi_ready s = (True, t) \<Longrightarrow> WifiReady \<le> ss_phase t"
  "on_wifi_ready s = (False, t) \<Longrightarrow> t = s \<and> ss_phase s = Idle"
  "\<lbrakk>on_wifi_ready s = (True, t)\<rbrakk> \<Longrightarrow> ss_phase s = Recording \<longleftrightarrow> ss_phase t = Recording"
  by (cases "ss_phase s"; auto simp: on_wifi_ready_def phase_order split: if_splits)+

lemma dhcp_pids:
  "dhcp_start fk dd i ip d = (False, d1) \<Longrightarrow> 0 < ds_pid d1 \<longleftrightarrow> 0 < ds_pid d"
  "\<lbrakk>dhcp_start fk dd i ip d = (True, d1); fk \<noteq> 0\<rbrakk> \<Longrightarrow> 0 < ds_pid d1 \<and> \<not> 0 < ds_pid d"
  "\<not> 0 < ds_pid (dhcp_stop d)"
  by (auto simp: dhcp_start_def dhcp_stop_def split: if_splits)

lemma stopped_phases:
  "ss_phase (snd (on_wifi_stopped s)) = Idle \<longleftrightarrow> ss_phase s = Idle"
  "\<not> WifiReady \<le> ss_phase (snd (on_wifi_stopped s))"
  by (auto simp: on_wifi_stopped_def phase_order)

definition link_tied :: "recording_state \<Rightarrow> gst_streaming link_state \<Rightarrow> bool" where
  "link_tied r l \<longleftrightarrow>
     (r \<noteq> RecIdle \<longrightarrow> ss_phase (lk_session l) \<noteq> Idle) \<and>
     (0 < ds_pid (lk_dhcp l) \<longleftrightarrow> WifiReady \<le> ss_phase (lk_session l)) \<and>
     (rv_running (st_server (lk_streaming l)) \<longrightarrow> ss_phase (lk_session l) \<noteq> Idle) \<and>
     st_streams (lk_streaming l) = []"

lemma wifi_stop_tied:
  "\<lbrakk>wifi_handle_stop os l = (resp, l1); link_tied r l\<rbrakk> \<Longrightarrow> link_tied r l1"
  using dhcp_pids(3) [of "lk_dhcp l"] stopped_phases [of "lk_session l"]
  by (auto simp: wifi_handle_stop_def link_tied_def Let_def)

lemma wifi_start_tied:
  assumes "wifi_handle_start os fk dd ao pp dp l = (resp, l1)" "fk \<noteq> 0" "link_tied r l"
  shows "link_tied r l1 \<and>
    ((r \<noteq> RecIdle \<longrightarrow> ss_phase (lk_session l) = Recording) \<longrightarrow> r \<noteq> RecIdle \<longrightarrow> ss_phase (lk_session l1) = Recording)"
proof (cases "start_p2p_group_owner os (lk_wifi l)")
  case (Pair g m)
  show ?thesis
  proof (cases "case g of None \<Rightarrow> None | Some g \<Rightarrow>
      Some (dhcp_start fk dd (wg_group_interface g) (wg_group_owner_ip g) (lk_dhcp l))")
    case None
    then show ?thesis using assms Pair by (auto simp: wifi_handle_start_def link_tied_def split: option.splits)
  next
    case (Some bd)
    then obtain g' where g: "g = Some g'" by (auto split: option.splits)
    obtain b d where bd: "dhcp_start fk dd (wg_group_interface g') (wg_group_owner_ip g') (lk_dhcp l) = (b, d)"
      by fastforce
    show ?thesis
    proof (cases b)
      case False
      then show ?thesis using assms Pair g bd dhcp_pids(1) [of fk dd]
        by (auto simp: wifi_handle_start_def link_tied_def)
    next
      case True
      with bd have "dhcp_start fk dd (wg_group_interface g') (wg_group_owner_ip g') (lk_dhcp l) = (True, d)" by simp
      note pids = dhcp_pids(2) [OF this assms(2)] dhcp_pids(3) [of d]
      obtain c t where t: "on_wifi_ready (lk_session l) = (c, t)" by fastforce
      show ?thesis
        using assms Pair g bd True t pids ready_phases [of "lk_session l" t]
        by (cases c) (auto simp: wifi_handle_start_def link_tied_def preview_streams phase_order Let_def)
    qed
  qed
qed

lemma wifi_tied: "keeps_step wifi_handler"
proof -
  have "services_tied (snd (ha_handle wifi_handler e p w)) \<and>
      (p \<noteq> StopWifiDirect \<longrightarrow> in_step w \<longrightarrow> in_step (snd (ha_handle wifi_handler e p w)))"
    if "en_forked e \<noteq> 0" "services_tied w" for e p w
  proof -
    let ?l = "\<lparr>lk_session = dv_session w, lk_wifi = dv_wifi w, lk_dhcp = dv_dhcp w, lk_streaming = dv_streaming w\<rparr>"
    have l: "link_tied (rs_state (dv_recording w)) ?l"
      using that(2) by (simp add: services_tied_def link_tied_def)
    show ?thesis
    proof (cases "p = StopWifiDirect")
      case True
      obtain resp l1 where "wifi_handle_stop (en_wpa e) ?l = (resp, l1)" by fastforce
      from wifi_stop_tied [OF this l] this True show ?thesis
        by (simp add: wifi_handler_def wifi_handle_def services_tied_def link_tied_def)
    next
      case False
      obtain resp l1 where "wifi_handle_start (en_wpa e) (en_forked e) (en_died e) (rtsp_ops (en_rtsp e)) kPreviewPort
          kDownloadPort ?l = (resp, l1)" by fastforce
      from wifi_start_tied [OF this that(1) l] this False show ?thesis
        by (simp add: wifi_handler_def wifi_handle_def services_tied_def link_tied_def in_step_def)
    qed
  qed
  then show ?thesis by (simp add: keeps_step_def)
qed

lemma dispatch_step:
  assumes "dispatch (main_dispatcher cfg) e cmd w = (r, w1)" "en_forked e \<noteq> 0" "services_tied w"
  shows "services_tied w1 \<and> (cm_payload cmd \<noteq> StopWifiDirect \<longrightarrow> in_step w \<longrightarrow> in_step w1)"
proof (cases "map_of (main_dispatcher cfg) (payload_case_of (cm_payload cmd))")
  case None
  then show ?thesis using assms by (auto simp: dispatch_def split: if_splits)
next
  case (Some h)
  then have "h \<in> snd ` set (main_dispatcher cfg)" by (metis map_of_SomeD imageI snd_conv)
  then have "keeps_step h"
    by (auto simp: main_dispatcher_list side_steps streaming_step recording_step wifi_tied)
  then have "services_tied (snd (ha_handle h e (cm_payload cmd) w)) \<and>
      (cm_payload cmd \<noteq> StopWifiDirect \<longrightarrow> in_step w \<longrightarrow> in_step (snd (ha_handle h e (cm_payload cmd) w)))"
    using assms(2,3) by (simp add: keeps_step_def)
  then show ?thesis
    using assms(1,3) Some by (auto simp: dispatch_def split: if_splits prod.splits handle_result.splits)
qed

lemma disconnect_step:
  assumes "device_ok w" "services_tied w"
  shows "services_tied (device_disconnect e w) \<and> in_step (device_disconnect e w)"
proof (cases "ss_phase (dv_session w) = Idle")
  case True
  then show ?thesis using assms by (auto simp: device_disconnect_eq services_tied_def in_step_def)
next
  case False
  let ?r = "snd (stop_recording (gst_recorder_ops (en_gst e)) (en_write_thumb e) (dv_recording w))"
  have "rs_state ?r = RecIdle" by (rule idle_recording(3)) (rule prod.collapse [symmetric])
  moreover have "stp.streaming_ok (en_rtmp e) (dv_streaming w)"
    using assms(1) by (simp add: device_ok_def stream_good_iff)
  note stp.stop_streaming_clears [OF this, of "en_rtsp e"]
  ultimately show ?thesis using False dhcp_pids(3)
    by (simp add: device_disconnect_eq services_tied_def in_step_def session_state_default_def phase_order)
qed

lemma dispatch_stops:
  assumes "dispatch (main_dispatcher cfg) e cmd w = (r, w1)" "cm_payload cmd = RecordingControl RECORDING_STOP"
  shows "in_step w1"
  using assms
  by (auto simp: dispatch_def main_dispatcher_list recording_handler_def recording_handle_def in_step_def Let_def
    dest!: idle_recording(3) split: prod.splits if_splits)

lemma final_frame_step:
  "services_tied w \<Longrightarrow> services_tied (device_final_frame e f w)"
  "in_step w \<Longrightarrow> in_step (device_final_frame e f w)"
  by (auto simp: services_tied_def in_step_def device_final_frame_def streaming_push_def)

lemma connect_step:
  "services_tied w \<Longrightarrow> services_tied (w\<lparr>dv_session := snd (on_connect (dv_session w))\<rparr>)"
  "in_step w \<Longrightarrow> in_step (w\<lparr>dv_session := snd (on_connect (dv_session w))\<rparr>)"
  by (auto simp: services_tied_def in_step_def on_connect_def phase_order)

lemma device_step_tied:
  assumes "device_step cfg ev w = Some w1" "device_ok w" "forks ev" "services_tied w"
  shows "services_tied w1 \<and> (\<not> stops_wifi ev \<longrightarrow> in_step w \<longrightarrow> in_step w1) \<and> (ends_recording ev \<longrightarrow> in_step w1)"
proof (cases ev)
  case (Command e cmd)
  then obtain r where "dispatch (main_dispatcher cfg) e cmd w = (Some r, w1)"
    using assms(1) by (auto split: prod.splits option.splits)
  from dispatch_step [OF this _ assms(4)] dispatch_stops [OF this] Command assms(3) show ?thesis by simp
next
  case (ClockTick e)
  then obtain s c where "tick_clock (en_fmt e) (en_render e) (Some (en_now_ms e)) (dv_session w, dv_overlay w) = Some (s, c)"
    "w1 = w\<lparr>dv_session := s, dv_overlay := c\<rparr>"
    using assms(1) by (auto split: prod.splits option.splits)
  then show ?thesis
    using ClockTick assms(4) side_keeps [OF handles_same_side(4), of _ _ _ w "dv_overlay w" s c w1] by simp
next
  case Connect
  then have "w1 = w\<lparr>dv_session := snd (on_connect (dv_session w))\<rparr>" using assms(1) by simp
  then show ?thesis using Connect connect_step assms(4) by simp
next
  case (Disconnect e)
  then have "w1 = device_disconnect e w" using assms(1) by simp
  then show ?thesis using disconnect_step [OF assms(2,4)] by simp
next
  case (FinalFrame e f)
  then have "w1 = device_final_frame e f w" using assms(1) by simp
  then show ?thesis using FinalFrame final_frame_step assms(4) by simp
qed (use assms(1,4) in \<open>simp_all add: services_tied_def in_step_def, (safe; simp)+\<close>)

text \<open>Out of step a device is only between a StopWifiDirect and the next end of the recording.\<close>

definition wifi_stopped_since :: "device_event list \<Rightarrow> bool" where
  "wifi_stopped_since evs \<longleftrightarrow>
     (\<exists>before ev after. evs = before @ ev # after \<and> stops_wifi ev \<and> (\<forall>ev' \<in> set after. \<not> ends_recording ev'))"

lemma wifi_stopped_snoc:
  "\<lbrakk>wifi_stopped_since evs; \<not> ends_recording ev\<rbrakk> \<Longrightarrow> wifi_stopped_since (evs @ [ev])"
  "stops_wifi ev \<Longrightarrow> wifi_stopped_since (evs @ [ev])"
proof -
  assume "wifi_stopped_since evs" "\<not> ends_recording ev"
  then obtain before ev0 after where "evs = before @ ev0 # after" "stops_wifi ev0"
    "\<forall>ev' \<in> set after. \<not> ends_recording ev'" by (auto simp: wifi_stopped_since_def)
  then show "wifi_stopped_since (evs @ [ev])"
    unfolding wifi_stopped_since_def
    by (intro exI [of _ before] exI [of _ ev0] exI [of _ "after @ [ev]"]) (use \<open>\<not> ends_recording ev\<close> in auto)
next
  show "stops_wifi ev \<Longrightarrow> wifi_stopped_since (evs @ [ev])"
    unfolding wifi_stopped_since_def by (intro exI [of _ evs] exI [of _ ev] exI [of _ "[]"]) simp
qed

lemma new_tied: "services_tied (device_new cfg) \<and> in_step (device_new cfg)"
  by (simp add: services_tied_def in_step_def device_new_def recording_service_new_def streaming_new_def
    rtsp_new_def session_state_default_def dhcp_new_def phase_order)

lemma history_tied:
  assumes "run_events cfg evs (device_new cfg) = Some w" "\<forall>ev \<in> set evs. forks ev"
  shows "services_tied w \<and> (in_step w \<or> wifi_stopped_since evs)"
  using assms
proof (induction evs arbitrary: w rule: rev_induct)
  case Nil
  then show ?case using new_tied [of cfg] by simp
next
  case (snoc ev evs)
  then obtain w0 where w0: "run_events cfg evs (device_new cfg) = Some w0" "device_step cfg ev w0 = Some w"
    by (auto simp: run_events_append split: option.splits)
  have "device_ok w0" using run_events_reachable [OF w0(1) device_reachable.boot] by (rule reachable_ok)
  from device_step_tied [OF w0(2) this] snoc.IH [OF w0(1)] snoc.prems(2) show ?case
    using wifi_stopped_snoc by auto
qed

section \<open>Properties of the device\<close>

text \<open>C1: Through every sequence of events (connects, disconnects, commands, frames, downloads,
  clock ticks) the session and the services stay tied.  In the recording phase a recording is
  under way.  A recording is under way only in that phase, with one exception: StopWifiDirect
  during a recording takes the session out of the phase but leaves the recorder running, and this
  lasts at most until the next RECORDING_STOP or disconnect.  The GStreamer recorder runs exactly
  while the recording service is not idle, into the file the service names, and only inside a
  session; a session configuration is present exactly from the configured phase on; the DHCP
  server runs exactly from the phase on in which the group is up; the preview runs only inside a
  session; and no platform stream ever runs, since STREAMING_START always fails.\<close>

theorem device_invariant:
  assumes "run_events cfg evs (device_new cfg) = Some w" "\<forall>ev \<in> set evs. forks ev"
  shows "(ss_phase (dv_session w) = Recording \<longrightarrow> rs_state (dv_recording w) \<noteq> RecIdle) \<and>
    (rs_state (dv_recording w) \<noteq> RecIdle \<longrightarrow>
       ss_phase (dv_session w) = Recording \<or> wifi_stopped_since evs) \<and>
    (gr_running (rs_recorder (dv_recording w)) \<longleftrightarrow> rs_state (dv_recording w) \<noteq> RecIdle) \<and>
    (rs_state (dv_recording w) \<noteq> RecIdle \<longrightarrow>
       gr_location (rs_recorder (dv_recording w)) = rs_video_path (dv_recording w) \<and>
       ss_phase (dv_session w) \<noteq> Idle) \<and>
    (ss_config (dv_session w) \<noteq> None \<longleftrightarrow> Configured \<le> ss_phase (dv_session w)) \<and>
    (0 < ds_pid (dv_dhcp w) \<longleftrightarrow> WifiReady \<le> ss_phase (dv_session w)) \<and>
    (rv_running (st_server (dv_streaming w)) \<longrightarrow> ss_phase (dv_session w) \<noteq> Idle) \<and>
    st_streams (dv_streaming w) = []"
proof -
  have "device_ok w" using run_events_reachable [OF assms(1) device_reachable.boot] by (rule reachable_ok)
  then have "ss_phase (dv_session w) = Recording \<longrightarrow> rs_state (dv_recording w) \<noteq> RecIdle"
    "gr_running (rs_recorder (dv_recording w)) \<longleftrightarrow> rs_state (dv_recording w) \<noteq> RecIdle"
    "rs_state (dv_recording w) \<noteq> RecIdle \<longrightarrow>
       gr_location (rs_recorder (dv_recording w)) = rs_video_path (dv_recording w)"
    "ss_config (dv_session w) \<noteq> None \<longleftrightarrow> Configured \<le> ss_phase (dv_session w)"
    by (simp_all add: device_ok_def linked_def session_inv_def rec_good_def gst.recording_ok_def)
  then show ?thesis
    using history_tied [OF assms] unfolding services_tied_def in_step_def by argo
qed

theorem device_invariant_witness:
  "rs_state (dv_recording recording_device) \<noteq> RecIdle \<and> 0 < ds_pid (dv_dhcp recording_device) \<and>
   \<not> wifi_stopped_since (setup_events test_env @ [send (RecordingControl RECORDING_START)])"
proof -
  have run: "run_events test_config (setup_events test_env @ [send (RecordingControl RECORDING_START)])
      (device_new test_config) = Some recording_device"
    using recording_run_Some(1) by (simp add: recording_run_def)
  have "\<forall>ev \<in> set (setup_events test_env @ [send (RecordingControl RECORDING_START)]). \<not> stops_wifi ev"
    by (simp add: setup_events_def send_def send_in_def)
  then have "\<not> wifi_stopped_since (setup_events test_env @ [send (RecordingControl RECORDING_START)])"
    by (metis in_set_conv_decomp wifi_stopped_since_def)
  moreover have "\<forall>ev \<in> set (setup_events test_env @ [send (RecordingControl RECORDING_START)]). forks ev"
    by (simp add: setup_events_def send_def send_in_def test_env_def)
  ultimately show ?thesis
    using device_invariant [OF run] recording_device_phase by (simp add: phase_order)
qed



text \<open>Stopping WiFi Direct does not stop a recording.  The command is answered with OK, the
  group is gone and the session falls back to the connected phase without a configuration, but
  the recorder keeps running into the same file and keeps taking frames; from then on recording
  and session are out of step until RECORDING_STOP or a disconnect.\<close>

theorem stop_wifi_keeps_recording:
  assumes "device_reachable cfg w" "ss_phase (dv_session w) = Recording"
  shows "\<exists>r w1. dispatch (main_dispatcher cfg) e
        \<lparr>cm_correlation_id = i, cm_payload = StopWifiDirect\<rparr> w = (Some r, w1) \<and>
      cr_status r = StatusOk \<and> ss_phase (dv_session w1) = Connected \<and>
      ss_config (dv_session w1) = None \<and> dv_recording w1 = dv_recording w \<and>
      gr_running (rs_recorder (dv_recording w1))"
  using device_ok_def [THEN iffD1, OF reachable_ok [OF assms(1)]] assms(2)
  by (simp add: dispatch_def main_dispatcher_list device_handlers wifi_handle_def
    wifi_handle_stop_def Let_def replies on_wifi_stopped_def linked_def rec_good_def
    gst.recording_ok_def)

theorem stop_wifi_keeps_recording_witness:
  "\<exists>r w1. dispatch (main_dispatcher test_config) test_env
      \<lparr>cm_correlation_id = ''c'', cm_payload = StopWifiDirect\<rparr> recording_device = (Some r, w1) \<and>
    ss_phase (dv_session w1) = Connected \<and> gr_running (rs_recorder (dv_recording w1))"
  using stop_wifi_keeps_recording [OF recording_device_reachable recording_device_phase] by blast

end
