(* ===== verification/Commands.thy ===== *)
theory Commands
  imports Lifecycle
begin

text \<open>
  What individual commands do to the device: starting and stopping a recording, scores and the
  match clock, streaming, and a second request for WiFi Direct.
\<close>

section \<open>Recording\<close>

text \<open>C39: RECORDING_START succeeds exactly when the session is ready, no recording is under way,
  the configured path is not empty, the disk guard is content and GStreamer can start; then the
  session is in the recording phase and the recorder runs into the configured file.  In every
  other case the answer is an error and the session is unchanged.\<close>

theorem recording_start_exactly:
  assumes "device_reachable cfg w"
  shows "\<exists>r w1. dispatch (main_dispatcher cfg) e
        \<lparr>cm_correlation_id = i, cm_payload = RecordingControl RECORDING_START\<rparr> w = (Some r, w1) \<and>
      (if \<exists>c. ss_config (dv_session w) = Some c \<and> ss_phase (dv_session w) = Ready \<and>
             rs_state (dv_recording w) = RecIdle \<and> sc_video_output_path c \<noteq> [] \<and>
             disk_ok cfg e \<and> gst_can_start (en_gst e) (sc_video_output_path c)
       then cr_status r = StatusOk \<and> ss_phase (dv_session w1) = Recording \<and>
            rs_state (dv_recording w1) = RecRecording \<and>
            gr_running (rs_recorder (dv_recording w1)) \<and>
            gr_location (rs_recorder (dv_recording w1)) =
              sc_video_output_path (the (ss_config (dv_session w)))
       else cr_status r = StatusError \<and> dv_session w1 = dv_session w)"
proof -
  have ok: "gst.recording_ok (en_gst e) (dv_recording w)"
    using reachable_ok [OF assms] by (simp add: device_ok_def rec_good_iff)
  show ?thesis
  proof (cases "ss_config (dv_session w)")
    case None
    then show ?thesis
      by (simp add: dispatch_def main_dispatcher_list device_handlers recording_handle_def
        session_snapshot_def replies)
  next
    case (Some c)
    let ?go = "rs_state (dv_recording w) = RecIdle \<and> sc_video_output_path c \<noteq> [] \<and> disk_ok cfg e"
    show ?thesis
    proof (cases "ss_phase (dv_session w) = Ready \<and> ?go")
      case True
      let ?r = "gst_start (en_gst e) (sc_video_output_path c) (rs_recorder (dv_recording w))"
      have run: "\<not> gr_running (rs_recorder (dv_recording w))" "gst_inv (rs_recorder (dv_recording w))"
        using ok True by (simp_all add: gst.recording_ok_def)
      have st: "fst ?r = gst_can_start (en_gst e) (sc_video_output_path c)"
        "gr_running (snd ?r) = gst_can_start (en_gst e) (sc_video_output_path c)"
        using gst.start_result [OF run(2), of "en_gst e" "sc_video_output_path c"] run(1) by simp_all
      have loc: "gst_can_start (en_gst e) (sc_video_output_path c) \<Longrightarrow>
          gr_location (snd ?r) = sc_video_output_path c"
        using gst.start_fresh [OF run(2), of "en_gst e" "sc_video_output_path c"] run(1) by simp
      show ?thesis
        using Some True st loc
        by (cases ?r; cases "fst ?r")
           (simp_all add: dispatch_def main_dispatcher_list device_handlers recording_handle_def
             session_snapshot_def replies start_recording_def on_recording_start_def Let_def)
    next
      case False
      then show ?thesis
        using Some
        by (auto simp: dispatch_def main_dispatcher_list device_handlers recording_handle_def
          session_snapshot_def replies start_recording_def)
    qed
  qed
qed

text \<open>A device that is set up starts recording; the one that records already refuses.\<close>

theorem recording_start_exactly_witness:
  "\<exists>w r w1 r' w1'. device_reachable test_config w \<and>
     dispatch (main_dispatcher test_config) test_env
       \<lparr>cm_correlation_id = ''c'', cm_payload = RecordingControl RECORDING_START\<rparr> w = (Some r, w1) \<and>
     cr_status r = StatusOk \<and> ss_phase (dv_session w1) = Recording \<and>
     gr_running (rs_recorder (dv_recording w1)) \<and> gr_location (rs_recorder (dv_recording w1)) = ''/v/m.mp4'' \<and>
     dispatch (main_dispatcher test_config) test_env
       \<lparr>cm_correlation_id = ''c'', cm_payload = RecordingControl RECORDING_START\<rparr> recording_device = (Some r', w1') \<and>
     cr_status r' = StatusError \<and> dv_session w1' = dv_session recording_device"
proof -
  obtain w where w: "run_events test_config (setup_events test_env) (device_new test_config) = Some w"
    "ss_phase (dv_session w) = Ready" "ss_config (dv_session w) = Some (session_config_of test_session)"
    "dv_recording w = recording_service_new gst_recorder_new"
    by (rule setup_run [OF test_env_calm])
  have reach: "device_reachable test_config w" by (rule run_events_reachable [OF w(1) device_reachable.boot])
  have can: "gst_can_start (en_gst test_env) ''/v/m.mp4''" by code_simp
  note yes = recording_start_exactly [OF reach, of test_env "''c''"]
  note no = recording_start_exactly [OF recording_device_reachable, of test_env "''c''"]
  show ?thesis
    using reach yes no can test_disk_ok w(2-4) recording_device_phase
    by (simp add: recording_service_new_def session_config_of_def test_session_def) blast
qed

section \<open>Streaming\<close>

text \<open>STREAMING_START never starts a stream.  The handler fills in a destination but no stream
  key, and the RTMP streamer refuses a configuration without one, so whatever destination is
  given or configured the answer is an error and the device does not change.\<close>

theorem streaming_start_always_fails:
  "\<exists>r. dispatch (main_dispatcher cfg) e
      \<lparr>cm_correlation_id = i, cm_payload = StreamingControl STREAMING_START dest\<rparr> w = (Some r, w) \<and>
    cr_status r = StatusError"
  by (simp add: dispatch_def main_dispatcher_list device_handlers streaming_handle_def
    streaming_handle_control_def egress_refused replies Let_def)

section \<open>WiFi Direct\<close>

text \<open>StartWifiDirect is not idempotent.  While the DHCP server of an earlier start is running,
  a second start fails, and if the daemon forms a group for it, the group is taken down and the
  control socket closed although the session keeps its phase and the DHCP server keeps
  running.\<close>

theorem second_wifi_start:
  assumes "0 < ds_pid (dv_dhcp w)"
  shows "\<exists>r w1. dispatch (main_dispatcher cfg) e
        \<lparr>cm_correlation_id = i, cm_payload = StartWifiDirect\<rparr> w = (Some r, w1) \<and>
      cr_status r = StatusError \<and> dv_session w1 = dv_session w \<and> dv_dhcp w1 = dv_dhcp w \<and>
      (fst (start_p2p_group_owner (en_wpa e) (dv_wifi w)) \<noteq> None \<longrightarrow>
         \<not> wm_sock (dv_wifi w1) \<and> wifi_state_of (dv_wifi w1) = wifi_state_default)"
  using assms
  by (cases "start_p2p_group_owner (en_wpa e) (dv_wifi w)"; cases "fst (start_p2p_group_owner (en_wpa e) (dv_wifi w))")
     (simp_all add: dispatch_def main_dispatcher_list device_handlers wifi_handle_def
       wifi_handle_start_def dhcp_start_def replies wifi_stop_def close_ctrl_socket_def
       wifi_state_of_def Let_def)

theorem second_wifi_start_witness:
  "\<exists>r w1. dispatch (main_dispatcher test_config) test_env
      \<lparr>cm_correlation_id = ''c'', cm_payload = StartWifiDirect\<rparr> recording_device = (Some r, w1) \<and>
    cr_status r = StatusError \<and> dv_session w1 = dv_session recording_device"
  using second_wifi_start [of recording_device test_config test_env "''c''"] recording_run_Some(3)
  by auto

section \<open>Score and clock\<close>

lemma update_score_value:
  assumes "score_defined delta"
  shows "uint (update_score delta score) = max 0 (uint score + sint delta) mod 2 ^ 32"
proof -
  have up: "sint delta < 2 ^ 31" using sint_lt [of delta] by simp
  have neg: "uint (- delta) = - sint delta" if "sint delta < 0"
  proof -
    have "- (2 ^ 31) < sint delta" using assms sint_ge [of delta] by (simp add: score_defined_def)
    moreover have "uint (- delta) = (- sint delta) mod 2 ^ 32"
      using uint_word_of_int [of "- sint delta", where 'a = 32] by simp
    ultimately show ?thesis using that by simp
  qed
  show ?thesis
  proof (cases "sint delta < 0 \<and> score < - delta")
    case True
    then have "uint score < - sint delta" using neg by (simp add: word_less_def)
    then show ?thesis using True by (simp add: update_score_def)
  next
    case False
    have "0 \<le> uint score + sint delta"
    proof (cases "sint delta < 0")
      case True
      then have "\<not> uint score < - sint delta" using False neg by (simp add: word_less_def)
      then show ?thesis by simp
    qed simp
    then show ?thesis
      unfolding update_score_def if_not_P [OF False] uint_word_of_int by (simp add: max_def)
  qed
qed

text \<open>A score update that is answered with OK adds the delta to the score of the named team,
  never below zero and wrapping at 32 bits, and touches nothing else of the session; an answer
  with an error leaves the session alone.  (A delta of minus two to the 31 is undefined.)\<close>

theorem score_update_result:
  assumes "handle_score_update F render now team delta (s, c) = (Responds r, t, d)"
    and "cr_status r = StatusOk"
  shows "\<exists>cfg. ss_config s = Some cfg \<and> ss_phase t = ss_phase s \<and> ss_config t = ss_config s \<and>
    (let score = (\<lambda>v. max 0 (uint v + sint delta) mod 2 ^ 32)
     in if team = sc_team_a_id cfg
        then uint (lm_score_a (ss_match t)) = score (lm_score_a (ss_match s)) \<and>
             ss_match t = (ss_match s)\<lparr>lm_score_a := lm_score_a (ss_match t)\<rparr>
        else team = sc_team_b_id cfg \<and>
             uint (lm_score_b (ss_match t)) = score (lm_score_b (ss_match s)) \<and>
             ss_match t = (ss_match s)\<lparr>lm_score_b := lm_score_b (ss_match t)\<rparr>)"
proof -
  obtain cfg where c: "ss_config s = Some cfg"
    using assms by (auto simp: handle_score_update_def session_snapshot_def replies split: option.splits)
  have team: "team = sc_team_a_id cfg \<or> team = sc_team_b_id cfg"
    using assms c by (auto simp: handle_score_update_def session_snapshot_def replies Let_def split: if_splits)
  have ph: "\<not> ss_phase s < Configured"
    using assms c team
    by (auto simp: handle_score_update_def session_snapshot_def replies Let_def apply_match_update_def
      split: if_splits)
  have def: "score_defined delta"
    using assms c team ph
    by (auto simp: handle_score_update_def session_snapshot_def Let_def apply_match_update_def
      split: if_splits)
  let ?up = "\<lambda>m. if team = sc_team_a_id cfg then m\<lparr>lm_score_a := update_score delta (lm_score_a m)\<rparr>
    else m\<lparr>lm_score_b := update_score delta (lm_score_b m)\<rparr>"
  have tm: "\<not> (\<not> team = sc_team_a_id cfg \<and> \<not> team = sc_team_b_id cfg)" using team by blast
  have app: "apply_match_update (Some ?up) s = (True, s\<lparr>ss_match := ?up (ss_match s)\<rparr>)"
    using ph by (simp add: apply_match_update_def)
  have "after_update F render now (s\<lparr>ss_match := ?up (ss_match s)\<rparr>) c = (Responds r, t, d)"
    using assms(1) def
    unfolding handle_score_update_def session_snapshot_def c Let_def prod.case option.case
      if_not_P [OF tm] app by simp
  then have "t = s\<lparr>ss_match := ?up (ss_match s)\<rparr>" by (rule after_update_session)
  then show ?thesis using c team update_score_value [OF def] by auto
qed

section \<open>The match clock\<close>

definition tick :: "session_state \<Rightarrow> session_state" where
  "tick s = snd (apply_match_update (Some tick_clock_update) s)"

lemma ticks:
  assumes "Configured \<le> ss_phase s" "lm_clock_running (ss_match s)"
  shows "(tick ^^ n) s =
    s\<lparr>ss_match := (ss_match s)\<lparr>lm_clock_seconds := lm_clock_seconds (ss_match s) + of_nat n\<rparr>\<rparr>"
proof (induction n)
  case (Suc n)
  then show ?case
    using assms by (simp add: tick_def apply_match_update_def tick_clock_update_def not_less ac_simps)
qed simp

text \<open>C40: The match clock counts down what the app reads.  After an accepted kickoff and n seconds
  of clock ticks GetMatchState reports an active match in the period kicked off, and the time
  remaining is the configured period length less n, never below zero, and zero when no length
  is configured.\<close>

theorem clock_counts_down:
  assumes "apply_match_update (Some (match_control_update MATCH_KICKOFF period)) s = (True, s1)"
    and "ss_config s = Some cfg" "n < 2 ^ 32" "t = (tick ^^ n) s1"
  shows "\<exists>left. match_state_handle now t = reply_ok (MatchStatePayload
      \<lparr>ms_status = MATCH_ACTIVE, ms_current_period = (if 0 < period then period else 1),
       ms_time_remaining_s = left, ms_score_a = lm_score_a (ss_match s),
       ms_score_b = lm_score_b (ss_match s), ms_team_a_id = sc_team_a_id cfg,
       ms_team_b_id = sc_team_b_id cfg, ms_updated_at = clock_value now\<rparr>) \<and>
    uint left = max 0 (sint (sc_period_length_seconds cfg) - int n)"
proof -
  have ph: "Configured \<le> ss_phase s" and
    s1: "s1 = s\<lparr>ss_match := match_control_update MATCH_KICKOFF period (ss_match s)\<rparr>"
    using assms(1) by (auto simp: apply_match_update_def not_less split: if_splits)
  have t: "t = s1\<lparr>ss_match := (ss_match s1)\<lparr>lm_clock_seconds := of_nat n\<rparr>\<rparr>"
    using ticks [of s1 n] ph by (simp add: assms(4) s1 match_control_update_def)
  let ?len = "sc_period_length_seconds cfg"
  have e: "uint (of_nat n :: u32) = int n" using assms(3) by (simp add: uint_nat unat_word_of_nat)
  have len: "uint ?len = sint ?len" if "0 < sint ?len"
    using that uint_word_of_int [of "sint ?len", where 'a = 32] sint_lt [of ?len] by simp
  have "uint (derive_time_remaining t) = max 0 (sint ?len - int n)"
  proof (cases "0 < sint ?len \<and> \<not> ?len \<le> of_nat n")
    case True
    then have less: "int n < sint ?len" using len e by (simp add: word_le_def)
    then have "uint (?len - of_nat n) = uint ?len - int n"
      using True len e by (simp add: uint_sub_if')
    with less show ?thesis
      using True len e by (simp add: derive_time_remaining_def t s1 assms(2) Let_def)
  next
    case False
    then show ?thesis
      using len e by (auto simp: derive_time_remaining_def t s1 assms(2) Let_def word_le_def)
  qed
  then show ?thesis
    by (auto simp: match_state_handle_def session_snapshot_def derive_status_def t s1 assms(2)
      match_control_update_def Let_def)
qed

theorem clock_counts_down_witness:
  "\<exists>left. match_state_handle (Some 5)
      ((tick ^^ 70) (snd (apply_match_update (Some (match_control_update MATCH_KICKOFF 0))
         (session_state_default\<lparr>ss_phase := Ready, ss_config := Some (session_config_of test_session)\<rparr>)))) =
     reply_ok (MatchStatePayload
      \<lparr>ms_status = MATCH_ACTIVE, ms_current_period = 1, ms_time_remaining_s = left, ms_score_a = 0,
       ms_score_b = 0, ms_team_a_id = ''a'', ms_team_b_id = ''b'', ms_updated_at = 5\<rparr>) \<and>
     uint left = 0"
proof -
  let ?s = "session_state_default\<lparr>ss_phase := Ready, ss_config := Some (session_config_of test_session)\<rparr>"
  let ?up = "Some (match_control_update MATCH_KICKOFF 0)"
  have "apply_match_update ?up ?s = (True, snd (apply_match_update ?up ?s))"
    by (simp add: apply_match_update_def phase_order)
  from clock_counts_down [OF this, of "session_config_of test_session" 70, OF _ _ refl, of "Some 5"]
  show ?thesis
    by (simp add: session_state_default_def live_match_default_def session_config_of_def
      test_session_def clock_value_def)
qed

definition scored_session :: session_state where
  "scored_session =
     session_state_default\<lparr>ss_phase := Ready, ss_config := Some (session_config_of test_session)\<rparr>"

lemma scored_ok:
  "map_option cr_status (case fst (handle_score_update (en_fmt test_env) (en_render test_env) (Some 0) ''a'' 3
      (scored_session, overlay_controller_new \<lparr>osz_width = 8, osz_height = 8\<rparr>)) of
      Responds r \<Rightarrow> Some r | _ \<Rightarrow> None) = Some StatusOk"
  by code_simp

theorem score_update_result_witness:
  "uint (lm_score_a (ss_match (fst (snd (handle_score_update (en_fmt test_env) (en_render test_env)
      (Some 0) ''a'' 3
      (scored_session, overlay_controller_new \<lparr>osz_width = 8, osz_height = 8\<rparr>)))))) = 3"
proof -
  let ?h = "handle_score_update (en_fmt test_env) (en_render test_env) (Some 0) ''a'' 3
      (scored_session, overlay_controller_new \<lparr>osz_width = 8, osz_height = 8\<rparr>)"
  obtain r where r: "fst ?h = Responds r" "cr_status r = StatusOk"
    using scored_ok by (auto split: handle_result.splits)
  have "?h = (Responds r, fst (snd ?h), snd (snd ?h))" using r(1) by (simp add: prod_eq_iff)
  from score_update_result [OF this r(2)] show ?thesis
    by (simp add: scored_session_def session_config_of_def test_session_def Let_def
      session_state_default_def live_match_default_def)
qed

end
