(* ===== verification/DownloadFlow.thy ===== *)
theory DownloadFlow
  imports Lifecycle
begin

text \<open>
  The way of a recording out of the device: the token a DownloadRequest hands out over the command
  link, the table the HTTP server checks, and the file a GET is answered with, over every history
  of the device.
\<close>

section \<open>Who writes the token table\<close>

definition tokens_kept :: "device_handler \<Rightarrow> bool" where
  "tokens_kept h \<longleftrightarrow> (\<forall>e p w. dv_tokens (snd (ha_handle h e p w)) = dv_tokens w)"

lemma handlers_tokens_kept:
  "tokens_kept (device_handler cfg)" "tokens_kept session_handler" "tokens_kept wifi_handler"
  "tokens_kept overlay_handler" "tokens_kept match_handler" "tokens_kept match_state_handler"
  "tokens_kept (recording_handler cfg)" "tokens_kept streaming_handler"
  "tokens_kept raw_capture_handler" "tokens_kept thumbnail_handler"
  by (auto simp: tokens_kept_def device_handlers split: prod.split command_payload.split)

lemma dispatch_tokens:
  assumes "dispatch (main_dispatcher cfg) e cmd w = (r, w1)" "\<nexists>rid. cm_payload cmd = DownloadRequest rid"
  shows "dv_tokens w1 = dv_tokens w"
proof (cases "map_of (main_dispatcher cfg) (payload_case_of (cm_payload cmd))")
  case None
  then show ?thesis using assms by (auto simp: dispatch_def split: if_splits)
next
  case (Some h)
  then have "h \<in> snd ` set (main_dispatcher cfg)" by (metis map_of_SomeD imageI snd_conv)
  then have "tokens_kept h \<or> h = download_handler"
    by (auto simp: main_dispatcher_list handlers_tokens_kept)
  then have "dv_tokens (snd (ha_handle h e (cm_payload cmd) w)) = dv_tokens w"
    using assms(2)
    by (auto simp: tokens_kept_def download_handler_def download_handle_def split: command_payload.splits prod.splits)
  then show ?thesis
    using assms(1) Some by (auto simp: dispatch_def split: if_splits prod.splits handle_result.splits)
qed

text \<open>A request for a download: refused without a trace, or answered with the token that is now in the
  table.\<close>

lemma dispatch_request:
  assumes "dispatch (main_dispatcher cfg) e cmd w = (r, w1)" "cm_payload cmd = DownloadRequest rid"
  shows "case resolve_recording_path (en_root_exists e) (en_tree e) rid of
      None \<Rightarrow> dv_tokens w1 = dv_tokens w
    | Some path \<Rightarrow>
        dv_tokens w1 = AList.update (en_fresh_token e)
          \<lparr>te_path = path, te_expires_at_unix = en_now_unix e + kDownloadTokenTtlSeconds\<rparr> (dv_tokens w) \<and>
        (\<exists>resp url. r = Some resp \<and> cr_status resp = StatusOk \<and>
           cr_payload resp = DownloadTokenPayload
             \<lparr>dm_recording_id = rid, dm_http_url = url, dm_auth_token = en_fresh_token e,
              dm_expires_at = en_now_unix e + kDownloadTokenTtlSeconds\<rparr>)"
  using assms
  by (auto simp: dispatch_def main_dispatcher_list download_handler_def download_handle_def
      download_handle_request_def mint_token_def reply_ok_def reply_error_def Let_def
    split: prod.splits option.splits)

section \<open>Grants\<close>

text \<open>Some command of the history asked for a recording, found its file, and was answered with this
  token and expiry.\<close>

definition granted :: "config_data \<Rightarrow> device_event list \<Rightarrow> string \<Rightarrow> string \<Rightarrow> u64 \<Rightarrow> bool" where
  "granted cfg evs token path expiry \<longleftrightarrow>
     (\<exists>before e cmd after rid w r w1 url.
        evs = before @ Command e cmd # after \<and> cm_payload cmd = DownloadRequest rid \<and>
        run_events cfg before (device_new cfg) = Some w \<and>
        dispatch (main_dispatcher cfg) e cmd w = (Some r, w1) \<and> cr_status r = StatusOk \<and>
        cr_payload r = DownloadTokenPayload
          \<lparr>dm_recording_id = rid, dm_http_url = url, dm_auth_token = token, dm_expires_at = expiry\<rparr> \<and>
        expiry = en_now_unix e + 3600 \<and> en_root_exists e \<and> rid \<noteq> [] \<and>
        (\<exists>entry \<in> set (en_tree e). de_path entry = path \<and> de_regular entry \<and> path_stem path = rid \<and>
           path_extension path \<in> {''.mp4'', ''.nv12''}))"

lemma resolved_entry:
  "resolve_in_tree rid tree = Some path \<Longrightarrow>
   \<exists>entry \<in> set tree. de_path entry = path \<and> de_regular entry \<and> path_stem path = rid \<and>
     path_extension path \<in> {''.mp4'', ''.nv12''}"
  by (induction rid tree rule: resolve_in_tree.induct)
     (auto simp: kMp4Extension_def kRawExtension_def Let_def split: if_splits)

lemma granted_snoc: "granted cfg evs token path expiry \<Longrightarrow> granted cfg (evs @ [ev]) token path expiry"
  unfolding granted_def by (elim exE conjE) (intro exI conjI; (assumption | simp))

lemma granted_last:
  assumes "run_events cfg evs (device_new cfg) = Some w" "dispatch (main_dispatcher cfg) e cmd w = (Some r, w1)"
    and "cm_payload cmd = DownloadRequest rid"
    and "resolve_recording_path (en_root_exists e) (en_tree e) rid = Some path"
  shows "granted cfg (evs @ [Command e cmd]) (en_fresh_token e) path (en_now_unix e + kDownloadTokenTtlSeconds)"
proof -
  have path: "en_root_exists e" "rid \<noteq> []" "resolve_in_tree rid (en_tree e) = Some path"
    using assms(4) by (auto simp: resolve_recording_path_def split: if_splits)
  obtain url where "cr_status r = StatusOk" "cr_payload r = DownloadTokenPayload
      \<lparr>dm_recording_id = rid, dm_http_url = url, dm_auth_token = en_fresh_token e,
       dm_expires_at = en_now_unix e + kDownloadTokenTtlSeconds\<rparr>"
    using dispatch_request [OF assms(2,3)] assms(4) by auto
  then show ?thesis
    unfolding granted_def
    using assms(1-3) path(1,2) resolved_entry [OF path(3)]
    by (intro exI [of _ evs] exI [of _ e] exI [of _ cmd] exI [of _ "[]"] exI [of _ rid] exI [of _ w] exI [of _ r]
        exI [of _ w1] exI [of _ url]) (simp add: kDownloadTokenTtlSeconds_def)
qed

lemma request_keeps_granted:
  assumes "run_events cfg evs (device_new cfg) = Some w0" "device_step cfg ev w0 = Some w"
    and IH: "\<And>token en. map_of (dv_tokens w0) token = Some en \<Longrightarrow> granted cfg evs token (te_path en) (te_expires_at_unix en)"
    and en: "map_of (dv_tokens w) token = Some en"
  shows "granted cfg (evs @ [ev]) token (te_path en) (te_expires_at_unix en)"
proof -
  have old: ?thesis if "map_of (dv_tokens w0) token = Some en"
    using IH [OF that] by (rule granted_snoc)
  show ?thesis
  proof (cases ev)
    case (Command e cmd)
    then obtain r where r: "dispatch (main_dispatcher cfg) e cmd w0 = (Some r, w)"
      using assms(2) by (auto split: prod.splits option.splits)
    show ?thesis
    proof (cases "\<exists>rid path. cm_payload cmd = DownloadRequest rid \<and>
        resolve_recording_path (en_root_exists e) (en_tree e) rid = Some path")
      case True
      then obtain rid path where p: "cm_payload cmd = DownloadRequest rid"
        "resolve_recording_path (en_root_exists e) (en_tree e) rid = Some path" by blast
      have "dv_tokens w = AList.update (en_fresh_token e)
          \<lparr>te_path = path, te_expires_at_unix = en_now_unix e + kDownloadTokenTtlSeconds\<rparr> (dv_tokens w0)"
        using dispatch_request [OF r p(1)] p(2) by simp
      then show ?thesis
        using old en granted_last [OF assms(1) r p] Command by (auto simp: AList.update_conv' split: if_splits)
    next
      case False
      then have "dv_tokens w = dv_tokens w0"
        using dispatch_request [OF r] dispatch_tokens [OF r] by (cases "\<exists>rid. cm_payload cmd = DownloadRequest rid") force+
      then show ?thesis using old en by simp
    qed
  next
    case (HttpGet file_size now auth)
    then have "map_of (dv_tokens w) token = Some en \<Longrightarrow> map_of (dv_tokens w0) token = Some en"
      using assms(2)
      by (auto simp: handle_download_def validate_token_def AList.delete_conv' Let_def
        split: option.splits if_splits prod.splits)
    then show ?thesis using old en by simp
  qed (use assms(2) en old in \<open>auto simp: device_disconnect_eq device_final_frame_def split: option.splits prod.splits if_splits\<close>)
qed

lemma tokens_granted:
  assumes "run_events cfg evs (device_new cfg) = Some w" "map_of (dv_tokens w) token = Some en"
  shows "granted cfg evs token (te_path en) (te_expires_at_unix en)"
  using assms
proof (induction evs arbitrary: w token en rule: rev_induct)
  case Nil
  then show ?case by (auto simp: device_new_def)
next
  case (snoc ev evs)
  then obtain w0 where w0: "run_events cfg evs (device_new cfg) = Some w0" "device_step cfg ev w0 = Some w"
    by (auto simp: run_events_append split: option.splits)
  show ?case using request_keeps_granted [OF w0 snoc.IH [OF w0(1)] snoc.prems(2)] .
qed

lemma served:
  assumes "fst (handle_download file_size now auth tokens) = HttpContent n path"
  obtains token en where "auth = Some (''Bearer '' @ token)" "token \<noteq> []" "map_of tokens token = Some en"
    "te_path en = path" "now < te_expires_at_unix en" "file_size path = Some n"
proof -
  define token where "token = extract_bearer auth"
  have t: "token \<noteq> []" "fst (validate_token now token tokens) = Some path" "file_size path = Some n"
    using assms by (auto simp: handle_download_def token_def Let_def split: option.splits prod.splits if_splits)
  then obtain en where en: "map_of tokens token = Some en" "te_path en = path" "now < te_expires_at_unix en"
    by (auto simp: validate_token_def not_le split: option.splits if_splits)
  have "auth = Some (''Bearer '' @ token)"
    using t(1) by (auto simp: token_def extract_bearer_def kBearerPrefix_def prefix_def split: option.splits if_splits)
  then show thesis using that t en by blast
qed

section \<open>Properties\<close>

text \<open>C24: The download gate, over every history of the device.  Whatever commands, downloads and other
  events came before, the HTTP server answers a GET with a file only when the request carries a
  bearer token that an earlier DownloadRequest command was answered with: at that moment the token
  was handed out with an expiry one hour ahead, for a regular .mp4 or .nv12 file below the video
  root whose name is the requested recording id; that file and no other is served, whole, and only
  before the expiry.\<close>

theorem served_only_when_granted:
  assumes "run_events cfg evs (device_new cfg) = Some w"
    and "fst (handle_download file_size now auth (dv_tokens w)) = HttpContent n path"
  shows "\<exists>token expiry. auth = Some (''Bearer '' @ token) \<and> token \<noteq> [] \<and> now < expiry \<and>
    file_size path = Some n \<and> granted cfg evs token path expiry"
proof -
  obtain token en where "auth = Some (''Bearer '' @ token)" "token \<noteq> []" "map_of (dv_tokens w) token = Some en"
    "te_path en = path" "now < te_expires_at_unix en" "file_size path = Some n"
    using assms(2) by (rule served)
  then show ?thesis using tokens_granted [OF assms(1)] by blast
qed

text \<open>A recording asked for, and fetched with the token.\<close>

definition tree_env :: environment where
  "tree_env = test_env
     \<lparr>en_tree := [\<lparr>de_path = ''/v/game.mp4'', de_regular = True, de_size = Some 9, de_mtime = None\<rparr>],
      en_now_unix := 100\<rparr>"

definition request_events :: "device_event list" where
  "request_events = [Connect, send_in tree_env (DownloadRequest ''game'')]"

lemma request_run:
  "map_option (\<lambda>w. fst (handle_download (\<lambda>_. Some 9) 3699 (Some ''Bearer token'') (dv_tokens w)))
      (run_events test_config request_events (device_new test_config)) = Some (HttpContent 9 ''/v/game.mp4'')"
  by code_simp

theorem served_only_when_granted_witness:
  "\<exists>expiry. (3699 :: u64) < expiry \<and> granted test_config request_events ''token'' ''/v/game.mp4'' expiry"
proof -
  obtain w where w: "run_events test_config request_events (device_new test_config) = Some w"
    "fst (handle_download (\<lambda>_. Some 9) 3699 (Some ''Bearer token'') (dv_tokens w)) = HttpContent 9 ''/v/game.mp4''"
    using request_run by auto
  from served_only_when_granted [OF this] show ?thesis by auto
qed

end
