(* ===== verification/Compositor.thy ===== *)
theory Compositor
  imports Overlay
begin

text \<open>
  The software compositor \<^verbatim>\<open>domain/overlay/services/frame-compositor.cpp\<close>: an RGBA overlay is
  scaled, letterboxed and blended onto a BGR frame.

  Double precision arithmetic is an argument, so the results hold for every rounding; converting
  a double to an unsigned integer has no result when it is out of range.  The bytes of the
  frame live in the memory of theory Frames, and an access outside a buffer has no result.
\<close>

section \<open>Arithmetic\<close>

record 'd double_ops =
  dbl_of :: "nat \<Rightarrow> 'd"
  dbl_div :: "'d \<Rightarrow> 'd \<Rightarrow> 'd"
  dbl_mul :: "'d \<Rightarrow> 'd \<Rightarrow> 'd"
  dbl_less :: "'d \<Rightarrow> 'd \<Rightarrow> bool"
  dbl_to_u32 :: "'d \<Rightarrow> u32 option"

definition kBgrBytesPerPixel :: nat where "kBgrBytesPerPixel = 3"
definition kRgbaBytesPerPixel :: nat where "kRgbaBytesPerPixel = 4"
definition kMaxAlpha :: nat where "kMaxAlpha = 255"

definition overlay_scale :: "'d double_ops \<Rightarrow> nat \<Rightarrow> nat \<Rightarrow> nat \<Rightarrow> nat \<Rightarrow> 'd" where
  "overlay_scale D fw fh ow oh =
     (let a = dbl_div D (dbl_of D fw) (dbl_of D ow); b = dbl_div D (dbl_of D fh) (dbl_of D oh)
      in if dbl_less D b a then b else a)"

definition draw_extent :: "'d double_ops \<Rightarrow> 'd \<Rightarrow> nat \<Rightarrow> nat option" where
  "draw_extent D scale extent =
     map_option (\<lambda>v. max 1 (unat v)) (dbl_to_u32 D (dbl_mul D (dbl_of D extent) scale))"

definition sample_index :: "'d double_ops \<Rightarrow> 'd \<Rightarrow> nat \<Rightarrow> nat \<Rightarrow> nat option" where
  "sample_index D scale extent d =
     map_option (\<lambda>v. min (extent - 1) (unat v)) (dbl_to_u32 D (dbl_div D (dbl_of D d) scale))"

definition blend_channel :: "u8 \<Rightarrow> u8 \<Rightarrow> u8 \<Rightarrow> u8" where
  "blend_channel dst ov alpha =
     of_nat ((unat dst * (kMaxAlpha - unat alpha) + unat ov * unat alpha) div kMaxAlpha)"

section \<open>Pixels\<close>

definition read_rgba :: "rgba_image \<Rightarrow> nat \<Rightarrow> nat \<Rightarrow> (u8 \<times> u8 \<times> u8 \<times> u8) option" where
  "read_rgba img sx sy =
     (let off = sy * unat (ri_stride img) + sx * kRgbaBytesPerPixel; px = ri_pixels img
      in if off + 3 < length px
         then Some (px ! off, px ! (off + 1), px ! (off + 2), px ! (off + 3)) else None)"

definition blend_pixel :: "nat \<Rightarrow> nat \<Rightarrow> nat \<Rightarrow> u8 \<times> u8 \<times> u8 \<times> u8 \<Rightarrow> u8 list \<Rightarrow> u8 list option" where
  "blend_pixel stride x y rgba buf =
     (case rgba of (r, g, b, a) \<Rightarrow>
        if a = 0 then Some buf
        else
          let off = y * stride + x * kBgrBytesPerPixel
          in if off + 2 < length buf
             then Some (buf[off := blend_channel (buf ! off) b a,
                            off + 1 := blend_channel (buf ! (off + 1)) g a,
                            off + 2 := blend_channel (buf ! (off + 2)) r a])
             else None)"

text \<open>What the two loops use: the overlay, the scale, the row length of the buffer, the offsets of
  the drawn area and the size of the frame.\<close>

record 'd canvas =
  ca_ops :: "'d double_ops"
  ca_img :: rgba_image
  ca_scale :: 'd
  ca_stride :: nat
  ca_off_x :: nat
  ca_off_y :: nat
  ca_width :: nat
  ca_height :: nat

definition composite_pixel :: "'d canvas \<Rightarrow> nat \<Rightarrow> nat \<Rightarrow> nat \<Rightarrow> u8 list \<Rightarrow> u8 list option" where
  "composite_pixel C dy src_y dx buf =
     (case sample_index (ca_ops C) (ca_scale C) (unat (ri_width (ca_img C))) dx of
        None \<Rightarrow> None
      | Some src_x \<Rightarrow>
          (case read_rgba (ca_img C) src_x src_y of
             None \<Rightarrow> None
           | Some rgba \<Rightarrow> blend_pixel (ca_stride C) (ca_off_x C + dx) (ca_off_y C + dy) rgba buf))"

text \<open>The inner loop from column \<^verbatim>\<open>dx\<close> with \<^verbatim>\<open>n\<close> columns left.\<close>

fun composite_cols :: "'d canvas \<Rightarrow> nat \<Rightarrow> nat \<Rightarrow> nat \<Rightarrow> nat \<Rightarrow> u8 list \<Rightarrow> u8 list option" where
  "composite_cols C dy src_y dx 0 buf = Some buf"
| "composite_cols C dy src_y dx (Suc n) buf =
     (if \<not> ca_off_x C + dx < ca_width C then Some buf
      else case composite_pixel C dy src_y dx buf of
             None \<Rightarrow> None
           | Some buf1 \<Rightarrow> composite_cols C dy src_y (Suc dx) n buf1)"

fun composite_rows :: "'d canvas \<Rightarrow> nat \<Rightarrow> nat \<Rightarrow> nat \<Rightarrow> u8 list \<Rightarrow> u8 list option" where
  "composite_rows C draw_w dy 0 buf = Some buf"
| "composite_rows C draw_w dy (Suc n) buf =
     (if \<not> ca_off_y C + dy < ca_height C then Some buf
      else case sample_index (ca_ops C) (ca_scale C) (unat (ri_height (ca_img C))) dy of
             None \<Rightarrow> None
           | Some src_y \<Rightarrow>
               (case composite_cols C dy src_y 0 draw_w buf of
                  None \<Rightarrow> None
                | Some buf1 \<Rightarrow> composite_rows C draw_w (Suc dy) n buf1))"

definition composite_canvas :: "'d double_ops \<Rightarrow> rgba_image \<Rightarrow> nat \<Rightarrow> nat \<Rightarrow> nat \<Rightarrow> nat \<Rightarrow> nat \<Rightarrow> 'd canvas" where
  "composite_canvas D img stride fw fh draw_w draw_h =
     \<lparr>ca_ops = D, ca_img = img,
      ca_scale = overlay_scale D fw fh (unat (ri_width img)) (unat (ri_height img)),
      ca_stride = stride, ca_off_x = (fw - min fw draw_w) div 2, ca_off_y = (fh - min fh draw_h) div 2,
      ca_width = fw, ca_height = fh\<rparr>"

section \<open>CompositeOverlay\<close>

text \<open>Some None is nullopt; None is undefined behaviour.  The blended bytes go to block \<^verbatim>\<open>b\<close>.\<close>

definition composite_overlay ::
  "'d double_ops \<Rightarrow> nat \<Rightarrow> frame \<Rightarrow> rgba_image \<Rightarrow> memory \<Rightarrow> (frame option \<times> memory) option" where
  "composite_overlay D b source img m =
     (if fr_format source \<noteq> BGR8 \<or> fr_planes source = [] \<or> fp_data (hd (fr_planes source)) = None
      then Some (None, m)
      else
        let fw = unat (fg_width (fr_geometry source)); fh = unat (fg_height (fr_geometry source));
            ow = unat (ri_width img); oh = unat (ri_height img)
        in if fw = 0 \<or> fh = 0 then Some (None, m)
           else if ow = 0 \<or> oh = 0 \<or> ri_pixels img = [] then Some (None, m)
           else if unat (ri_stride img) < ow * kRgbaBytesPerPixel \<or>
                   length (ri_pixels img) < unat (ri_stride img) * oh
           then Some (None, m)
           else
             let stride = unat (fp_stride (hd (fr_planes source)))
             in case read_bytes m (fp_data (hd (fr_planes source))) (stride * fh) of
                  None \<Rightarrow> None
                | Some bytes \<Rightarrow>
                    let scale = overlay_scale D fw fh ow oh
                    in (case (draw_extent D scale ow, draw_extent D scale oh) of
                          (Some draw_w, Some draw_h) \<Rightarrow>
                            (case composite_rows (composite_canvas D img stride fw fh draw_w draw_h)
                                    draw_w 0 draw_h bytes of
                               None \<Rightarrow> None
                             | Some out \<Rightarrow>
                                 Some (Some (source\<lparr>fr_memory := CPU,
                                   fr_planes := [\<lparr>fp_stride = fp_stride (hd (fr_planes source)),
                                                  fp_data = Some (b, 0), fp_size = length out\<rparr>],
                                   fr_owner := Some b\<rparr>), m(b \<mapsto> out)))
                        | _ \<Rightarrow> None))"

section \<open>Blending\<close>

lemma blend_bound: "(unat (d :: u8) * (kMaxAlpha - unat (a :: u8)) + unat (v :: u8) * unat a) div kMaxAlpha < 256"
proof -
  have b: "unat d \<le> 255" "unat v \<le> 255" "unat a \<le> 255"
    using unsigned_less [of d, where 'a = nat] unsigned_less [of v, where 'a = nat]
      unsigned_less [of a, where 'a = nat] by simp_all
  have "unat d * (255 - unat a) + unat v * unat a \<le> 255 * (255 - unat a) + 255 * unat a"
    using b by (intro add_mono mult_right_mono) simp_all
  also have "\<dots> = 255 * 255" using b(3) by (simp add: add_mult_distrib2 [symmetric])
  finally have "(unat d * (255 - unat a) + unat v * unat a) div 255 \<le> 255 * 255 div 255"
    by (rule div_le_mono)
  then show ?thesis by (simp add: kMaxAlpha_def)
qed

lemma blend_transparent [simp]: "blend_channel d v 0 = d"
  by (simp add: blend_channel_def kMaxAlpha_def)

text \<open>The colour of an overlay pixel in the byte order of the frame: blue, green, red.\<close>

fun bgr_channel :: "u8 \<times> u8 \<times> u8 \<times> u8 \<Rightarrow> nat \<Rightarrow> u8" where
  "bgr_channel (r, g, b, a) ch = (if ch = 0 then b else if ch = 1 then g else r)"

fun alpha_of :: "u8 \<times> u8 \<times> u8 \<times> u8 \<Rightarrow> u8" where
  "alpha_of (r, g, b, a) = a"

definition byte_at :: "nat \<Rightarrow> nat \<Rightarrow> nat \<Rightarrow> nat \<Rightarrow> nat" where
  "byte_at stride x y ch = y * stride + x * 3 + ch"

lemma blend_pixel_bytes:
  assumes "blend_pixel stride x y p buf = Some out"
  shows "length out = length buf"
    "ch < 3 \<Longrightarrow> out ! byte_at stride x y ch =
       blend_channel (buf ! byte_at stride x y ch) (bgr_channel p ch) (alpha_of p)"
    "(\<And>ch. ch < 3 \<Longrightarrow> k \<noteq> byte_at stride x y ch) \<Longrightarrow> out ! k = buf ! k"
proof -
  obtain r g b a where p: "p = (r, g, b, a)" by (cases p) auto
  show "length out = length buf"
    using assms by (auto simp: p blend_pixel_def Let_def split: if_splits)
  show "out ! byte_at stride x y ch =
       blend_channel (buf ! byte_at stride x y ch) (bgr_channel p ch) (alpha_of p)" if "ch < 3"
  proof -
    have "ch = 0 \<or> ch = 1 \<or> ch = 2" using that by auto
    then show ?thesis
      using assms
      by (auto simp: p blend_pixel_def Let_def kBgrBytesPerPixel_def byte_at_def nth_list_update
        numeral_2_eq_2 split: if_splits)
  qed
  show "out ! k = buf ! k" if "\<And>ch. ch < 3 \<Longrightarrow> k \<noteq> byte_at stride x y ch"
    using assms that [of 0] that [of 1] that [of 2]
    by (auto simp: p blend_pixel_def Let_def kBgrBytesPerPixel_def byte_at_def nth_list_update
        numeral_2_eq_2 split: if_splits)
qed

text \<open>Different pixels of rows that hold a full line have different bytes.\<close>

lemma byte_at_inj:
  assumes "byte_at stride x y ch = byte_at stride x' y' ch'" "x < w" "x' < w" "ch < 3" "ch' < 3"
    "w * 3 \<le> stride"
  shows "x = x' \<and> y = y' \<and> ch = ch'"
proof -
  have lt: "x * 3 + ch < stride" "x' * 3 + ch' < stride" using assms(2-6) by linarith+
  have "(y * stride + (x * 3 + ch)) div stride = y" "(y' * stride + (x' * 3 + ch')) div stride = y'"
    using lt by auto
  then have "y = y'" using assms(1) by (simp add: byte_at_def add.assoc)
  then have e: "x * 3 + ch = x' * 3 + ch'" using assms(1) by (simp add: byte_at_def)
  have "(x * 3 + ch) div 3 = x" "(x' * 3 + ch') div 3 = x'" using assms(4,5) by auto
  then have "x = x'" using e by simp
  then show ?thesis using e \<open>y = y'\<close> by simp
qed

section \<open>The loops\<close>

definition sampled :: "'d canvas \<Rightarrow> nat \<Rightarrow> nat \<Rightarrow> u8 \<times> u8 \<times> u8 \<times> u8" where
  "sampled C src_y dx =
     the (read_rgba (ca_img C)
       (the (sample_index (ca_ops C) (ca_scale C) (unat (ri_width (ca_img C))) dx)) src_y)"

lemma composite_pixel_bytes:
  assumes "composite_pixel C dy src_y dx buf = Some out"
  shows "length out = length buf"
    "ch < 3 \<Longrightarrow> out ! byte_at (ca_stride C) (ca_off_x C + dx) (ca_off_y C + dy) ch =
       blend_channel (buf ! byte_at (ca_stride C) (ca_off_x C + dx) (ca_off_y C + dy) ch)
         (bgr_channel (sampled C src_y dx) ch) (alpha_of (sampled C src_y dx))"
    "(\<And>ch. ch < 3 \<Longrightarrow> k \<noteq> byte_at (ca_stride C) (ca_off_x C + dx) (ca_off_y C + dy) ch) \<Longrightarrow>
       out ! k = buf ! k"
proof -
  have b: "blend_pixel (ca_stride C) (ca_off_x C + dx) (ca_off_y C + dy) (sampled C src_y dx) buf = Some out"
    using assms by (auto simp: composite_pixel_def sampled_def split: option.splits)
  show "length out = length buf" by (rule blend_pixel_bytes(1) [OF b])
  show "ch < 3 \<Longrightarrow> out ! byte_at (ca_stride C) (ca_off_x C + dx) (ca_off_y C + dy) ch =
       blend_channel (buf ! byte_at (ca_stride C) (ca_off_x C + dx) (ca_off_y C + dy) ch)
         (bgr_channel (sampled C src_y dx) ch) (alpha_of (sampled C src_y dx))"
    by (rule blend_pixel_bytes(2) [OF b])
  show "(\<And>ch. ch < 3 \<Longrightarrow> k \<noteq> byte_at (ca_stride C) (ca_off_x C + dx) (ca_off_y C + dy) ch) \<Longrightarrow>
       out ! k = buf ! k"
    by (rule blend_pixel_bytes(3) [OF b])
qed

definition col_hit :: "'d canvas \<Rightarrow> nat \<Rightarrow> nat \<Rightarrow> nat \<Rightarrow> bool" where
  "col_hit C dx n x \<longleftrightarrow> ca_off_x C + dx \<le> x \<and> x < ca_off_x C + dx + n \<and> x < ca_width C"

lemma col_hit_Suc:
  "ca_off_x C + dx < ca_width C \<Longrightarrow>
     col_hit C dx (Suc n) x \<longleftrightarrow> x = ca_off_x C + dx \<or> col_hit C (Suc dx) n x"
  by (auto simp: col_hit_def)

lemma composite_cols_bytes:
  assumes "composite_cols C dy src_y dx n buf = Some out" "ca_width C * 3 \<le> ca_stride C"
  shows "length out = length buf \<and>
    (\<forall>x ch. x < ca_width C \<longrightarrow> ch < 3 \<longrightarrow>
       out ! byte_at (ca_stride C) x (ca_off_y C + dy) ch =
         (if col_hit C dx n x
          then blend_channel (buf ! byte_at (ca_stride C) x (ca_off_y C + dy) ch)
                 (bgr_channel (sampled C src_y (x - ca_off_x C)) ch)
                 (alpha_of (sampled C src_y (x - ca_off_x C)))
          else buf ! byte_at (ca_stride C) x (ca_off_y C + dy) ch)) \<and>
    (\<forall>k. (\<forall>x ch. x < ca_width C \<longrightarrow> ch < 3 \<longrightarrow> k \<noteq> byte_at (ca_stride C) x (ca_off_y C + dy) ch) \<longrightarrow>
       out ! k = buf ! k)"
  using assms(1)
proof (induction n arbitrary: dx buf)
  case 0
  have "\<not> col_hit C dx 0 x" for x by (simp add: col_hit_def)
  then show ?case using 0 by simp
next
  case (Suc n)
  show ?case
  proof (cases "ca_off_x C + dx < ca_width C")
    case False
    then show ?thesis using Suc.prems by (auto simp: col_hit_def)
  next
    case True
    then obtain buf1 where b1: "composite_pixel C dy src_y dx buf = Some buf1"
      "composite_cols C dy src_y (Suc dx) n buf1 = Some out"
      using Suc.prems by (auto split: option.splits)
    note ih = Suc.IH [OF b1(2)] and px = composite_pixel_bytes [OF b1(1)]
    let ?x0 = "ca_off_x C + dx"
    have same: "buf1 ! byte_at (ca_stride C) x (ca_off_y C + dy) ch =
        buf ! byte_at (ca_stride C) x (ca_off_y C + dy) ch"
      if "x < ca_width C" "ch < 3" "x \<noteq> ?x0" for x ch
      using px(3) byte_at_inj [OF _ that(1) True that(2) _ assms(2)] that(3) by blast
    have nohit: "\<not> col_hit C (Suc dx) n ?x0" by (simp add: col_hit_def)
    have A: "out ! byte_at (ca_stride C) x (ca_off_y C + dy) ch =
         (if col_hit C dx (Suc n) x
          then blend_channel (buf ! byte_at (ca_stride C) x (ca_off_y C + dy) ch)
                 (bgr_channel (sampled C src_y (x - ca_off_x C)) ch)
                 (alpha_of (sampled C src_y (x - ca_off_x C)))
          else buf ! byte_at (ca_stride C) x (ca_off_y C + dy) ch)" if "x < ca_width C" "ch < 3" for x ch
    proof (cases "x = ?x0")
      case True
      then show ?thesis
        using ih that px(2) [OF that(2)] nohit col_hit_Suc [OF \<open>?x0 < ca_width C\<close>, of n x] by simp
    next
      case False
      then show ?thesis
        using ih that same [OF that False] col_hit_Suc [OF \<open>?x0 < ca_width C\<close>, of n x] by simp
    qed
    have B: "out ! k = buf ! k"
      if "\<forall>x ch. x < ca_width C \<longrightarrow> ch < 3 \<longrightarrow> k \<noteq> byte_at (ca_stride C) x (ca_off_y C + dy) ch" for k
      using ih px(3) that True by metis
    show ?thesis using A B ih px(1) by auto
  qed
qed

definition row_hit :: "'d canvas \<Rightarrow> nat \<Rightarrow> nat \<Rightarrow> nat \<Rightarrow> bool" where
  "row_hit C dy n y \<longleftrightarrow> ca_off_y C + dy \<le> y \<and> y < ca_off_y C + dy + n \<and> y < ca_height C"

lemma row_hit_Suc:
  "ca_off_y C + dy < ca_height C \<Longrightarrow>
     row_hit C dy (Suc n) y \<longleftrightarrow> y = ca_off_y C + dy \<or> row_hit C (Suc dy) n y"
  by (auto simp: row_hit_def)

text \<open>The overlay pixel drawn at a position of the frame.\<close>

definition overlay_pixel :: "'d canvas \<Rightarrow> nat \<Rightarrow> nat \<Rightarrow> u8 \<times> u8 \<times> u8 \<times> u8" where
  "overlay_pixel C x y =
     sampled C
       (the (sample_index (ca_ops C) (ca_scale C) (unat (ri_height (ca_img C))) (y - ca_off_y C)))
       (x - ca_off_x C)"

definition blended :: "'d canvas \<Rightarrow> u8 list \<Rightarrow> nat \<Rightarrow> nat \<Rightarrow> nat \<Rightarrow> u8" where
  "blended C buf x y ch =
     blend_channel (buf ! byte_at (ca_stride C) x y ch) (bgr_channel (overlay_pixel C x y) ch)
       (alpha_of (overlay_pixel C x y))"

text \<open>One row: the pixels of row \<^verbatim>\<open>dy\<close> are blended, all others are as before.\<close>

lemma composite_row_bytes:
  assumes "composite_cols C dy sy 0 draw_w buf = Some buf1" "ca_width C * 3 \<le> ca_stride C"
    "sample_index (ca_ops C) (ca_scale C) (unat (ri_height (ca_img C))) dy = Some sy"
    "ca_off_y C + dy < ca_height C" "x < ca_width C" "ch < 3"
  shows "y \<noteq> ca_off_y C + dy \<Longrightarrow> buf1 ! byte_at (ca_stride C) x y ch = buf ! byte_at (ca_stride C) x y ch"
    and "y = ca_off_y C + dy \<Longrightarrow> buf1 ! byte_at (ca_stride C) x y ch =
      (if col_hit C 0 draw_w x then blended C buf x y ch else buf ! byte_at (ca_stride C) x y ch)"
proof -
  note cols = composite_cols_bytes [OF assms(1,2)]
  show "y \<noteq> ca_off_y C + dy \<Longrightarrow> buf1 ! byte_at (ca_stride C) x y ch = buf ! byte_at (ca_stride C) x y ch"
    using cols byte_at_inj [OF _ assms(5) _ assms(6) _ assms(2)] by metis
  show "y = ca_off_y C + dy \<Longrightarrow> buf1 ! byte_at (ca_stride C) x y ch =
      (if col_hit C 0 draw_w x then blended C buf x y ch else buf ! byte_at (ca_stride C) x y ch)"
    using cols assms(3,5,6) by (simp add: blended_def overlay_pixel_def)
qed

lemma composite_rows_bytes:
  assumes "composite_rows C draw_w dy n buf = Some out" "ca_width C * 3 \<le> ca_stride C"
  shows "length out = length buf \<and>
    (\<forall>x y ch. x < ca_width C \<longrightarrow> y < ca_height C \<longrightarrow> ch < 3 \<longrightarrow>
       out ! byte_at (ca_stride C) x y ch =
         (if row_hit C dy n y \<and> col_hit C 0 draw_w x then blended C buf x y ch
          else buf ! byte_at (ca_stride C) x y ch)) \<and>
    (\<forall>k. (\<forall>x y ch. x < ca_width C \<longrightarrow> y < ca_height C \<longrightarrow> ch < 3 \<longrightarrow> k \<noteq> byte_at (ca_stride C) x y ch) \<longrightarrow>
       out ! k = buf ! k)"
  using assms(1)
proof (induction n arbitrary: dy buf)
  case 0
  have "\<not> row_hit C dy 0 y" for y by (simp add: row_hit_def)
  then show ?case using 0 by simp
next
  case (Suc n)
  show ?case
  proof (cases "ca_off_y C + dy < ca_height C")
    case False
    then have "\<not> row_hit C dy (Suc n) y" for y by (auto simp: row_hit_def)
    then show ?thesis using Suc.prems False by simp
  next
    case True
    then obtain sy buf1 where b1:
      "sample_index (ca_ops C) (ca_scale C) (unat (ri_height (ca_img C))) dy = Some sy"
      "composite_cols C dy sy 0 draw_w buf = Some buf1"
      "composite_rows C draw_w (Suc dy) n buf1 = Some out"
      using Suc.prems by (auto split: option.splits)
    note ih = Suc.IH [OF b1(3)] and cols = composite_cols_bytes [OF b1(2) assms(2)]
    let ?y0 = "ca_off_y C + dy"
    have nohit: "\<not> row_hit C (Suc dy) n ?y0" by (simp add: row_hit_def)
    note row = composite_row_bytes [OF b1(2) assms(2) b1(1) True]
    have A: "out ! byte_at (ca_stride C) x y ch =
         (if row_hit C dy (Suc n) y \<and> col_hit C 0 draw_w x then blended C buf x y ch
          else buf ! byte_at (ca_stride C) x y ch)"
      if "x < ca_width C" "y < ca_height C" "ch < 3" for x y ch
    proof (cases "y = ?y0")
      case True
      then show ?thesis
        using ih that row(2) [OF that(1,3)] nohit row_hit_Suc [OF \<open>?y0 < ca_height C\<close>, of n y] by simp
    next
      case False
      then have "blended C buf1 x y ch = blended C buf x y ch"
        using row(1) [OF that(1,3) False] by (simp add: blended_def)
      then show ?thesis
        using ih that row(1) [OF that(1,3) False] row_hit_Suc [OF \<open>?y0 < ca_height C\<close>, of n y] False
        by simp
    qed
    have B: "out ! k = buf ! k"
      if "\<forall>x y ch. x < ca_width C \<longrightarrow> y < ca_height C \<longrightarrow> ch < 3 \<longrightarrow> k \<noteq> byte_at (ca_stride C) x y ch" for k
      using ih cols that True by metis
    show ?thesis using A B ih cols by auto
  qed
qed

section \<open>Every access is inside its buffer\<close>

text \<open>The numbers the loops over an area of \<^verbatim>\<open>dw\<close> by \<^verbatim>\<open>dh\<close> pixels convert are in range.\<close>

definition canvas_ok :: "'d canvas \<Rightarrow> nat \<Rightarrow> nat \<Rightarrow> bool" where
  "canvas_ok C dw dh \<longleftrightarrow>
     ca_width C * 3 \<le> ca_stride C \<and> 0 < ri_width (ca_img C) \<and> 0 < ri_height (ca_img C) \<and>
     unat (ri_width (ca_img C)) * 4 \<le> unat (ri_stride (ca_img C)) \<and>
     unat (ri_stride (ca_img C)) * unat (ri_height (ca_img C)) \<le> length (ri_pixels (ca_img C)) \<and>
     (\<forall>d < dw. sample_index (ca_ops C) (ca_scale C) (unat (ri_width (ca_img C))) d \<noteq> None) \<and>
     (\<forall>d < dh. sample_index (ca_ops C) (ca_scale C) (unat (ri_height (ca_img C))) d \<noteq> None)"

lemma sample_index_bound:
  assumes "sample_index D scale extent d \<noteq> None" "0 < extent"
  obtains i where "sample_index D scale extent d = Some i" "i < extent"
  using assms that by (auto simp: sample_index_def)

lemma read_rgba_defined:
  assumes "sx < w" "sy < h" "w * 4 \<le> unat (ri_stride img)"
    "unat (ri_stride img) * h \<le> length (ri_pixels img)"
  shows "read_rgba img sx sy \<noteq> None"
proof -
  have "sy * unat (ri_stride img) + sx * 4 + 3 < sy * unat (ri_stride img) + unat (ri_stride img)"
    using assms(1,3) by linarith
  also have "\<dots> = Suc sy * unat (ri_stride img)" by simp
  also have "\<dots> \<le> h * unat (ri_stride img)" using assms(2) by (intro mult_right_mono) auto
  also have "\<dots> \<le> length (ri_pixels img)" using assms(4) by (simp add: mult.commute)
  finally show ?thesis by (simp add: read_rgba_def kRgbaBytesPerPixel_def Let_def)
qed

lemma byte_at_bound:
  assumes "x < w" "y < h" "ch < 3" "w * 3 \<le> stride" "stride * h \<le> n"
  shows "byte_at stride x y ch < n"
proof -
  have "y * stride + x * 3 + ch < y * stride + stride" using assms(1,3,4) by linarith
  also have "\<dots> = Suc y * stride" by simp
  also have "\<dots> \<le> h * stride" using assms(2) by (intro mult_right_mono) auto
  also have "\<dots> \<le> n" using assms(5) by (simp add: mult.commute)
  finally show ?thesis by (simp add: byte_at_def)
qed

lemma blend_pixel_defined:
  assumes "byte_at stride x y 2 < length buf"
  shows "blend_pixel stride x y p buf \<noteq> None"
  using assms by (cases p) (simp add: blend_pixel_def kBgrBytesPerPixel_def byte_at_def Let_def)

lemma composite_cols_defined:
  assumes "canvas_ok C dw dh" "src_y < unat (ri_height (ca_img C))" "ca_off_y C + dy < ca_height C"
  shows "\<lbrakk>ca_stride C * ca_height C \<le> length buf; dx + n \<le> dw\<rbrakk> \<Longrightarrow>
    composite_cols C dy src_y dx n buf \<noteq> None"
proof (induction n arbitrary: dx buf)
  case (Suc n)
  have iw: "0 < unat (ri_width (ca_img C))" using assms(1) by (simp add: canvas_ok_def unat_gt_0 word_gt_0)
  have "sample_index (ca_ops C) (ca_scale C) (unat (ri_width (ca_img C))) dx \<noteq> None"
    using assms(1) Suc.prems(2) by (simp add: canvas_ok_def del: not_None_eq)
  from this iw
  obtain sx where sx: "sample_index (ca_ops C) (ca_scale C) (unat (ri_width (ca_img C))) dx = Some sx"
    "sx < unat (ri_width (ca_img C))" by (rule sample_index_bound)
  obtain p where p: "read_rgba (ca_img C) sx src_y = Some p"
    using read_rgba_defined [OF sx(2) assms(2), of "ca_img C"] assms(1)
    unfolding canvas_ok_def by blast
  show ?case
  proof (cases "ca_off_x C + dx < ca_width C")
    case True
    have "byte_at (ca_stride C) (ca_off_x C + dx) (ca_off_y C + dy) 2 < length buf"
      using byte_at_bound [OF True assms(3), of 2] assms(1) Suc.prems by (simp add: canvas_ok_def)
    then obtain buf1 where b: "composite_pixel C dy src_y dx buf = Some buf1"
      using blend_pixel_defined sx(1) p by (fastforce simp: composite_pixel_def)
    have "length buf1 = length buf" using composite_pixel_bytes(1) [OF b] .
    then show ?thesis using Suc.IH [of buf1 "Suc dx"] Suc.prems True b by simp
  qed simp
qed simp

lemma composite_rows_defined:
  assumes "canvas_ok C draw_w dh"
  shows "\<lbrakk>ca_stride C * ca_height C \<le> length buf; dy + n \<le> dh\<rbrakk> \<Longrightarrow>
    composite_rows C draw_w dy n buf \<noteq> None"
proof (induction n arbitrary: dy buf)
  case (Suc n)
  have ih: "0 < unat (ri_height (ca_img C))" using assms by (simp add: canvas_ok_def unat_gt_0 word_gt_0)
  have "sample_index (ca_ops C) (ca_scale C) (unat (ri_height (ca_img C))) dy \<noteq> None"
    using assms Suc.prems(2) by (simp add: canvas_ok_def del: not_None_eq)
  from this ih
  obtain sy where sy: "sample_index (ca_ops C) (ca_scale C) (unat (ri_height (ca_img C))) dy = Some sy"
    "sy < unat (ri_height (ca_img C))" by (rule sample_index_bound)
  show ?case
  proof (cases "ca_off_y C + dy < ca_height C")
    case True
    obtain buf1 where b: "composite_cols C dy sy 0 draw_w buf = Some buf1"
      using composite_cols_defined [OF assms sy(2) True Suc.prems(1), of 0 draw_w] by auto
    have "ca_width C * 3 \<le> ca_stride C" using assms by (simp add: canvas_ok_def)
    then have "length buf1 = length buf" using composite_cols_bytes [OF b] by simp
    then show ?thesis using Suc.IH [of buf1 "Suc dy"] Suc.prems True sy(1) b by simp
  qed simp
qed simp

section \<open>The compositor\<close>

definition valid_overlay :: "rgba_image \<Rightarrow> bool" where
  "valid_overlay img \<longleftrightarrow>
     0 < ri_width img \<and> 0 < ri_height img \<and> ri_pixels img \<noteq> [] \<and>
     unat (ri_width img) * 4 \<le> unat (ri_stride img) \<and>
     unat (ri_stride img) * unat (ri_height img) \<le> length (ri_pixels img)"

text \<open>Every conversion of a double that compositing makes is in range.\<close>

definition conversions_ok :: "'d double_ops \<Rightarrow> nat \<Rightarrow> nat \<Rightarrow> nat \<Rightarrow> nat \<Rightarrow> bool" where
  "conversions_ok D fw fh ow oh \<longleftrightarrow>
     (let scale = overlay_scale D fw fh ow oh
      in case (draw_extent D scale ow, draw_extent D scale oh) of
           (Some dw, Some dh) \<Rightarrow>
             (\<forall>d < dw. sample_index D scale ow d \<noteq> None) \<and> (\<forall>d < dh. sample_index D scale oh d \<noteq> None)
         | _ \<Rightarrow> False)"

lemma composite_spec:
  assumes "fr_format source = BGR8" "fr_planes source = [p]"
    and "read_bytes m (fp_data p) (unat (fp_stride p) * unat (fg_height (fr_geometry source))) = Some src"
    and "0 < fg_width (fr_geometry source)" "0 < fg_height (fr_geometry source)"
    and "unat (fg_width (fr_geometry source)) * 3 \<le> unat (fp_stride p)"
    and "valid_overlay img" "conversions_ok D (unat (fg_width (fr_geometry source)))
      (unat (fg_height (fr_geometry source))) (unat (ri_width img)) (unat (ri_height img))"
  shows "\<exists>out f draw_w draw_h C.
    draw_extent D (overlay_scale D (unat (fg_width (fr_geometry source))) (unat (fg_height (fr_geometry source)))
      (unat (ri_width img)) (unat (ri_height img))) (unat (ri_width img)) = Some draw_w \<and>
    draw_extent D (overlay_scale D (unat (fg_width (fr_geometry source))) (unat (fg_height (fr_geometry source)))
      (unat (ri_width img)) (unat (ri_height img))) (unat (ri_height img)) = Some draw_h \<and>
    fr_format f = BGR8 \<and> fr_captured_at f = fr_captured_at source \<and>
    composite_overlay D b source img m = Some (Some f, m(b \<mapsto> out)) \<and>
    fr_id f = fr_id source \<and> fr_geometry f = fr_geometry source \<and>
    fr_planes f = [\<lparr>fp_stride = fp_stride p, fp_data = Some (b, 0), fp_size = length src\<rparr>] \<and>
    length out = length src \<and>
    C = composite_canvas D img (unat (fp_stride p)) (unat (fg_width (fr_geometry source)))
          (unat (fg_height (fr_geometry source))) draw_w draw_h \<and>
    (\<forall>x y ch. x < ca_width C \<longrightarrow> y < ca_height C \<longrightarrow> ch < 3 \<longrightarrow>
       out ! byte_at (ca_stride C) x y ch =
         (if row_hit C 0 draw_h y \<and> col_hit C 0 draw_w x then blended C src x y ch
          else src ! byte_at (ca_stride C) x y ch)) \<and>
    (\<forall>k. (\<forall>x y ch. x < ca_width C \<longrightarrow> y < ca_height C \<longrightarrow> ch < 3 \<longrightarrow> k \<noteq> byte_at (ca_stride C) x y ch) \<longrightarrow>
       out ! k = src ! k)"
proof -
  let ?fw = "unat (fg_width (fr_geometry source))" and ?fh = "unat (fg_height (fr_geometry source))"
  let ?sc = "overlay_scale D ?fw ?fh (unat (ri_width img)) (unat (ri_height img))"
  obtain dw dh where d: "draw_extent D ?sc (unat (ri_width img)) = Some dw"
    "draw_extent D ?sc (unat (ri_height img)) = Some dh"
    using assms(8) by (auto simp: conversions_ok_def Let_def split: option.splits)
  let ?C = "composite_canvas D img (unat (fp_stride p)) ?fw ?fh dw dh"
  have ok: "canvas_ok ?C dw dh"
    using assms(6-8) d
    by (simp add: canvas_ok_def composite_canvas_def valid_overlay_def conversions_ok_def Let_def)
  have data: "fp_data p \<noteq> None" and len: "length src = unat (fp_stride p) * ?fh"
    using assms(3) by (auto simp: read_bytes_def split: option.splits if_splits)
  have "ca_stride ?C * ca_height ?C \<le> length src" by (simp add: composite_canvas_def len)
  then obtain out where out: "composite_rows ?C dw 0 dh src = Some out"
    using composite_rows_defined [OF ok, of src 0 dh] by auto
  have w: "ca_width ?C * 3 \<le> ca_stride ?C" using ok by (simp add: canvas_ok_def)
  note bytes = composite_rows_bytes [OF out w]
  have pos: "?fw \<noteq> 0" "?fh \<noteq> 0" "unat (ri_width img) \<noteq> 0" "unat (ri_height img) \<noteq> 0"
    using assms(4,5,7) by (auto simp: valid_overlay_def unat_eq_0)
  have guard: "\<not> (unat (ri_stride img) < unat (ri_width img) * kRgbaBytesPerPixel \<or>
      length (ri_pixels img) < unat (ri_stride img) * unat (ri_height img))" "ri_pixels img \<noteq> []"
    using assms(7) by (auto simp: valid_overlay_def kRgbaBytesPerPixel_def)
  let ?f = "source\<lparr>fr_memory := CPU,
      fr_planes := [\<lparr>fp_stride = fp_stride p, fp_data = Some (b, 0), fp_size = length out\<rparr>],
      fr_owner := Some b\<rparr>"
  have "composite_overlay D b source img m = Some (Some ?f, m(b \<mapsto> out))"
    using assms(1) data pos guard out d
    by (simp add: composite_overlay_def assms(2) assms(3) Let_def)
  then show ?thesis using bytes d assms(1)
    by (intro exI [of _ out] exI [of _ ?f] exI [of _ dw] exI [of _ dh] exI [of _ ?C]) simp
qed

text \<open>C28: Compositing is memory safe and exact.  For a BGR frame whose rows hold a full line and
  whose bytes are readable, and any overlay that passes the checks, no access leaves its buffer
  whatever the rounding of the scale: the result is a frame with the metadata of the source in a
  buffer of its own, in which every pixel inside the drawn rectangle is the blend of the source
  pixel and the overlay pixel sampled for it, every other byte is the source's, and nothing else
  in memory changes.\<close>

theorem composite_exact:
  assumes "fr_format source = BGR8" "fr_planes source = [p]"
    and "read_bytes m (fp_data p) (unat (fp_stride p) * unat (fg_height (fr_geometry source))) = Some src"
    and "0 < fg_width (fr_geometry source)" "0 < fg_height (fr_geometry source)"
    and "unat (fg_width (fr_geometry source)) * 3 \<le> unat (fp_stride p)"
    and "valid_overlay img" "conversions_ok D (unat (fg_width (fr_geometry source)))
      (unat (fg_height (fr_geometry source))) (unat (ri_width img)) (unat (ri_height img))"
  shows "\<exists>out f draw_w draw_h C.
    composite_overlay D b source img m = Some (Some f, m(b \<mapsto> out)) \<and>
    fr_id f = fr_id source \<and> fr_geometry f = fr_geometry source \<and>
    fr_planes f = [\<lparr>fp_stride = fp_stride p, fp_data = Some (b, 0), fp_size = length src\<rparr>] \<and>
    length out = length src \<and>
    C = composite_canvas D img (unat (fp_stride p)) (unat (fg_width (fr_geometry source)))
          (unat (fg_height (fr_geometry source))) draw_w draw_h \<and>
    (\<forall>x y ch. x < ca_width C \<longrightarrow> y < ca_height C \<longrightarrow> ch < 3 \<longrightarrow>
       out ! byte_at (ca_stride C) x y ch =
         (if row_hit C 0 draw_h y \<and> col_hit C 0 draw_w x then blended C src x y ch
          else src ! byte_at (ca_stride C) x y ch)) \<and>
    (\<forall>k. (\<forall>x y ch. x < ca_width C \<longrightarrow> y < ca_height C \<longrightarrow> ch < 3 \<longrightarrow> k \<noteq> byte_at (ca_stride C) x y ch) \<longrightarrow>
       out ! k = src ! k)"
  using composite_spec [OF assms, of b] by blast

section \<open>An overlay of the size of the frame\<close>

text \<open>What IEEE doubles do with small integers: a number divided by itself is one, and one is neutral.\<close>

definition double_units :: "'d double_ops \<Rightarrow> bool" where
  "double_units D \<longleftrightarrow>
     \<not> dbl_less D (dbl_of D 1) (dbl_of D 1) \<and>
     (\<forall>n < 2 ^ 32. (0 < n \<longrightarrow> dbl_div D (dbl_of D n) (dbl_of D n) = dbl_of D 1) \<and>
        dbl_mul D (dbl_of D n) (dbl_of D 1) = dbl_of D n \<and>
        dbl_div D (dbl_of D n) (dbl_of D 1) = dbl_of D n \<and>
        dbl_to_u32 D (dbl_of D n) = Some (of_nat n))"

lemma units_extent:
  assumes "double_units D" "0 < n" "n < 2 ^ 32"
  shows "draw_extent D (dbl_of D 1) n = Some n"
  using assms by (simp add: draw_extent_def double_units_def unat_word_of_nat)

lemma units_sample:
  assumes "double_units D" "d < n" "n < 2 ^ 32"
  shows "sample_index D (dbl_of D 1) n d = Some d"
  using assms by (simp add: sample_index_def double_units_def unat_word_of_nat)

lemma units_scale:
  assumes "double_units D" "0 < w" "w < 2 ^ 32" "0 < h" "h < 2 ^ 32"
  shows "overlay_scale D w h w h = dbl_of D 1"
  using assms by (simp add: overlay_scale_def double_units_def Let_def)

lemma unat_u32_bound: "unat (w :: u32) < 2 ^ 32"
  using unsigned_less [of w, where 'a = nat] by simp

text \<open>Then nothing is scaled or moved: every pixel of the frame is blended with the overlay's pixel
  at the same place.\<close>

lemma composite_unscaled:
  assumes "fr_format source = BGR8" "fr_planes source = [p]"
    and "read_bytes m (fp_data p) (unat (fp_stride p) * unat (fg_height (fr_geometry source))) = Some src"
    and "unat (fg_width (fr_geometry source)) * 3 \<le> unat (fp_stride p)"
    and "valid_overlay img" "ri_width img = fg_width (fr_geometry source)"
    and "ri_height img = fg_height (fr_geometry source)" "double_units D"
  shows "\<exists>out f. composite_overlay D b source img m = Some (Some f, m(b \<mapsto> out)) \<and>
    fr_id f = fr_id source \<and> fr_captured_at f = fr_captured_at source \<and> fr_format f = BGR8 \<and>
    fr_geometry f = fr_geometry source \<and>
    fr_planes f = [\<lparr>fp_stride = fp_stride p, fp_data = Some (b, 0), fp_size = length src\<rparr>] \<and>
    length out = length src \<and>
    (\<forall>x < unat (ri_width img). \<forall>y < unat (ri_height img). \<exists>rgba. read_rgba img x y = Some rgba \<and>
       (\<forall>ch < 3. out ! byte_at (unat (fp_stride p)) x y ch =
          blend_channel (src ! byte_at (unat (fp_stride p)) x y ch) (bgr_channel rgba ch) (alpha_of rgba)))"
proof -
  let ?w = "unat (ri_width img)" and ?h = "unat (ri_height img)"
  have v: "0 < ri_width img" "0 < ri_height img" "?w * 4 \<le> unat (ri_stride img)"
    "unat (ri_stride img) * ?h \<le> length (ri_pixels img)"
    using assms(5) by (simp_all add: valid_overlay_def)
  then have pos: "0 < ?w" "0 < ?h" by (simp_all add: unat_gt_0 word_gt_0)
  note scale = units_scale [OF assms(8) pos(1) unat_u32_bound pos(2) unat_u32_bound]
    and ext = units_extent [OF assms(8) pos(1) unat_u32_bound] units_extent [OF assms(8) pos(2) unat_u32_bound]
    and sample = units_sample [OF assms(8) _ unat_u32_bound]
  have conv: "conversions_ok D ?w ?h ?w ?h"
    unfolding conversions_ok_def scale ext Let_def using sample by simp
  note spec = composite_spec [OF assms(1-3) _ _ assms(4,5), of D b, folded assms(6,7), OF v(1,2) conv, unfolded scale]
  obtain out f dw dh C where ex: "Some ?w = Some dw" "Some ?h = Some dh"
    and C: "C = composite_canvas D img (unat (fp_stride p)) ?w ?h dw dh"
    and O: "composite_overlay D b source img m = Some (Some f, m(b \<mapsto> out))"
    "fr_format f = BGR8" "fr_captured_at f = fr_captured_at source" "fr_id f = fr_id source"
    "fr_geometry f = fr_geometry source" "length out = length src"
    "fr_planes f = [\<lparr>fp_stride = fp_stride p, fp_data = Some (b, 0), fp_size = length src\<rparr>]"
    and px: "\<forall>x y ch. x < ca_width C \<longrightarrow> y < ca_height C \<longrightarrow> ch < 3 \<longrightarrow> out ! byte_at (ca_stride C) x y ch =
         (if row_hit C 0 dh y \<and> col_hit C 0 dw x then blended C src x y ch
          else src ! byte_at (ca_stride C) x y ch)"
    using spec [unfolded ext] by (elim exE conjE)
  have dim: "dw = ?w" "dh = ?h" using ex by simp_all
  have canvas: "ca_width C = ?w" "ca_height C = ?h" "ca_stride C = unat (fp_stride p)" "ca_off_x C = 0"
    "ca_off_y C = 0" "ca_ops C = D" "ca_img C = img" "ca_scale C = dbl_of D 1"
    by (simp_all add: C dim composite_canvas_def scale del: One_nat_def)
  have "\<exists>rgba. read_rgba img x y = Some rgba \<and> (\<forall>ch < 3. out ! byte_at (unat (fp_stride p)) x y ch =
      blend_channel (src ! byte_at (unat (fp_stride p)) x y ch) (bgr_channel rgba ch) (alpha_of rgba))"
    if xy: "x < ?w" "y < ?h" for x y
  proof -
    obtain rgba where r: "read_rgba img x y = Some rgba"
      using read_rgba_defined [OF xy v(3,4)] by auto
    then have "overlay_pixel C x y = rgba"
      using sample [OF xy(1)] sample [OF xy(2)] by (simp add: overlay_pixel_def sampled_def canvas del: One_nat_def)
    then show ?thesis
      using r px xy by (auto simp: row_hit_def col_hit_def blended_def canvas dim)
  qed
  then show ?thesis using O by blast
qed

text \<open>Exact arithmetic, converted by truncation and saturation.\<close>

definition exact_ops :: "rat double_ops" where
  "exact_ops =
     \<lparr>dbl_of = of_nat, dbl_div = (/), dbl_mul = (*), dbl_less = (<),
      dbl_to_u32 = (\<lambda>q. Some (word_of_int (max 0 (min (2 ^ 32 - 1) \<lfloor>q\<rfloor>))))\<rparr>"

definition test_bgr :: "u32 \<Rightarrow> frame" where
  "test_bgr stride =
     \<lparr>fr_id = 7, fr_format = BGR8, fr_memory = GPU, fr_geometry = \<lparr>fg_width = 2, fg_height = 1\<rparr>,
      fr_planes = [\<lparr>fp_stride = stride, fp_data = Some (0, 0), fp_size = unat stride\<rparr>],
      fr_captured_at = 0, fr_owner = Some 0\<rparr>"

definition test_rgba :: rgba_image where
  "test_rgba =
     \<lparr>ri_width = 2, ri_height = 1, ri_stride = 8, ri_pixels = [1, 2, 3, 0, 10, 20, 30, 255]\<rparr>"

definition test_memory :: memory where
  "test_memory = (\<lambda>_. None)(0 \<mapsto> [100, 101, 102, 103, 104, 105])"

theorem composite_exact_witness:
  "\<exists>out f. composite_overlay exact_ops 1 (test_bgr 6) test_rgba test_memory =
     Some (Some f, test_memory(1 \<mapsto> out)) \<and> fr_id f = 7 \<and> length out = 6"
proof -
  let ?p = "\<lparr>fp_stride = 6, fp_data = Some (0, 0), fp_size = 6\<rparr>"
  have h: "fr_format (test_bgr 6) = BGR8" "fr_planes (test_bgr 6) = [?p]"
    "read_bytes test_memory (fp_data ?p)
       (unat (fp_stride ?p) * unat (fg_height (fr_geometry (test_bgr 6)))) = Some [100, 101, 102, 103, 104, 105]"
    "0 < fg_width (fr_geometry (test_bgr 6))" "0 < fg_height (fr_geometry (test_bgr 6))"
    "unat (fg_width (fr_geometry (test_bgr 6))) * 3 \<le> unat (fp_stride ?p)"
    "valid_overlay test_rgba"
    "conversions_ok exact_ops (unat (fg_width (fr_geometry (test_bgr 6))))
       (unat (fg_height (fr_geometry (test_bgr 6)))) (unat (ri_width test_rgba)) (unat (ri_height test_rgba))"
    by (simp_all add: test_bgr_def test_rgba_def test_memory_def valid_overlay_def exact_ops_def
      read_bytes_def conversions_ok_def overlay_scale_def draw_extent_def sample_index_def Let_def)
  from composite_exact [OF h, of 1] show ?thesis
    by (elim exE conjE) (intro exI conjI, assumption, simp_all add: test_bgr_def)
qed

text \<open>Rows that are too short for the width are not checked for: blending the second pixel of a
  frame with three bytes per row writes behind the end of the buffer.\<close>

lemma composite_short_stride:
  "composite_overlay exact_ops 1 (test_bgr 3) test_rgba test_memory = None"
  by code_simp

end
