(* ===== verification/Processing.thy ===== *)
theory Processing
  imports Frames
begin

text \<open>
  Frame processing: \<^verbatim>\<open>adapters/processing/opencv\<close> (WrapNv12, MakeOwnedFrame, the pre- and the
  postprocessor) and \<^verbatim>\<open>domain/processing/models\<close>.

  OpenCV is an argument: a record of the calls the code makes, each of which may throw.  A
  matrix is its size, its number of channels and the bytes of its rows.  What the results rely
  on is the predicate \<^verbatim>\<open>cv_documented\<close>, the documented shapes of the results.  An exception and
  undefined behaviour are both the outcome Crash, std::nullopt is Nothing.
\<close>

section \<open>Data\<close>

datatype color_mode = Grayscale | Binary | RGB

fun color_mode_to_string :: "color_mode \<Rightarrow> string" where
  "color_mode_to_string Grayscale = ''Grayscale''"
| "color_mode_to_string Binary = ''Binary''"
| "color_mode_to_string RGB = ''RGB''"

record crop_rect =
  cr_x :: u32
  cr_y :: u32
  cr_width :: u32
  cr_height :: u32

record frame_bundle =
  fb_source :: frame
  fb_ai :: frame

record postprocess_config =
  qc_width :: u32
  qc_height :: u32
  qc_format :: pixel_format

definition default_postprocess_config :: postprocess_config where
  "default_postprocess_config = \<lparr>qc_width = 1280, qc_height = 720, qc_format = BGR8\<rparr>"

record preprocess_config =
  pc_ai_width :: u32
  pc_ai_height :: u32
  pc_color_mode :: color_mode
  pc_threshold :: u8

definition default_preprocess_config :: preprocess_config where
  "default_preprocess_config =
     \<lparr>pc_ai_width = 640, pc_ai_height = 640, pc_color_mode = Grayscale, pc_threshold = 127\<rparr>"

section \<open>The library\<close>

datatype 'a outcome = Crash | Nothing | Got 'a

fun or_crash :: "'a option \<Rightarrow> ('a \<Rightarrow> 'b outcome) \<Rightarrow> 'b outcome" where
  "or_crash None k = Crash"
| "or_crash (Some x) k = k x"

fun on_value :: "'a outcome \<Rightarrow> ('a \<Rightarrow> 'b outcome) \<Rightarrow> 'b outcome" where
  "on_value Crash k = Crash"
| "on_value Nothing k = Nothing"
| "on_value (Got x) k = k x"

record mat =
  mt_rows :: int
  mt_cols :: int
  mt_channels :: nat
  mt_data :: "u8 list list"

record cv_ops =
  cv_header :: "memory \<Rightarrow> int \<Rightarrow> int \<Rightarrow> address \<Rightarrow> nat \<Rightarrow> mat option"
  cv_alloc :: "int \<Rightarrow> int \<Rightarrow> bool"
  cv_nv12_to_bgr :: "mat \<Rightarrow> mat option"
  cv_nv12_to_rgb :: "mat \<Rightarrow> mat option"
  cv_bgr_to_rgb :: "mat \<Rightarrow> mat option"
  cv_bgr_to_gray :: "mat \<Rightarrow> mat option"
  cv_roi :: "int \<Rightarrow> int \<Rightarrow> int \<Rightarrow> int \<Rightarrow> mat \<Rightarrow> mat option"
  cv_resize_linear :: "int \<Rightarrow> int \<Rightarrow> mat \<Rightarrow> mat option"
  cv_resize_area :: "int \<Rightarrow> int \<Rightarrow> mat \<Rightarrow> mat option"
  cv_threshold :: "nat \<Rightarrow> nat \<Rightarrow> mat \<Rightarrow> mat option"

definition kBinaryMaxValue :: nat where "kBinaryMaxValue = 255"

section \<open>Matrices and frames\<close>

definition addr_plus :: "address \<Rightarrow> nat \<Rightarrow> address" where
  "addr_plus a k = map_option (\<lambda>(b, off). (b, off + k)) a"

text \<open>The rows copied out of a plane: \<^verbatim>\<open>w\<close> bytes every stride bytes.\<close>

definition read_rows :: "memory \<Rightarrow> address \<Rightarrow> nat \<Rightarrow> nat \<Rightarrow> nat \<Rightarrow> u8 list list option" where
  "read_rows m a step w n = those (map (\<lambda>r. read_bytes m (addr_plus a (r * step)) w) [0..<n])"

definition plane_rows :: "memory \<Rightarrow> frame_plane \<Rightarrow> nat \<Rightarrow> nat \<Rightarrow> u8 list list option" where
  "plane_rows m p w n = read_rows m (fp_data p) (unat (fp_stride p)) w n"

definition planes_contiguous :: "u32 \<Rightarrow> frame_plane \<Rightarrow> frame_plane \<Rightarrow> bool" where
  "planes_contiguous w y uv \<longleftrightarrow>
     fp_stride y = w \<and> fp_stride uv = w \<and> addr_plus (fp_data y) (fp_size y) = fp_data uv"

definition wrap_nv12 :: "cv_ops \<Rightarrow> memory \<Rightarrow> frame \<Rightarrow> mat outcome" where
  "wrap_nv12 cv m f =
     (if fr_format f \<noteq> NV12 then Nothing
      else
        (case fr_planes f of
           [y, uv] \<Rightarrow>
             let w = fg_width (fr_geometry f); h = fg_height (fr_geometry f);
                 rows = sint h + sint h div 2
             in if w = 0 \<or> h = 0 \<or> w mod 2 \<noteq> 0 \<or> h mod 2 \<noteq> 0 then Nothing
                else if fp_data y = None \<or> fp_data uv = None then Nothing
                else if rows < - (2 ^ 31) \<or> 2 ^ 31 \<le> rows then Crash
                else if planes_contiguous w y uv
                then or_crash (cv_header cv m rows (sint w) (fp_data y) (unat (fp_stride y))) Got
                else if \<not> cv_alloc cv rows (sint w) then Crash
                else or_crash (plane_rows m y (unat w) (unat h)) (\<lambda>ys.
                     or_crash (plane_rows m uv (unat w) (unat h div 2)) (\<lambda>uvs.
                     Got \<lparr>mt_rows = rows, mt_cols = sint w, mt_channels = 1,
                          mt_data = ys @ uvs\<rparr>))
         | _ \<Rightarrow> Nothing))"

text \<open>The copy loop of MakeOwnedFrame over the given row numbers.\<close>

fun put_rows :: "nat \<Rightarrow> nat \<Rightarrow> mat \<Rightarrow> nat list \<Rightarrow> memory \<Rightarrow> memory option" where
  "put_rows b rb x [] m = Some m"
| "put_rows b rb x (r # rs) m =
     (if r < length (mt_data x) \<and> rb \<le> length (mt_data x ! r)
      then (case write_bytes m b (r * rb) (take rb (mt_data x ! r)) of
              None \<Rightarrow> None
            | Some m1 \<Rightarrow> put_rows b rb x rs m1)
      else None)"

definition make_owned_frame ::
  "nat \<Rightarrow> memory \<Rightarrow> mat \<Rightarrow> pixel_format \<Rightarrow> u64 \<Rightarrow> int \<Rightarrow> (frame \<times> memory) option" where
  "make_owned_frame b m x fmt fid captured_at =
     (if mt_cols x \<le> 0 \<or> mt_rows x \<le> 0 then None
      else
        let cols = of_int (mt_cols x) :: u32; rows = of_int (mt_rows x) :: u32;
            row_bytes = unat cols * mt_channels x; bytes = unat rows * row_bytes
        in (case put_rows b row_bytes x [0..<unat rows] (m(b \<mapsto> replicate bytes 0)) of
              None \<Rightarrow> None
            | Some m1 \<Rightarrow>
                Some (\<lparr>fr_id = fid, fr_format = fmt, fr_memory = CPU,
                       fr_geometry = \<lparr>fg_width = cols, fg_height = rows\<rparr>,
                       fr_planes = [\<lparr>fp_stride = of_nat row_bytes, fp_data = Some (b, 0),
                                     fp_size = bytes\<rparr>],
                       fr_captured_at = captured_at, fr_owner = Some b\<rparr>, m1)))"

section \<open>Postprocessor\<close>

text \<open>The bounds check adds two 32 bit numbers.\<close>

definition crop_accepted :: "frame_geometry \<Rightarrow> crop_rect \<Rightarrow> bool" where
  "crop_accepted g c \<longleftrightarrow>
     \<not> (cr_width c = 0 \<or> cr_height c = 0 \<or> fg_width g < cr_x c + cr_width c \<or>
        fg_height g < cr_y c + cr_height c)"

fun convert_output :: "cv_ops \<Rightarrow> pixel_format \<Rightarrow> mat \<Rightarrow> mat outcome" where
  "convert_output cv BGR8 x = Got x"
| "convert_output cv RGB8 x = or_crash (cv_bgr_to_rgb cv x) Got"
| "convert_output cv GRAY8 x = or_crash (cv_bgr_to_gray cv x) Got"
| "convert_output cv _ x = Nothing"

definition postprocess ::
  "cv_ops \<Rightarrow> postprocess_config \<Rightarrow> nat \<Rightarrow> memory \<Rightarrow> frame \<Rightarrow> crop_rect \<Rightarrow> (frame \<times> memory) outcome" where
  "postprocess cv cfg b m src c =
     (if fr_format src \<noteq> NV12 then Nothing
      else if fr_memory src \<noteq> CPU then Nothing
      else if fg_width (fr_geometry src) = 0 \<or> fg_height (fr_geometry src) = 0 then Nothing
      else if \<not> crop_accepted (fr_geometry src) c then Nothing
      else if qc_width cfg = 0 \<or> qc_height cfg = 0 then Nothing
      else if qc_format cfg \<noteq> BGR8 \<and> qc_format cfg \<noteq> RGB8 \<and> qc_format cfg \<noteq> GRAY8 then Nothing
      else
        on_value (wrap_nv12 cv m src) (\<lambda>nv12.
        or_crash (cv_nv12_to_bgr cv nv12) (\<lambda>bgr.
        or_crash (cv_roi cv (sint (cr_x c)) (sint (cr_y c)) (sint (cr_width c))
                    (sint (cr_height c)) bgr) (\<lambda>roi.
        or_crash (cv_resize_linear cv (sint (qc_width cfg)) (sint (qc_height cfg)) roi) (\<lambda>resized.
        on_value (convert_output cv (qc_format cfg) resized) (\<lambda>final.
        or_crash (make_owned_frame b m final (qc_format cfg) (fr_id src) (fr_captured_at src))
          Got))))))"

section \<open>Preprocessor\<close>

definition luma_header :: "cv_ops \<Rightarrow> memory \<Rightarrow> frame \<Rightarrow> frame_plane \<Rightarrow> mat option" where
  "luma_header cv m raw y =
     cv_header cv m (sint (fg_height (fr_geometry raw))) (sint (fg_width (fr_geometry raw)))
       (fp_data y) (unat (fp_stride y))"

definition ai_image ::
  "cv_ops \<Rightarrow> preprocess_config \<Rightarrow> memory \<Rightarrow> frame \<Rightarrow> frame_plane \<Rightarrow> (mat \<times> pixel_format) outcome" where
  "ai_image cv cfg m raw y =
     (let aw = sint (pc_ai_width cfg); ah = sint (pc_ai_height cfg)
      in case pc_color_mode cfg of
           Grayscale \<Rightarrow>
             or_crash (luma_header cv m raw y) (\<lambda>full.
             or_crash (cv_resize_area cv aw ah full) (\<lambda>x. Got (x, GRAY8)))
         | Binary \<Rightarrow>
             or_crash (luma_header cv m raw y) (\<lambda>full.
             or_crash (cv_resize_area cv aw ah full) (\<lambda>resized.
             or_crash (cv_threshold cv (unat (pc_threshold cfg)) kBinaryMaxValue resized)
               (\<lambda>x. Got (x, GRAY8))))
         | RGB \<Rightarrow>
             on_value (wrap_nv12 cv m raw) (\<lambda>nv12.
             or_crash (cv_nv12_to_rgb cv nv12) (\<lambda>full.
             or_crash (cv_resize_area cv aw ah full) (\<lambda>x. Got (x, RGB8)))))"

definition preprocess ::
  "cv_ops \<Rightarrow> preprocess_config \<Rightarrow> nat \<Rightarrow> memory \<Rightarrow> frame \<Rightarrow> (frame_bundle \<times> memory) outcome" where
  "preprocess cv cfg b m raw =
     (let w = fg_width (fr_geometry raw); h = fg_height (fr_geometry raw)
      in if fr_format raw \<noteq> NV12 then Nothing
         else if fr_memory raw \<noteq> CPU then Nothing
         else
           (case fr_planes raw of
              [y, uv] \<Rightarrow>
                if w = 0 \<or> h = 0 \<or> w mod 2 \<noteq> 0 \<or> h mod 2 \<noteq> 0 then Nothing
                else if pc_ai_width cfg = 0 \<or> pc_ai_height cfg = 0 then Nothing
                else
                  on_value (ai_image cv cfg m raw y) (\<lambda>(x, fmt).
                  or_crash (make_owned_frame b m x fmt (fr_id raw) (fr_captured_at raw))
                    (\<lambda>(ai, m1). Got (\<lparr>fb_source = raw, fb_ai = ai\<rparr>, m1)))
            | _ \<Rightarrow> Nothing))"

section \<open>What OpenCV documents\<close>

definition mat_shape :: "mat \<Rightarrow> int \<Rightarrow> int \<Rightarrow> nat \<Rightarrow> bool" where
  "mat_shape x rows cols channels \<longleftrightarrow>
     mt_rows x = rows \<and> mt_cols x = cols \<and> mt_channels x = channels \<and>
     length (mt_data x) = nat rows \<and> (\<forall>row \<in> set (mt_data x). length row = nat cols * channels)"

definition reshapes ::
  "(mat \<Rightarrow> mat option) \<Rightarrow> mat \<Rightarrow> int \<Rightarrow> int \<Rightarrow> nat \<Rightarrow> bool" where
  "reshapes f x rows cols channels \<longleftrightarrow> (\<exists>y. f x = Some y \<and> mat_shape y rows cols channels)"

text \<open>A header over foreign memory shows the rows that start every step bytes; colour conversions
  keep the size (two thirds of the rows for NV12), resizing gives the requested size, a region
  that is not inside the matrix is refused with an exception.\<close>

definition cv_documented :: "cv_ops \<Rightarrow> bool" where
  "cv_documented cv \<longleftrightarrow>
     (\<forall>m rows cols a step xss. 0 < rows \<and> 0 < cols \<and> cols \<le> int step \<and>
        read_rows m a step (nat cols) (nat rows) = Some xss \<longrightarrow>
        cv_header cv m rows cols a step =
          Some \<lparr>mt_rows = rows, mt_cols = cols, mt_channels = 1, mt_data = xss\<rparr>) \<and>
     (\<forall>x r c. 0 < r \<and> 0 < c \<and> even c \<and> mat_shape x (3 * r) c 1 \<longrightarrow>
        reshapes (cv_nv12_to_bgr cv) x (2 * r) c 3 \<and> reshapes (cv_nv12_to_rgb cv) x (2 * r) c 3) \<and>
     (\<forall>x r c. 0 < r \<and> 0 < c \<and> mat_shape x r c 3 \<longrightarrow>
        reshapes (cv_bgr_to_rgb cv) x r c 3 \<and> reshapes (cv_bgr_to_gray cv) x r c 1) \<and>
     (\<forall>x r c ch i j w h. 0 < r \<and> 0 < c \<and> mat_shape x r c ch \<longrightarrow>
        (if 0 \<le> i \<and> 0 \<le> j \<and> 0 \<le> w \<and> 0 \<le> h \<and> i + w \<le> c \<and> j + h \<le> r
         then reshapes (cv_roi cv i j w h) x h w ch else cv_roi cv i j w h x = None)) \<and>
     (\<forall>x r c ch w h. 0 < r \<and> 0 < c \<and> 0 < w \<and> 0 < h \<and> mat_shape x r c ch \<longrightarrow>
        reshapes (cv_resize_linear cv w h) x h w ch \<and> reshapes (cv_resize_area cv w h) x h w ch) \<and>
     (\<forall>x r c t v. 0 < r \<and> 0 < c \<and> mat_shape x r c 1 \<longrightarrow> reshapes (cv_threshold cv t v) x r c 1)"

lemma cv_header_rows:
  "\<lbrakk>cv_documented cv; 0 < rows; 0 < cols; cols \<le> int step;
    read_rows m a step (nat cols) (nat rows) = Some xss\<rbrakk> \<Longrightarrow>
   cv_header cv m rows cols a step =
     Some \<lparr>mt_rows = rows, mt_cols = cols, mt_channels = 1, mt_data = xss\<rparr>"
  by (simp add: cv_documented_def)

lemma cv_roi_outside:
  "\<lbrakk>cv_documented cv; mat_shape x r c ch; 0 < r; 0 < c;
    \<not> (0 \<le> i \<and> 0 \<le> j \<and> 0 \<le> w \<and> 0 \<le> h \<and> i + w \<le> c \<and> j + h \<le> r)\<rbrakk> \<Longrightarrow> cv_roi cv i j w h x = None"
  unfolding cv_documented_def by meson

lemma cv_reshapes:
  assumes "cv_documented cv"
  shows "\<And>x r c. \<lbrakk>0 < r; 0 < c; even c; mat_shape x (3 * r) c 1\<rbrakk> \<Longrightarrow>
      reshapes (cv_nv12_to_bgr cv) x (2 * r) c 3"
    "\<And>x r c. \<lbrakk>0 < r; 0 < c; even c; mat_shape x (3 * r) c 1\<rbrakk> \<Longrightarrow>
      reshapes (cv_nv12_to_rgb cv) x (2 * r) c 3"
    "\<And>x r c. \<lbrakk>0 < r; 0 < c; mat_shape x r c 3\<rbrakk> \<Longrightarrow> reshapes (cv_bgr_to_rgb cv) x r c 3"
    "\<And>x r c. \<lbrakk>0 < r; 0 < c; mat_shape x r c 3\<rbrakk> \<Longrightarrow> reshapes (cv_bgr_to_gray cv) x r c 1"
    "\<And>x r c ch w h. \<lbrakk>0 < r; 0 < c; 0 < w; 0 < h; mat_shape x r c ch\<rbrakk> \<Longrightarrow>
      reshapes (cv_resize_linear cv w h) x h w ch"
    "\<And>x r c ch w h. \<lbrakk>0 < r; 0 < c; 0 < w; 0 < h; mat_shape x r c ch\<rbrakk> \<Longrightarrow>
      reshapes (cv_resize_area cv w h) x h w ch"
    "\<And>x r c t v. \<lbrakk>0 < r; 0 < c; mat_shape x r c 1\<rbrakk> \<Longrightarrow> reshapes (cv_threshold cv t v) x r c 1"
    "\<And>x r c ch i j w h. \<lbrakk>0 < r; 0 < c; mat_shape x r c ch; 0 \<le> i; 0 \<le> j; 0 \<le> w; 0 \<le> h;
      i + w \<le> c; j + h \<le> r\<rbrakk> \<Longrightarrow> reshapes (cv_roi cv i j w h) x h w ch"
  using assms unfolding cv_documented_def by meson+

section \<open>Rows\<close>

lemma those_Some: "those xs = Some ys \<longleftrightarrow> xs = map Some ys"
  by (induction xs arbitrary: ys) (auto split: option.splits simp: Cons_eq_map_conv)

lemma addr_plus_plus [simp]: "addr_plus (addr_plus a i) j = addr_plus a (i + j)"
  by (cases a) (auto simp: addr_plus_def)

lemma read_rows_append:
  assumes "read_rows m a step w n = Some xs" "read_rows m (addr_plus a (n * step)) step w k = Some ys"
  shows "read_rows m a step w (n + k) = Some (xs @ ys)"
proof -
  have "map (\<lambda>r. read_bytes m (addr_plus a (r * step)) w) [n..<n + k] =
      map (\<lambda>r. read_bytes m (addr_plus (addr_plus a (n * step)) (r * step)) w) [0..<k]"
    by (rule nth_equalityI) (simp_all add: algebra_simps)
  then show ?thesis
    using assms upt_add_eq_append [of 0 n k]
    by (simp add: read_rows_def those_Some)
qed

lemma read_rows_shape:
  assumes "read_rows m a step w n = Some xs"
  shows "length xs = n" "\<And>row. row \<in> set xs \<Longrightarrow> length row = w"
proof -
  have eq: "map (\<lambda>r. read_bytes m (addr_plus a (r * step)) w) [0..<n] = map Some xs"
    using assms by (simp add: read_rows_def those_Some)
  from arg_cong [OF eq, of length] show "length xs = n" by simp
  fix row assume "row \<in> set xs"
  then have "Some row \<in> set (map (\<lambda>r. read_bytes m (addr_plus a (r * step)) w) [0..<n])"
    by (simp only: eq) simp
  then show "length row = w" by (auto dest!: read_bytes_length sym [of "Some row"])
qed

lemma sint_small:
  assumes "unat (w :: u32) < 2 ^ 31"
  shows "sint w = int (unat w)"
proof -
  have "int (unat w) < int (2 ^ 31)" using assms by (simp only: of_nat_less_iff)
  then have "uint w < 2 ^ 31" by simp
  moreover have "- (2 ^ 31) \<le> uint w" by (rule order.trans [of _ 0]) simp_all
  ultimately have "signed_take_bit 31 (uint w) = uint w"
    by (intro signed_take_bit_int_eq_self) simp_all
  then show ?thesis by (simp add: sint_uint)
qed

lemma length_concat_same: "\<forall>row \<in> set xs. length row = n \<Longrightarrow> length (concat xs) = length xs * n"
  by (induction xs) auto

section \<open>Copying a matrix into a frame\<close>

lemma put_rows_region:
  assumes "\<forall>row \<in> set (mt_data x). length row = rb" "r + k = length (mt_data x)"
  shows "put_rows b rb x [r..<r + k]
      (m(b \<mapsto> concat (take r (mt_data x)) @ replicate (k * rb) 0)) =
    Some (m(b \<mapsto> concat (mt_data x)))"
  using assms(2)
proof (induction k arbitrary: r)
  case 0
  then show ?case by simp
next
  case (Suc k)
  let ?pre = "concat (take r (mt_data x))" and ?row = "mt_data x ! r"
  have row: "length ?row = rb" "r < length (mt_data x)" using Suc.prems assms(1) by auto
  have pre: "length ?pre = r * rb"
    using length_concat_same [of "take r (mt_data x)" rb] assms(1) row(2) by (auto dest: in_set_takeD)
  have next_pre: "concat (take (Suc r) (mt_data x)) = ?pre @ ?row"
    using row(2) by (simp add: take_Suc_conv_app_nth)
  have "write_bytes (m(b \<mapsto> ?pre @ replicate (Suc k * rb) 0)) b (r * rb) ?row =
      Some (m(b \<mapsto> (?pre @ ?row) @ replicate (k * rb) 0))"
    using write_bytes_region [of "m(b \<mapsto> ?pre @ replicate (Suc k * rb) 0)" b ?pre ?row "k * rb" "r * rb"]
      pre row by (simp add: add.commute)
  moreover have "[r..<r + Suc k] = r # [Suc r..<r + Suc k]"
    by (simp add: upt_conv_Cons del: upt_Suc)
  moreover have "put_rows b rb x [Suc r..<r + Suc k]
      (m(b \<mapsto> (?pre @ ?row) @ replicate (k * rb) 0)) = Some (m(b \<mapsto> concat (mt_data x)))"
    using Suc.IH [of "Suc r"] Suc.prems by (simp add: next_pre del: fun_upd_apply upt_Suc)
  ultimately show ?case using row by (simp del: fun_upd_apply upt_Suc)
qed

definition owned_frame :: "nat \<Rightarrow> mat \<Rightarrow> pixel_format \<Rightarrow> u64 \<Rightarrow> int \<Rightarrow> frame" where
  "owned_frame b x fmt fid t =
     \<lparr>fr_id = fid, fr_format = fmt, fr_memory = CPU,
      fr_geometry = \<lparr>fg_width = of_int (mt_cols x), fg_height = of_int (mt_rows x)\<rparr>,
      fr_planes = [\<lparr>fp_stride = of_nat (nat (mt_cols x) * mt_channels x), fp_data = Some (b, 0),
                    fp_size = nat (mt_rows x) * (nat (mt_cols x) * mt_channels x)\<rparr>],
      fr_captured_at = t, fr_owner = Some b\<rparr>"

lemma make_owned_frame_spec:
  assumes "mat_shape x r c ch" "0 < r" "r < 2 ^ 31" "0 < c" "c < 2 ^ 31"
  shows "make_owned_frame b m x fmt fid t = Some (owned_frame b x fmt fid t, m(b \<mapsto> concat (mt_data x)))"
proof -
  have u: "unat (of_int c :: u32) = nat c" "unat (of_int r :: u32) = nat r"
    using assms by (simp_all add: unat_eq_nat_uint uint_word_of_int)
  have rows: "length (mt_data x) = nat r" "\<forall>row \<in> set (mt_data x). length row = nat c * ch"
    and xs: "mt_rows x = r" "mt_cols x = c" "mt_channels x = ch"
    using assms(1) by (auto simp: mat_shape_def)
  have "put_rows b (nat c * ch) x [0..<nat r] (m(b \<mapsto> replicate (nat r * (nat c * ch)) 0)) =
      Some (m(b \<mapsto> concat (mt_data x)))"
    using put_rows_region [of x "nat c * ch" 0 "nat r" b m] rows by simp
  then show ?thesis using assms(2,4) u
    by (simp add: make_owned_frame_def owned_frame_def Let_def xs del: fun_upd_apply)
qed

section \<open>NV12 frames\<close>

text \<open>A usable NV12 frame: even positive size, two readable planes, and when the chroma plane
  follows the luma plane directly, a luma plane of exactly its rows.\<close>

definition nv12_ok :: "memory \<Rightarrow> frame \<Rightarrow> u8 list list \<Rightarrow> u8 list list \<Rightarrow> bool" where
  "nv12_ok m f ys uvs \<longleftrightarrow>
     fr_format f = NV12 \<and> fr_memory f = CPU \<and>
     (let w = fg_width (fr_geometry f); h = fg_height (fr_geometry f)
      in w mod 2 = 0 \<and> h mod 2 = 0 \<and> w \<noteq> 0 \<and> h \<noteq> 0 \<and> unat w < 2 ^ 30 \<and> unat h < 2 ^ 30 \<and>
         (case fr_planes f of
            [y, uv] \<Rightarrow>
              fp_data y \<noteq> None \<and> fp_data uv \<noteq> None \<and> unat w \<le> unat (fp_stride y) \<and>
              plane_rows m y (unat w) (unat h) = Some ys \<and>
              plane_rows m uv (unat w) (unat h div 2) = Some uvs \<and>
              (planes_contiguous w y uv \<longrightarrow> fp_size y = unat w * unat h)
          | _ \<Rightarrow> False))"

lemma wrap_nv12_image:
  assumes "nv12_ok m f ys uvs" "cv_documented cv"
    "cv_alloc cv (int (unat (fg_height (fr_geometry f)) + unat (fg_height (fr_geometry f)) div 2))
       (int (unat (fg_width (fr_geometry f))))"
  shows "wrap_nv12 cv m f =
    Got \<lparr>mt_rows = int (unat (fg_height (fr_geometry f)) + unat (fg_height (fr_geometry f)) div 2),
         mt_cols = int (unat (fg_width (fr_geometry f))), mt_channels = 1, mt_data = ys @ uvs\<rparr>"
proof -
  define w where "w = fg_width (fr_geometry f)"
  define h where "h = fg_height (fr_geometry f)"
  obtain y uv where p: "fr_planes f = [y, uv]"
    using assms(1) by (auto simp: nv12_ok_def Let_def split: list.splits)
  have k: "fr_format f = NV12" "w mod 2 = 0" "h mod 2 = 0" "w \<noteq> 0" "h \<noteq> 0"
    "unat w < 2 ^ 30" "unat h < 2 ^ 30" "fp_data y \<noteq> None" "fp_data uv \<noteq> None"
    "plane_rows m y (unat w) (unat h) = Some ys"
    "plane_rows m uv (unat w) (unat h div 2) = Some uvs"
    and size: "planes_contiguous w y uv \<Longrightarrow> fp_size y = unat w * unat h"
    using assms(1) p by (simp_all add: nv12_ok_def Let_def w_def h_def)
  let ?rows = "int (unat h + unat h div 2)"
  have s: "sint w = int (unat w)" "sint h = int (unat h)"
    using k(6,7) by (simp_all add: sint_small)
  have rows: "sint h + sint h div 2 = ?rows" by (simp add: s zdiv_int)
  have pos: "0 < unat w" "0 < unat h" using k(4,5) by (simp_all add: unat_gt_0)
  have "?rows < 2 ^ 31" using k(7) by (simp del: of_nat_add of_nat_unat)
  moreover have "0 \<le> ?rows" by (rule of_nat_0_le_iff)
  ultimately have range: "\<not> (?rows < - (2 ^ 31) \<or> 2 ^ 31 \<le> ?rows)" by linarith
  show ?thesis
  proof (cases "planes_contiguous w y uv")
    case True
    then have d: "fp_stride y = w" "fp_data uv = addr_plus (fp_data y) (unat h * unat w)"
      "fp_stride uv = w"
      using size by (auto simp: planes_contiguous_def mult.commute)
    have "read_rows m (fp_data y) (unat w) (unat w) (unat h + unat h div 2) = Some (ys @ uvs)"
      using k(10,11) d by (intro read_rows_append) (simp_all add: plane_rows_def)
    then have "cv_header cv m ?rows (int (unat w)) (fp_data y) (unat w) =
        Some \<lparr>mt_rows = ?rows, mt_cols = int (unat w), mt_channels = 1, mt_data = ys @ uvs\<rparr>"
      using pos by (intro cv_header_rows [OF assms(2)])
        (simp_all add: nat_add_distrib del: of_nat_add of_nat_unat)
    then show ?thesis
      using True k p s rows range d unfolding wrap_nv12_def Let_def w_def [symmetric] h_def [symmetric]
      by simp
  next
    case False
    then show ?thesis
      using k p s rows range assms(3)
      unfolding wrap_nv12_def Let_def w_def [symmetric] h_def [symmetric] by simp
  qed
qed

section \<open>Properties of the postprocessor\<close>

text \<open>The crop lies inside the frame, without wrap-around.\<close>

definition crop_inside :: "frame_geometry \<Rightarrow> crop_rect \<Rightarrow> bool" where
  "crop_inside g c \<longleftrightarrow>
     0 < unat (cr_width c) \<and> 0 < unat (cr_height c) \<and>
     unat (cr_x c) + unat (cr_width c) \<le> unat (fg_width g) \<and>
     unat (cr_y c) + unat (cr_height c) \<le> unat (fg_height g)"

fun output_channels :: "pixel_format \<Rightarrow> nat" where
  "output_channels GRAY8 = 1"
| "output_channels _ = 3"

definition output_ok :: "postprocess_config \<Rightarrow> bool" where
  "output_ok cfg \<longleftrightarrow>
     0 < unat (qc_width cfg) \<and> unat (qc_width cfg) < 2 ^ 30 \<and>
     0 < unat (qc_height cfg) \<and> unat (qc_height cfg) < 2 ^ 30 \<and>
     qc_format cfg \<in> {BGR8, RGB8, GRAY8}"

definition alloc_ok :: "cv_ops \<Rightarrow> frame \<Rightarrow> bool" where
  "alloc_ok cv f \<longleftrightarrow>
     cv_alloc cv (int (unat (fg_height (fr_geometry f)) + unat (fg_height (fr_geometry f)) div 2))
       (int (unat (fg_width (fr_geometry f))))"

lemma word_even_nat:
  assumes "(w :: u32) mod 2 = 0"
  shows "even (unat w)"
proof -
  have "unat (w mod 2) = unat w mod 2" by (simp add: unat_mod)
  then show ?thesis using assms by (simp add: even_iff_mod_2_eq_zero)
qed

lemma sint_nonneg:
  assumes "0 \<le> sint (x :: u32)"
  shows "unat x < 2 ^ 31"
proof -
  have "uint x = sint x mod 2 ^ 32" using uint_word_of_int [of "sint x", where 'a = 32] by simp
  moreover have "sint x < 2 ^ 31" using sint_lt [of x] by simp
  ultimately have "uint x < 2 ^ 31" using assms by simp
  then have "nat (uint x) < 2 ^ 31" by (simp add: nat_less_iff del: nat_uint_eq)
  then show ?thesis unfolding unat_eq_nat_uint .
qed

lemma crop_inside_accepted:
  assumes "crop_inside g c"
  shows "crop_accepted g c"
proof -
  have "unat (cr_x c + cr_width c) \<le> unat (cr_x c) + unat (cr_width c)"
    "unat (cr_y c + cr_height c) \<le> unat (cr_y c) + unat (cr_height c)"
    by (simp_all add: unat_word_ariths(1))
  then show ?thesis using assms
    by (auto simp: crop_inside_def crop_accepted_def word_less_nat_alt)
qed

text \<open>A sum that only passes the check by wrapping around has a summand that is negative as an
  int.\<close>

lemma wrapped_interval:
  assumes "unat (x + w) \<le> n" "n < unat x + unat (w :: u32)" "n < 2 ^ 30"
  shows "sint x < 0 \<or> sint w < 0"
proof (rule ccontr)
  assume "\<not> (sint x < 0 \<or> sint w < 0)"
  then have "unat x < 2 ^ 31" "unat w < 2 ^ 31" by (simp_all only: sint_nonneg not_less de_Morgan_disj)
  then have "unat (x + w) = unat x + unat w" by (simp add: unat_word_ariths(1))
  then show False using assms by simp
qed

definition nv12_image :: "frame \<Rightarrow> u8 list list \<Rightarrow> u8 list list \<Rightarrow> mat" where
  "nv12_image f ys uvs =
     \<lparr>mt_rows = int (unat (fg_height (fr_geometry f)) + unat (fg_height (fr_geometry f)) div 2),
      mt_cols = int (unat (fg_width (fr_geometry f))), mt_channels = 1, mt_data = ys @ uvs\<rparr>"

text \<open>The size of a usable frame as plain numbers.\<close>

lemma nv12_ok_facts:
  assumes "nv12_ok m f ys uvs"
  obtains y uv k where
    "fr_planes f = [y, uv]" "fr_format f = NV12" "fr_memory f = CPU"
    "unat (fg_height (fr_geometry f)) = 2 * k" "0 < k" "k < 2 ^ 29"
    "0 < unat (fg_width (fr_geometry f))" "unat (fg_width (fr_geometry f)) < 2 ^ 30"
    "even (unat (fg_width (fr_geometry f)))"
    "fg_width (fr_geometry f) \<noteq> 0" "fg_height (fr_geometry f) \<noteq> 0"
    "fg_width (fr_geometry f) mod 2 = 0" "fg_height (fr_geometry f) mod 2 = 0"
    "unat (fg_width (fr_geometry f)) \<le> unat (fp_stride y)"
    "plane_rows m y (unat (fg_width (fr_geometry f))) (2 * k) = Some ys"
    "plane_rows m uv (unat (fg_width (fr_geometry f))) k = Some uvs"
proof -
  define w where "w = fg_width (fr_geometry f)"
  define h where "h = fg_height (fr_geometry f)"
  obtain y uv where p: "fr_planes f = [y, uv]"
    using assms by (auto simp: nv12_ok_def Let_def split: list.splits)
  have k: "fr_format f = NV12" "fr_memory f = CPU" "w mod 2 = 0" "h mod 2 = 0" "w \<noteq> 0" "h \<noteq> 0"
    "unat w < 2 ^ 30" "unat h < 2 ^ 30" "unat w \<le> unat (fp_stride y)"
    "plane_rows m y (unat w) (unat h) = Some ys"
    "plane_rows m uv (unat w) (unat h div 2) = Some uvs"
    using assms p by (simp_all add: nv12_ok_def Let_def w_def h_def)
  obtain n where n: "unat h = 2 * n" using word_even_nat [OF k(4)] by blast
  have "0 < unat w" "0 < unat h" using k(5,6) by (simp_all add: unat_gt_0)
  then show thesis
    using that [of y uv n] p k n word_even_nat [OF k(3)] unfolding w_def h_def by simp
qed

lemma nv12_image_shape:
  assumes "nv12_ok m f ys uvs" "unat (fg_height (fr_geometry f)) = 2 * k"
  shows "mat_shape (nv12_image f ys uvs) (3 * int k) (int (unat (fg_width (fr_geometry f)))) 1"
proof -
  obtain y uv k' where "unat (fg_height (fr_geometry f)) = 2 * k'"
    "plane_rows m y (unat (fg_width (fr_geometry f))) (2 * k') = Some ys"
    "plane_rows m uv (unat (fg_width (fr_geometry f))) k' = Some uvs"
    using nv12_ok_facts [OF assms(1)] by metis
  then show ?thesis
    using assms(2) read_rows_shape
    by (auto simp: mat_shape_def nv12_image_def plane_rows_def)
qed

lemma wrap_nv12_ok:
  assumes "nv12_ok m f ys uvs" "cv_documented cv" "alloc_ok cv f"
  shows "wrap_nv12 cv m f = Got (nv12_image f ys uvs)"
  using wrap_nv12_image [OF assms(1,2)] assms(3) by (simp add: alloc_ok_def nv12_image_def)

lemma convert_output_shape:
  assumes "cv_documented cv" "mat_shape x r c 3" "0 < r" "0 < c" "fmt \<in> {BGR8, RGB8, GRAY8}"
  shows "\<exists>y. convert_output cv fmt x = Got y \<and> mat_shape y r c (output_channels fmt)"
  using cv_reshapes(3,4) [OF assms(1,3,4,2)] assms(2,5) by (auto simp: reshapes_def)

lemma sint_output:
  assumes "0 < unat (n :: u32)" "unat n < 2 ^ 30"
  shows "sint n = int (unat n)" "0 < int (unat n)" "int (unat n) < 2 ^ 31" "n \<noteq> 0"
proof -
  show "sint n = int (unat n)" using assms(2) by (simp add: sint_small)
  show "0 < int (unat n)" using assms(1) by (simp only: of_nat_0_less_iff)
  show "int (unat n) < 2 ^ 31" using assms(2) by (simp del: of_nat_unat)
  show "n \<noteq> 0" using assms(1) by auto
qed

text \<open>From the region on, the postprocessor succeeds.\<close>

lemma postprocess_tail:
  assumes "cv_documented cv" "output_ok cfg" "mat_shape roi r c 3" "0 < r" "0 < c"
  shows "\<exists>resized final.
    cv_resize_linear cv (sint (qc_width cfg)) (sint (qc_height cfg)) roi = Some resized \<and>
    convert_output cv (qc_format cfg) resized = Got final \<and>
    mat_shape final (int (unat (qc_height cfg))) (int (unat (qc_width cfg)))
      (output_channels (qc_format cfg)) \<and>
    make_owned_frame b m final (qc_format cfg) fid t =
      Some (owned_frame b final (qc_format cfg) fid t, m(b \<mapsto> concat (mt_data final)))"
proof -
  have q: "0 < unat (qc_width cfg)" "unat (qc_width cfg) < 2 ^ 30"
    "0 < unat (qc_height cfg)" "unat (qc_height cfg) < 2 ^ 30"
    and fmt: "qc_format cfg \<in> {BGR8, RGB8, GRAY8}"
    using assms(2) by (auto simp: output_ok_def)
  note w = sint_output [OF q(1,2)] and h = sint_output [OF q(3,4)]
  obtain resized where resized:
    "cv_resize_linear cv (int (unat (qc_width cfg))) (int (unat (qc_height cfg))) roi = Some resized"
    "mat_shape resized (int (unat (qc_height cfg))) (int (unat (qc_width cfg))) 3"
    using cv_reshapes(5) [OF assms(1,4,5) w(2) h(2) assms(3)] by (auto simp only: reshapes_def)
  obtain final where "convert_output cv (qc_format cfg) resized = Got final"
    and shape: "mat_shape final (int (unat (qc_height cfg))) (int (unat (qc_width cfg)))
      (output_channels (qc_format cfg))"
    using convert_output_shape [OF assms(1) resized(2) h(2) w(2) fmt] by blast
  moreover note make_owned_frame_spec [OF shape h(2,3) w(2,3), of b m "qc_format cfg" fid t]
  ultimately show ?thesis using resized(1) shape by (simp only: w(1) h(1)) blast
qed

lemma crop_wraps:
  assumes "crop_accepted g c" "\<not> crop_inside g c"
    "unat (fg_width g) < 2 ^ 30" "unat (fg_height g) < 2 ^ 30"
  shows "sint (cr_x c) < 0 \<or> sint (cr_width c) < 0 \<or> sint (cr_y c) < 0 \<or> sint (cr_height c) < 0"
proof -
  have acc: "cr_width c \<noteq> 0" "cr_height c \<noteq> 0"
    "unat (cr_x c + cr_width c) \<le> unat (fg_width g)"
    "unat (cr_y c + cr_height c) \<le> unat (fg_height g)"
    using assms(1) by (auto simp: crop_accepted_def word_less_nat_alt)
  then consider "unat (fg_width g) < unat (cr_x c) + unat (cr_width c)"
    | "unat (fg_height g) < unat (cr_y c) + unat (cr_height c)"
    using assms(2) by (auto simp: crop_inside_def unat_gt_0 not_le)
  then show ?thesis
    using wrapped_interval [OF acc(3) _ assms(3)] wrapped_interval [OF acc(4) _ assms(4)]
    by cases auto
qed

lemma crop_inside_rect:
  assumes "crop_inside g c" "unat (fg_width g) < 2 ^ 30" "unat (fg_height g) < 2 ^ 30"
  shows "0 \<le> sint (cr_x c)" "0 \<le> sint (cr_y c)" "0 < sint (cr_width c)" "0 < sint (cr_height c)"
    "sint (cr_x c) + sint (cr_width c) \<le> int (unat (fg_width g))"
    "sint (cr_y c) + sint (cr_height c) \<le> int (unat (fg_height g))"
proof -
  have u: "unat (cr_x c) < 2 ^ 31" "unat (cr_width c) < 2 ^ 31" "unat (cr_y c) < 2 ^ 31"
    "unat (cr_height c) < 2 ^ 31"
    using assms by (simp_all add: crop_inside_def)
  note s = u [THEN sint_small]
  show "0 \<le> sint (cr_x c)" "0 \<le> sint (cr_y c)" by (simp_all add: s)
  show "0 < sint (cr_width c)" "0 < sint (cr_height c)"
    using assms(1) unfolding s by (simp_all add: crop_inside_def del: of_nat_unat)
  show "sint (cr_x c) + sint (cr_width c) \<le> int (unat (fg_width g))"
    "sint (cr_y c) + sint (cr_height c) \<le> int (unat (fg_height g))"
    using assms(1) unfolding s crop_inside_def by linarith+
qed

text \<open>The picture the crop is taken from, and what is left of the postprocessor once it is there.\<close>

lemma picture_converted:
  assumes "cv_documented cv" "nv12_ok m src ys uvs"
  obtains bgr where "cv_nv12_to_bgr cv (nv12_image src ys uvs) = Some bgr"
    "mat_shape bgr (int (unat (fg_height (fr_geometry src)))) (int (unat (fg_width (fr_geometry src)))) 3"
    "0 < int (unat (fg_height (fr_geometry src)))" "0 < int (unat (fg_width (fr_geometry src)))"
proof -
  let ?g = "fr_geometry src"
  obtain y uv k where f: "unat (fg_height ?g) = 2 * k" "0 < k" "0 < unat (fg_width ?g)" "even (unat (fg_width ?g))"
    using nv12_ok_facts [OF assms(2)] by metis
  let ?w = "int (unat (fg_width ?g))"
  have w: "0 < ?w" "even ?w" and h: "0 < int k" using f(2-4) by (simp_all del: of_nat_unat)
  obtain bgr where "cv_nv12_to_bgr cv (nv12_image src ys uvs) = Some bgr" "mat_shape bgr (2 * int k) ?w 3"
    using cv_reshapes(1) [OF assms(1) h w nv12_image_shape [OF assms(2) f(1)]] by (auto simp only: reshapes_def)
  then show thesis using that f(1,2) w(1) by (simp del: of_nat_unat)
qed

lemma postprocess_run:
  assumes "cv_documented cv" "nv12_ok m src ys uvs" "alloc_ok cv src" "output_ok cfg"
    and "cv_nv12_to_bgr cv (nv12_image src ys uvs) = Some bgr"
  shows "postprocess cv cfg b m src c =
      (if crop_accepted (fr_geometry src) c
       then or_crash (cv_roi cv (sint (cr_x c)) (sint (cr_y c)) (sint (cr_width c))
              (sint (cr_height c)) bgr) (\<lambda>roi.
            or_crash (cv_resize_linear cv (sint (qc_width cfg)) (sint (qc_height cfg)) roi) (\<lambda>resized.
            on_value (convert_output cv (qc_format cfg) resized) (\<lambda>final.
            or_crash (make_owned_frame b m final (qc_format cfg) (fr_id src) (fr_captured_at src))
              Got)))
       else Nothing)"
proof -
  obtain y uv k where f: "fr_planes src = [y, uv]" "fr_format src = NV12" "fr_memory src = CPU"
    "fg_width (fr_geometry src) \<noteq> 0" "fg_height (fr_geometry src) \<noteq> 0"
    using nv12_ok_facts [OF assms(2)] by metis
  have "qc_width cfg \<noteq> 0" "qc_height cfg \<noteq> 0" "qc_format cfg \<in> {BGR8, RGB8, GRAY8}"
    using assms(4) by (auto simp: output_ok_def)
  then show ?thesis using f(2-5) assms(5) wrap_nv12_ok [OF assms(2,1,3)] by (auto simp: postprocess_def)
qed

lemma postprocess_spec:
  assumes "cv_documented cv" "nv12_ok m src ys uvs" "alloc_ok cv src" "output_ok cfg"
  shows "\<exists>bgr. cv_nv12_to_bgr cv (nv12_image src ys uvs) = Some bgr \<and>
    (if crop_inside (fr_geometry src) c
     then \<exists>roi resized final.
       cv_roi cv (sint (cr_x c)) (sint (cr_y c)) (sint (cr_width c)) (sint (cr_height c)) bgr =
         Some roi \<and>
       cv_resize_linear cv (sint (qc_width cfg)) (sint (qc_height cfg)) roi = Some resized \<and>
       convert_output cv (qc_format cfg) resized = Got final \<and>
       mat_shape final (int (unat (qc_height cfg))) (int (unat (qc_width cfg)))
         (output_channels (qc_format cfg)) \<and>
       postprocess cv cfg b m src c =
         Got (owned_frame b final (qc_format cfg) (fr_id src) (fr_captured_at src),
              m(b \<mapsto> concat (mt_data final)))
     else postprocess cv cfg b m src c =
       (if crop_accepted (fr_geometry src) c then Crash else Nothing))"
proof -
  let ?g = "fr_geometry src"
  have lt: "unat (fg_width ?g) < 2 ^ 30" "unat (fg_height ?g) < 2 ^ 30"
    using assms(2) by (simp_all add: nv12_ok_def Let_def)
  obtain bgr where bgr: "cv_nv12_to_bgr cv (nv12_image src ys uvs) = Some bgr"
    "mat_shape bgr (int (unat (fg_height ?g))) (int (unat (fg_width ?g))) 3"
    and pos: "0 < int (unat (fg_height ?g))" "0 < int (unat (fg_width ?g))"
    by (rule picture_converted [OF assms(1,2)])
  note run = postprocess_run [OF assms bgr(1), of b c]
  show ?thesis
  proof (cases "crop_inside ?g c")
    case True
    note r = crop_inside_rect [OF True lt]
    obtain roi where roi: "cv_roi cv (sint (cr_x c)) (sint (cr_y c)) (sint (cr_width c))
        (sint (cr_height c)) bgr = Some roi"
      "mat_shape roi (sint (cr_height c)) (sint (cr_width c)) 3"
      using cv_reshapes(8) [OF assms(1) pos bgr(2), of "sint (cr_x c)" "sint (cr_y c)"
          "sint (cr_width c)" "sint (cr_height c)"] r by (auto simp only: reshapes_def less_imp_le)
    show ?thesis
      using postprocess_tail [OF assms(1,4) roi(2) r(4,3), of b m "fr_id src" "fr_captured_at src"]
        roi(1) run crop_inside_accepted [OF True] True bgr(1) by (auto simp del: fun_upd_apply)
  next
    case False
    have "cv_roi cv (sint (cr_x c)) (sint (cr_y c)) (sint (cr_width c)) (sint (cr_height c)) bgr =
        None" if "crop_accepted ?g c"
      using crop_wraps [OF that False lt] cv_roi_outside [OF assms(1) bgr(2) pos]
      by (meson not_le)
    then show ?thesis using False bgr(1) run by auto
  qed
qed

text \<open>C33: The postprocessor on a usable NV12 frame: a crop inside the frame gives the frame of the
  configured size and format that owns exactly the bytes of the cropped, resized and converted
  image; a crop the bounds check refuses gives nothing; a crop that passes the check only because
  x + width or y + height wraps around 2 to the 32 ends in an exception of OpenCV.\<close>

theorem postprocess_crop:
  assumes "cv_documented cv" "nv12_ok m src ys uvs" "alloc_ok cv src" "output_ok cfg"
  shows "\<exists>bgr. cv_nv12_to_bgr cv (nv12_image src ys uvs) = Some bgr \<and>
    (if crop_inside (fr_geometry src) c
     then \<exists>roi resized final.
       cv_roi cv (sint (cr_x c)) (sint (cr_y c)) (sint (cr_width c)) (sint (cr_height c)) bgr =
         Some roi \<and>
       cv_resize_linear cv (sint (qc_width cfg)) (sint (qc_height cfg)) roi = Some resized \<and>
       convert_output cv (qc_format cfg) resized = Got final \<and>
       mat_shape final (int (unat (qc_height cfg))) (int (unat (qc_width cfg)))
         (output_channels (qc_format cfg)) \<and>
       postprocess cv cfg b m src c =
         Got (owned_frame b final (qc_format cfg) (fr_id src) (fr_captured_at src),
              m(b \<mapsto> concat (mt_data final)))
     else postprocess cv cfg b m src c =
       (if crop_accepted (fr_geometry src) c then Crash else Nothing))"
  using assms by (rule postprocess_spec)

section \<open>Properties of the preprocessor\<close>

definition ai_format :: "color_mode \<Rightarrow> pixel_format" where
  "ai_format mode = (if mode = RGB then RGB8 else GRAY8)"

text \<open>The luma plane as one channel.\<close>

lemma luma_header_full:
  assumes "cv_documented cv" "nv12_ok m raw ys uvs" "fr_planes raw = [y, uv]"
  shows "\<exists>full. luma_header cv m raw y = Some full \<and>
    mat_shape full (int (unat (fg_height (fr_geometry raw)))) (int (unat (fg_width (fr_geometry raw)))) 1"
proof -
  let ?g = "fr_geometry raw"
  obtain k where f: "unat (fg_height ?g) = 2 * k" "0 < k" "k < 2 ^ 29" "0 < unat (fg_width ?g)"
    "unat (fg_width ?g) < 2 ^ 30" "unat (fg_width ?g) \<le> unat (fp_stride y)"
    "plane_rows m y (unat (fg_width ?g)) (2 * k) = Some ys"
    using nv12_ok_facts [OF assms(2)] assms(3) by (metis list.inject)
  let ?w = "int (unat (fg_width ?g))" and ?h = "2 * int k"
  have w: "0 < ?w" and h: "0 < ?h" using f(2,4) by (simp_all del: of_nat_unat)
  have hs: "sint (fg_height ?g) = ?h" using f(1,3) sint_small [of "fg_height ?g"] by (simp del: of_nat_unat)
  have ws: "sint (fg_width ?g) = ?w" using f(5) by (simp add: sint_small)
  let ?full = "\<lparr>mt_rows = ?h, mt_cols = ?w, mt_channels = 1, mt_data = ys\<rparr>"
  have hk: "nat ?h = 2 * k" by simp
  have "luma_header cv m raw y = Some ?full"
    unfolding luma_header_def hs ws
    using f(6,7) w h hk
    by (intro cv_header_rows [OF assms(1)]) (simp_all add: plane_rows_def del: of_nat_unat)
  moreover have "mat_shape ?full ?h ?w 1"
    using read_rows_shape f(7) hk by (auto simp: mat_shape_def plane_rows_def simp del: of_nat_unat)
  ultimately show ?thesis using f(1) by (auto simp del: of_nat_unat)
qed

text \<open>The image for the AI in each colour mode.\<close>

lemma ai_image_spec:
  assumes "cv_documented cv" "nv12_ok m raw ys uvs" "alloc_ok cv raw"
    "0 < unat (pc_ai_width cfg)" "unat (pc_ai_width cfg) < 2 ^ 30"
    "0 < unat (pc_ai_height cfg)" "unat (pc_ai_height cfg) < 2 ^ 30"
    "fr_planes raw = [y, uv]"
  shows "\<exists>x. ai_image cv cfg m raw y = Got (x, ai_format (pc_color_mode cfg)) \<and>
    mat_shape x (int (unat (pc_ai_height cfg))) (int (unat (pc_ai_width cfg)))
      (output_channels (ai_format (pc_color_mode cfg)))"
proof -
  let ?g = "fr_geometry raw"
  obtain k where f: "unat (fg_height ?g) = 2 * k" "0 < k" "0 < unat (fg_width ?g)"
    "even (unat (fg_width ?g))"
    using nv12_ok_facts [OF assms(2)] by metis
  let ?w = "int (unat (fg_width ?g))" and ?h = "int (unat (fg_height ?g))"
  note aw = sint_output [OF assms(4,5)] and ah = sint_output [OF assms(6,7)]
  have w: "0 < ?w" "even ?w" and h: "0 < int k" "0 < ?h" using f by (simp_all del: of_nat_unat)
  obtain full where luma: "luma_header cv m raw y = Some full" and full: "mat_shape full ?h ?w 1"
    using luma_header_full [OF assms(1,2,8)] by auto
  show ?thesis
  proof (cases "pc_color_mode cfg")
    case Grayscale
    then show ?thesis
      using luma cv_reshapes(6) [OF assms(1) h(2) w(1) aw(2) ah(2) full]
      by (auto simp: ai_image_def ai_format_def reshapes_def aw(1) ah(1) simp del: of_nat_unat)
  next
    case Binary
    obtain r where r: "cv_resize_area cv (int (unat (pc_ai_width cfg))) (int (unat (pc_ai_height cfg)))
        full = Some r"
      "mat_shape r (int (unat (pc_ai_height cfg))) (int (unat (pc_ai_width cfg))) 1"
      using cv_reshapes(6) [OF assms(1) h(2) w(1) aw(2) ah(2) full] by (auto simp only: reshapes_def)
    show ?thesis
      using Binary luma r(1)
        cv_reshapes(7) [OF assms(1) ah(2) aw(2) r(2), of "unat (pc_threshold cfg)" kBinaryMaxValue]
      by (auto simp: ai_image_def ai_format_def reshapes_def aw(1) ah(1) simp del: of_nat_unat)
  next
    case RGB
    obtain r where r: "cv_nv12_to_rgb cv (nv12_image raw ys uvs) = Some r" "mat_shape r ?h ?w 3"
      using cv_reshapes(2) [OF assms(1) h(1) w nv12_image_shape [OF assms(2) f(1)]] f(1)
      by (auto simp: reshapes_def simp del: of_nat_unat)
    show ?thesis
      using RGB r(1) wrap_nv12_ok [OF assms(2,1,3)]
        cv_reshapes(6) [OF assms(1) h(2) w(1) aw(2) ah(2) r(2)]
      by (auto simp: ai_image_def ai_format_def reshapes_def aw(1) ah(1) simp del: of_nat_unat)
  qed
qed

text \<open>The preprocessor turns every usable NV12 frame into a bundle: the source frame unchanged,
  with its owner, and an image for the AI of the configured size in the format of the colour
  mode that owns its bytes; both carry the number and the time of the source.\<close>

lemma preprocess_spec:
  assumes "cv_documented cv" "nv12_ok m raw ys uvs" "alloc_ok cv raw"
    "0 < unat (pc_ai_width cfg)" "unat (pc_ai_width cfg) < 2 ^ 30"
    "0 < unat (pc_ai_height cfg)" "unat (pc_ai_height cfg) < 2 ^ 30"
  shows "\<exists>x. mat_shape x (int (unat (pc_ai_height cfg))) (int (unat (pc_ai_width cfg)))
        (output_channels (ai_format (pc_color_mode cfg))) \<and>
      preprocess cv cfg b m raw =
        Got (\<lparr>fb_source = raw,
              fb_ai = owned_frame b x (ai_format (pc_color_mode cfg)) (fr_id raw)
                        (fr_captured_at raw)\<rparr>,
             m(b \<mapsto> concat (mt_data x)))"
proof -
  let ?g = "fr_geometry raw"
  obtain y uv where f: "fr_planes raw = [y, uv]" "fr_format raw = NV12" "fr_memory raw = CPU"
    "fg_width ?g \<noteq> 0" "fg_height ?g \<noteq> 0" "fg_width ?g mod 2 = 0" "fg_height ?g mod 2 = 0"
    using nv12_ok_facts [OF assms(2)] by metis
  note aw = sint_output [OF assms(4,5)] and ah = sint_output [OF assms(6,7)]
  obtain x where x: "ai_image cv cfg m raw y = Got (x, ai_format (pc_color_mode cfg))"
    "mat_shape x (int (unat (pc_ai_height cfg))) (int (unat (pc_ai_width cfg)))
       (output_channels (ai_format (pc_color_mode cfg)))"
    using ai_image_spec [OF assms f(1)] by blast
  have "preprocess cv cfg b m raw =
      or_crash (make_owned_frame b m x (ai_format (pc_color_mode cfg)) (fr_id raw)
        (fr_captured_at raw)) (\<lambda>(ai, m1). Got (\<lparr>fb_source = raw, fb_ai = ai\<rparr>, m1))"
    using f aw(4) ah(4) x(1) by (simp add: preprocess_def Let_def)
  then show ?thesis
    using make_owned_frame_spec [OF x(2) ah(2,3) aw(2,3), of b m] x(2)
    by (auto simp del: fun_upd_apply of_nat_unat)
qed

section \<open>A small OpenCV\<close>

text \<open>Grey colour conversions and nearest-neighbour scaling, enough to satisfy what OpenCV
  documents.\<close>

definition small_header :: "memory \<Rightarrow> int \<Rightarrow> int \<Rightarrow> address \<Rightarrow> nat \<Rightarrow> mat option" where
  "small_header m rows cols a step =
     map_option (\<lambda>xss. \<lparr>mt_rows = rows, mt_cols = cols, mt_channels = 1, mt_data = xss\<rparr>)
       (read_rows m a step (nat cols) (nat rows))"

definition small_from_nv12 :: "mat \<Rightarrow> mat option" where
  "small_from_nv12 x =
     Some \<lparr>mt_rows = 2 * (mt_rows x div 3), mt_cols = mt_cols x, mt_channels = 3,
           mt_data = map (\<lambda>row. concat (map (\<lambda>v. [v, v, v]) row))
                       (take (nat (2 * (mt_rows x div 3))) (mt_data x))\<rparr>"

definition small_to_gray :: "mat \<Rightarrow> mat option" where
  "small_to_gray x =
     Some \<lparr>mt_rows = mt_rows x, mt_cols = mt_cols x, mt_channels = 1,
           mt_data = map (take (nat (mt_cols x))) (mt_data x)\<rparr>"

definition small_roi :: "int \<Rightarrow> int \<Rightarrow> int \<Rightarrow> int \<Rightarrow> mat \<Rightarrow> mat option" where
  "small_roi i j w h x =
     (if 0 \<le> i \<and> 0 \<le> j \<and> 0 \<le> w \<and> 0 \<le> h \<and> i + w \<le> mt_cols x \<and> j + h \<le> mt_rows x
      then Some \<lparr>mt_rows = h, mt_cols = w, mt_channels = mt_channels x,
                 mt_data = map (\<lambda>row. take (nat w * mt_channels x) (drop (nat i * mt_channels x) row))
                             (take (nat h) (drop (nat j) (mt_data x)))\<rparr>
      else None)"

definition small_resize :: "int \<Rightarrow> int \<Rightarrow> mat \<Rightarrow> mat option" where
  "small_resize w h x =
     Some \<lparr>mt_rows = h, mt_cols = w, mt_channels = mt_channels x,
           mt_data = map (\<lambda>j. let row = mt_data x ! (j * nat (mt_rows x) div nat h)
                              in map (\<lambda>k. row ! (k mod length row)) [0..<nat w * mt_channels x])
                       [0..<nat h]\<rparr>"

definition small_cv :: cv_ops where
  "small_cv =
     \<lparr>cv_header = small_header, cv_alloc = \<lambda>r c. 0 \<le> r \<and> 0 \<le> c,
      cv_nv12_to_bgr = small_from_nv12, cv_nv12_to_rgb = small_from_nv12, cv_bgr_to_rgb = Some,
      cv_bgr_to_gray = small_to_gray, cv_roi = small_roi, cv_resize_linear = small_resize,
      cv_resize_area = small_resize, cv_threshold = \<lambda>t v. Some\<rparr>"

lemma concat_triples: "length (concat (map (\<lambda>v. [v, v, v]) row)) = length row * 3"
  by (induction row) simp_all

lemma small_shapes:
  "\<lbrakk>0 < r; mat_shape x (3 * r) c 1\<rbrakk> \<Longrightarrow> reshapes small_from_nv12 x (2 * r) c 3"
  "\<lbrakk>0 < c; mat_shape x r c 3\<rbrakk> \<Longrightarrow> reshapes small_to_gray x r c 1"
  "mat_shape x r c ch \<Longrightarrow> reshapes (small_resize w h) x h w ch"
  "mat_shape x r c ch \<Longrightarrow> reshapes Some x r c ch"
  by (auto simp: reshapes_def mat_shape_def small_from_nv12_def small_to_gray_def small_resize_def
      Let_def concat_triples dest!: in_set_takeD)

lemma small_roi_shape:
  assumes "mat_shape x r c ch"
  shows "if 0 \<le> i \<and> 0 \<le> j \<and> 0 \<le> w \<and> 0 \<le> h \<and> i + w \<le> c \<and> j + h \<le> r
    then reshapes (small_roi i j w h) x h w ch else small_roi i j w h x = None"
proof -
  have "nat c = nat i + nat w + nat (c - i - w) \<and> nat r = nat j + nat h + nat (r - j - h)"
    if "0 \<le> i" "0 \<le> j" "0 \<le> w" "0 \<le> h" "i + w \<le> c" "j + h \<le> r"
    using that by (simp add: nat_add_distrib [symmetric])
  then show ?thesis using assms
    by (auto simp: reshapes_def mat_shape_def small_roi_def add_mult_distrib
        dest!: in_set_takeD in_set_dropD)
qed

lemma small_cv_documented: "cv_documented small_cv"
  unfolding cv_documented_def small_cv_def cv_ops.select_convs
  by (intro conjI allI impI; elim conjE; (rule small_roi_shape | rule small_shapes | simp add: small_header_def); assumption?)

definition small_nv12 :: frame where
  "small_nv12 =
     \<lparr>fr_id = 3, fr_format = NV12, fr_memory = CPU, fr_geometry = \<lparr>fg_width = 2, fg_height = 2\<rparr>,
      fr_planes = [\<lparr>fp_stride = 2, fp_data = Some (0, 0), fp_size = 4\<rparr>,
                   \<lparr>fp_stride = 2, fp_data = Some (0, 4), fp_size = 2\<rparr>],
      fr_captured_at = 9, fr_owner = Some 0\<rparr>"

definition small_memory :: memory where
  "small_memory = [0 \<mapsto> [10, 20, 30, 40, 50, 60]]"

lemma small_nv12_ok: "nv12_ok small_memory small_nv12 [[10, 20], [30, 40]] [[50, 60]]"
  by (simp add: nv12_ok_def small_nv12_def small_memory_def plane_rows_def read_rows_def
      read_bytes_def addr_plus_def planes_contiguous_def upt_rec)

text \<open>A crop of the second column with a width that wraps.\<close>

theorem postprocess_crop_witness:
  "postprocess small_cv default_postprocess_config 1 small_memory small_nv12
     \<lparr>cr_x = 4294967295, cr_y = 0, cr_width = 2, cr_height = 2\<rparr> = Crash"
proof -
  have "alloc_ok small_cv small_nv12" "output_ok default_postprocess_config"
    by (simp_all add: alloc_ok_def small_cv_def output_ok_def default_postprocess_config_def)
  from postprocess_crop [OF small_cv_documented small_nv12_ok this, of
      "\<lparr>cr_x = 4294967295, cr_y = 0, cr_width = 2, cr_height = 2\<rparr>" 1]
  show ?thesis
    by (simp add: crop_inside_def crop_accepted_def small_nv12_def)
qed

lemma preprocess_small:
  "\<exists>x. mat_shape x 640 640 1 \<and>
     preprocess small_cv default_preprocess_config 1 small_memory small_nv12 =
       Got (\<lparr>fb_source = small_nv12, fb_ai = owned_frame 1 x GRAY8 3 9\<rparr>,
            small_memory(1 \<mapsto> concat (mt_data x)))"
proof -
  have "alloc_ok small_cv small_nv12" by (simp add: alloc_ok_def small_cv_def)
  from preprocess_spec [OF small_cv_documented small_nv12_ok this,
      of default_preprocess_config 1]
  show ?thesis
    by (simp add: default_preprocess_config_def ai_format_def small_nv12_def)
qed

text \<open>Adjacency of the planes is taken for a tight luma plane.  With a luma plane that is one row
  longer than the picture the header shows the padding as the first row of chroma.\<close>

definition padded_nv12 :: frame where
  "padded_nv12 = small_nv12\<lparr>fr_planes := [\<lparr>fp_stride = 2, fp_data = Some (0, 0), fp_size = 6\<rparr>,
                                           \<lparr>fp_stride = 2, fp_data = Some (0, 6), fp_size = 2\<rparr>]\<rparr>"

lemma wrap_padded_luma:
  "wrap_nv12 small_cv [0 \<mapsto> [10, 20, 30, 40, 0, 0, 50, 60]] padded_nv12 =
     Got \<lparr>mt_rows = 3, mt_cols = 2, mt_channels = 1, mt_data = [[10, 20], [30, 40], [0, 0]]\<rparr>"
  by code_simp

end
