(* ===== verification/Capture.thy ===== *)
theory Capture
  imports Frames Config
begin

text \<open>
  The GStreamer camera \<^verbatim>\<open>adapters/capture/frame/gstreamer/gstreamer.cpp\<close> with the capture models and
  the ports of \<^verbatim>\<open>app/capture/ports\<close>.

  What GStreamer answers is an argument: whether the pipeline comes up, the messages waiting on
  the bus, the samples waiting in the appsink.  A sample is its caps, its buffer and the mapping
  of the buffer.  The references taken and released on the buffer are recorded as a list of
  calls, because the frame that is handed out keeps the buffer alive.
\<close>

section \<open>Data\<close>

datatype audio_format = AudioUnknown | S16 | S32 | F32

record audio_spec =
  as_sample_rate :: u32
  as_channels :: u32
  as_format :: audio_format

record audio =
  au_id :: u64
  au_spec :: audio_spec
  au_sample_count :: u32
  au_data :: address
  au_size :: nat
  au_captured_at :: int
  au_owner :: "nat option"

datatype white_balance = WbAuto | WbManual
datatype camera_focus = FocusAuto | FocusManual

record 'f camera_config =
  cc_exposure :: i32
  cc_gain :: 'f
  cc_white_balance :: white_balance
  cc_focus :: camera_focus
  cc_width :: i32
  cc_height :: i32
  cc_format :: pixel_format
  cc_fps :: i32

definition default_camera_config :: "'f \<Rightarrow> 'f camera_config" where
  "default_camera_config gain =
     \<lparr>cc_exposure = 100, cc_gain = gain, cc_white_balance = WbAuto, cc_focus = FocusAuto,
      cc_width = 1920, cc_height = 1080, cc_format = NV12, cc_fps = 60\<rparr>"

section \<open>GStreamer's side\<close>

datatype gst_video_format =
  FMT_BGR | FMT_BGRA | FMT_NV12 | FMT_I420 | FMT_YUY2 | FMT_RGB | FMT_RGBA | FMT_GRAY8 | FMT_OTHER

record video_info =
  vi_format :: gst_video_format
  vi_width :: i32
  vi_height :: i32
  vi_planes :: "(i32 \<times> nat) list"

text \<open>A null caps or buffer pointer is None or False; unreadable caps are \<^verbatim>\<open>Some None\<close>; a buffer that
  cannot be mapped has no mapping.\<close>

record gst_sample =
  gs_caps :: "video_info option option"
  gs_buffer :: bool
  gs_map :: "(address \<times> nat) option"

datatype bus_message = BusError | BusEos | BusOther

datatype buffer_call = BufferRef | BufferUnref | BufferMap | BufferUnmap

text \<open>What one start of a pipeline meets: a parse error, a pipeline, its bus, the appsink, the
  change to PLAYING, and the sample of the first two seconds.\<close>

record gst_start =
  go_parse_error :: bool
  go_pipeline :: bool
  go_bus :: bool
  go_sink :: bool
  go_playing :: bool
  go_prime :: "gst_sample option"
  go_time :: int

section \<open>State\<close>

record 'f camera =
  cam_config :: "'f camera_config"
  cam_model :: string
  cam_index :: "16 word"
  cam_counter :: u64
  cam_running :: bool
  cam_pipeline_str :: string
  cam_pipeline :: bool
  cam_bus :: bool
  cam_err :: bool
  cam_sink :: bool
  cam_last :: "frame option"

definition camera_new :: "'f camera_config \<Rightarrow> string \<Rightarrow> 16 word \<Rightarrow> 'f camera" where
  "camera_new cfg model index =
     \<lparr>cam_config = cfg, cam_model = model, cam_index = index, cam_counter = 0, cam_running = False,
      cam_pipeline_str = [], cam_pipeline = False, cam_bus = False, cam_err = False,
      cam_sink = False, cam_last = None\<rparr>"

definition gst_sink_name :: string where "gst_sink_name = ''sink''"

definition show_i32 :: "i32 \<Rightarrow> string" where
  "show_i32 n = (if sint n < 0 then CHR ''-'' # show_nat (nat (- sint n)) else show_nat (nat (sint n)))"

definition create_pipeline :: "'f camera \<Rightarrow> string" where
  "create_pipeline c =
     (case parse_model_version (cam_model c) of
        None \<Rightarrow> []
      | Some v \<Rightarrow>
          if v = 1
          then ''nvarguscamerasrc sensor-id='' @ show_nat (unat (cam_index c)) @
               '' ! video/x-raw(memory:NVMM),width='' @ show_i32 (cc_width (cam_config c)) @
               '',height='' @ show_i32 (cc_height (cam_config c)) @
               '',framerate='' @ show_i32 (cc_fps (cam_config c)) @ ''/1,format=NV12'' @
               '' ! nvvidconv'' @ '' ! video/x-raw,format='' @
               pixel_format_to_string (cc_format (cam_config c)) @
               '' ! appsink name='' @ gst_sink_name @ '' sync=false''
          else [])"

definition cleanup_pipeline :: "'f camera \<Rightarrow> 'f camera" where
  "cleanup_pipeline c =
     c\<lparr>cam_sink := False, cam_bus := False, cam_pipeline := False, cam_err := False\<rparr>"

section \<open>Frames from samples\<close>

text \<open>The end of a plane: the smallest plane offset behind its own, or the end of the mapping.\<close>

definition plane_end :: "nat list \<Rightarrow> nat \<Rightarrow> nat \<Rightarrow> nat" where
  "plane_end offsets off mapped =
     fold (\<lambda>o' cur. if off < o' \<and> o' < cur then o' else cur) offsets mapped"

fun sample_planes ::
  "nat list \<Rightarrow> address \<Rightarrow> nat \<Rightarrow> (i32 \<times> nat) list \<Rightarrow> frame_plane list option" where
  "sample_planes offsets base mapped [] = Some []"
| "sample_planes offsets base mapped ((stride, off) # ps) =
     (if mapped \<le> off then None
      else
        let cur = plane_end offsets off mapped
        in if cur \<le> off then None
           else
             let sz = cur - off
             in if sz = 0 \<or> mapped < off + sz then None
                else
                  (case sample_planes offsets base mapped ps of
                     None \<Rightarrow> None
                   | Some qs \<Rightarrow>
                       Some (\<lparr>fp_stride = stride, fp_data = map_option (\<lambda>(b, k). (b, k + off)) base,
                              fp_size = sz\<rparr> # qs)))"

fun frame_format_of :: "gst_video_format \<Rightarrow> pixel_format option" where
  "frame_format_of FMT_BGR = Some BGR8"
| "frame_format_of FMT_BGRA = Some BGRA8"
| "frame_format_of FMT_NV12 = Some NV12"
| "frame_format_of FMT_I420 = Some I420"
| "frame_format_of FMT_YUY2 = Some YUYV"
| "frame_format_of FMT_RGB = Some RGB8"
| "frame_format_of FMT_RGBA = Some RGBA8"
| "frame_format_of FMT_GRAY8 = Some GRAY8"
| "frame_format_of FMT_OTHER = None"

definition give_back :: "buffer_call list" where
  "give_back = [BufferRef, BufferMap, BufferUnmap, BufferUnref]"

text \<open>The frame or nothing, the calls on the buffer, and the frame counter.  The owner of the frame
  is the block the buffer is mapped at.\<close>

definition create_frame ::
  "int \<Rightarrow> gst_sample option \<Rightarrow> u64 \<Rightarrow> frame option \<times> buffer_call list \<times> u64" where
  "create_frame now sample counter =
     (case sample of
        None \<Rightarrow> (None, [], counter)
      | Some s \<Rightarrow>
          (case gs_caps s of
             None \<Rightarrow> (None, [], counter)
           | Some caps \<Rightarrow>
               if \<not> gs_buffer s then (None, [], counter)
               else
                 (case caps of
                    None \<Rightarrow> (None, [], counter)
                  | Some info \<Rightarrow>
                      (case gs_map s of
                         None \<Rightarrow> (None, [BufferRef, BufferUnref], counter)
                       | Some (base, mapped) \<Rightarrow>
                           if vi_planes info = [] then (None, give_back, counter)
                           else if base = None \<or> mapped = 0 then (None, give_back, counter)
                           else
                             (case sample_planes (map snd (vi_planes info)) base mapped
                                     (vi_planes info) of
                                None \<Rightarrow> (None, give_back, counter)
                              | Some planes \<Rightarrow>
                                  (case frame_format_of (vi_format info) of
                                     None \<Rightarrow> (None, give_back, counter + 1)
                                   | Some fmt \<Rightarrow>
                                       (Some \<lparr>fr_id = counter, fr_format = fmt, fr_memory = CPU,
                                              fr_geometry = \<lparr>fg_width = vi_width info,
                                                             fg_height = vi_height info\<rparr>,
                                              fr_planes = planes, fr_captured_at = now,
                                              fr_owner = map_option fst base\<rparr>,
                                        [BufferRef, BufferMap], counter + 1)))))))"

section \<open>Operations\<close>

text \<open>Set to NULL, then release everything.\<close>

definition camera_stop :: "'f camera \<Rightarrow> 'f camera" where
  "camera_stop c = (cleanup_pipeline c)\<lparr>cam_last := None, cam_running := False\<rparr>"

definition camera_start :: "gst_start \<Rightarrow> 'f camera \<Rightarrow> 'f camera" where
  "camera_start g c =
     (if cam_running c then c
      else
        let str = create_pipeline c; c1 = c\<lparr>cam_pipeline_str := str\<rparr>
        in if str = [] then c1
           else
             let c2 = c1\<lparr>cam_err := go_parse_error g, cam_pipeline := go_pipeline g\<rparr>
             in if go_parse_error g then cleanup_pipeline c2
                else if \<not> go_pipeline g then c2
                else
                  let c3 = c2\<lparr>cam_bus := go_bus g\<rparr>
                  in if \<not> go_bus g then cleanup_pipeline c3
                     else
                       let c4 = c3\<lparr>cam_sink := go_sink g\<rparr>
                       in if \<not> go_sink g then cleanup_pipeline c4
                          else if \<not> go_playing g then cleanup_pipeline c4
                          else
                            let c5 = c4\<lparr>cam_running := True\<rparr>
                            in (case go_prime g of
                                  None \<Rightarrow> c5
                                | Some s \<Rightarrow>
                                    (case create_frame (go_time g) (Some s) (cam_counter c5) of
                                       (None, _, n) \<Rightarrow> c5\<lparr>cam_counter := n\<rparr>
                                     | (Some f, _, n) \<Rightarrow>
                                         c5\<lparr>cam_counter := n, cam_last := Some f\<rparr>)))"

definition camera_is_running :: "'f camera \<Rightarrow> bool" where
  "camera_is_running c \<longleftrightarrow> cam_running c \<and> cam_pipeline c"

definition camera_restart :: "gst_start \<Rightarrow> 'f camera \<Rightarrow> 'f camera" where
  "camera_restart g c = camera_start g (camera_stop c)"

fun drain_bus :: "bus_message list \<Rightarrow> 'f camera \<Rightarrow> bool \<times> 'f camera" where
  "drain_bus [] c = (True, c)"
| "drain_bus (BusError # ms) c = (False, camera_stop c)"
| "drain_bus (BusEos # ms) c = (False, camera_stop c)"
| "drain_bus (BusOther # ms) c = drain_bus ms c"

definition handle_bus_messages :: "bus_message list \<Rightarrow> 'f camera \<Rightarrow> bool \<times> 'f camera" where
  "handle_bus_messages ms c = (if \<not> cam_bus c then (False, c) else drain_bus ms c)"

text \<open>The newest of the waiting samples.\<close>

fun pull_latest :: "gst_sample list \<Rightarrow> gst_sample option \<Rightarrow> gst_sample option" where
  "pull_latest [] newest = newest"
| "pull_latest (s # ss) newest = pull_latest ss (Some s)"

definition camera_capture ::
  "int \<Rightarrow> bus_message list \<Rightarrow> gst_sample list \<Rightarrow> 'f camera \<Rightarrow> frame option \<times> 'f camera" where
  "camera_capture now ms samples c =
     (if \<not> cam_running c \<or> \<not> cam_pipeline c \<or> \<not> cam_sink c \<or> \<not> cam_bus c then (None, c)
      else
        (case handle_bus_messages ms c of
           (False, c1) \<Rightarrow> (None, c1)
         | (True, c1) \<Rightarrow>
             (case pull_latest samples None of
                None \<Rightarrow> (cam_last c1, c1)
              | Some s \<Rightarrow>
                  (case create_frame now (Some s) (cam_counter c1) of
                     (None, _, n) \<Rightarrow> (cam_last c1, c1\<lparr>cam_counter := n\<rparr>)
                   | (Some f, _, n) \<Rightarrow>
                       (Some f, c1\<lparr>cam_counter := n, cam_last := Some f\<rparr>)))))"

section \<open>The planes of a frame\<close>

lemma plane_end_bounds:
  "plane_end offsets off mapped \<le> mapped"
  "off < mapped \<Longrightarrow> off < plane_end offsets off mapped"
  "\<lbrakk>o' \<in> set offsets; off < o'\<rbrakk> \<Longrightarrow> plane_end offsets off mapped \<le> o'"
proof -
  have le: "plane_end os off n \<le> n" for os n
    unfolding plane_end_def by (induction os arbitrary: n) (auto intro: order.trans less_imp_le)
  show "plane_end offsets off mapped \<le> mapped" by (rule le)
  show "off < plane_end offsets off mapped" if "off < mapped"
    using that unfolding plane_end_def by (induction offsets arbitrary: mapped) auto
  show "plane_end offsets off mapped \<le> o'" if "o' \<in> set offsets" "off < o'"
    using that
  proof (induction offsets arbitrary: mapped)
    case (Cons x os)
    then show ?case using le [of os x] le [of os mapped]
      by (auto simp: plane_end_def not_less intro: order.trans [OF _ order.trans])
  qed simp
qed

text \<open>A plane of the frame inside the mapping and in front of the next plane.\<close>

definition plane_placed :: "nat list \<Rightarrow> nat \<Rightarrow> nat \<Rightarrow> nat \<Rightarrow> i32 \<times> nat \<Rightarrow> frame_plane \<Rightarrow> bool" where
  "plane_placed offsets b k mapped so p \<longleftrightarrow>
     fp_stride p = fst so \<and> fp_data p = Some (b, k + snd so) \<and> 0 < fp_size p \<and>
     snd so + fp_size p \<le> mapped \<and>
     (\<forall>o' \<in> set offsets. snd so < o' \<longrightarrow> snd so + fp_size p \<le> o')"

lemma sample_planes_placed:
  "sample_planes offsets (Some (b, k)) mapped ps = Some qs \<Longrightarrow>
   list_all2 (plane_placed offsets b k mapped) ps qs"
proof (induction ps arbitrary: qs)
  case (Cons p ps)
  obtain stride off where p: "p = (stride, off)" by fastforce
  from Cons.prems obtain qs' where rest: "sample_planes offsets (Some (b, k)) mapped ps = Some qs'"
    and off: "off < mapped"
    and qs: "qs = \<lparr>fp_stride = stride, fp_data = Some (b, k + off),
                   fp_size = plane_end offsets off mapped - off\<rparr> # qs'"
    by (auto simp: p Let_def split: if_splits option.splits)
  then have "plane_placed offsets b k mapped p (hd qs)"
    using plane_end_bounds [where offsets = offsets and off = off and mapped = mapped]
    by (auto simp: plane_placed_def p intro: less_imp_le)
  then show ?case using Cons.IH [OF rest] qs by simp
qed simp

text \<open>A sample becomes a frame only when it is mapped and every plane lies inside the mapping and
  ends before the next plane begins; the frame then carries the counter as its number and keeps
  one reference and one mapping of the buffer.  In every other case what was taken of the buffer
  has been given back.\<close>

theorem frame_from_sample:
  "case create_frame now sample n of
     (None, calls, n') \<Rightarrow>
       count_list calls BufferRef = count_list calls BufferUnref \<and>
       count_list calls BufferMap = count_list calls BufferUnmap
   | (Some f, calls, n') \<Rightarrow>
       calls = [BufferRef, BufferMap] \<and> fr_id f = n \<and> n' = n + 1 \<and> fr_memory f = CPU \<and>
       (\<exists>s info b k mapped.
          sample = Some s \<and> gs_caps s = Some (Some info) \<and> gs_map s = Some (Some (b, k), mapped) \<and>
          fr_owner f = Some b \<and> frame_format_of (vi_format info) = Some (fr_format f) \<and>
          list_all2 (plane_placed (map snd (vi_planes info)) b k mapped) (vi_planes info)
            (fr_planes f))"
  by (auto simp: create_frame_def give_back_def intro!: sample_planes_placed split: option.splits)

section \<open>The life of a camera\<close>

datatype camera_op =
  CamStart gst_start | CamStop | CamRestart gst_start
| CamCapture int "bus_message list" "gst_sample list"

fun camera_step :: "camera_op \<Rightarrow> 'f camera \<Rightarrow> 'f camera" where
  "camera_step (CamStart g) c = camera_start g c"
| "camera_step CamStop c = camera_stop c"
| "camera_step (CamRestart g) c = camera_restart g c"
| "camera_step (CamCapture now ms samples) c = snd (camera_capture now ms samples c)"

definition camera_ok :: "'f camera \<Rightarrow> bool" where
  "camera_ok c \<longleftrightarrow>
     \<not> cam_err c \<and> cam_pipeline c = cam_running c \<and> cam_bus c = cam_running c \<and>
     cam_sink c = cam_running c \<and> (\<not> cam_running c \<longrightarrow> cam_last c = None)"

lemma camera_new_ok [inv_rules]: "camera_ok (camera_new cfg model i)"
  by (simp add: camera_ok_def camera_new_def)

lemma camera_stop_ok [inv_rules]: "camera_ok (camera_stop c)"
  by (simp add: camera_ok_def camera_stop_def cleanup_pipeline_def)

lemma camera_start_ok [inv_rules]: "camera_ok c \<Longrightarrow> camera_ok (camera_start g c)"
  by (auto simp: camera_ok_def camera_start_def cleanup_pipeline_def Let_def
      split: option.splits prod.splits)

lemma drain_bus_cases:
  "drain_bus ms c = (True, c) \<and> set ms \<subseteq> {BusOther} \<or> drain_bus ms c = (False, camera_stop c)"
  by (induction ms c rule: drain_bus.induct) auto

lemma camera_ok_frame:
  "camera_ok c \<Longrightarrow> camera_ok (c\<lparr>cam_counter := n\<rparr>)"
  "\<lbrakk>camera_ok c; cam_running c\<rbrakk> \<Longrightarrow> camera_ok (c\<lparr>cam_counter := n, cam_last := l\<rparr>)"
  by (simp_all add: camera_ok_def)

lemma camera_capture_ok [inv_rules]:
  assumes "camera_ok c"
  shows "camera_ok (snd (camera_capture now ms samples c))"
proof -
  have "drain_bus ms c = (True, c) \<or> drain_bus ms c = (False, camera_stop c)"
    using drain_bus_cases [of ms c] by blast
  then show ?thesis using assms camera_stop_ok [of c]
    by (elim disjE)
       (auto simp: camera_capture_def handle_bus_messages_def camera_ok_frame
        split: option.splits prod.splits)
qed

lemma camera_step_ok: "camera_ok c \<Longrightarrow> camera_ok (camera_step op c)"
  by (cases op) (auto simp: camera_restart_def intro: inv_rules)

text \<open>In every history of starts, stops, restarts and captures the camera holds a pipeline, a bus
  and an appsink exactly while it runs, keeps no parse error, and remembers no frame once it has
  stopped: a stopped camera captures nothing until it is started again.\<close>

theorem camera_lifecycle:
  "case fold camera_step ops (camera_new cfg model i) of c \<Rightarrow>
     camera_ok c \<and> (camera_is_running c \<longleftrightarrow> cam_running c) \<and>
     (\<not> camera_is_running c \<or> (\<exists>ms' ms. set ms' \<subseteq> {BusOther} \<and> bus = ms' @ BusError # ms) \<longrightarrow>
        fst (camera_capture now bus samples c) = None)"
proof -
  have ok: "camera_ok (fold camera_step ops c)" if "camera_ok c" for c :: "'f camera"
    using that by (induction ops arbitrary: c) (auto intro: camera_step_ok)
  have err: "drain_bus (ms' @ BusError # ms) c = (False, camera_stop c)"
    if "set ms' \<subseteq> {BusOther}" for ms' ms and c :: "'f camera"
    using that by (induction ms') auto
  show ?thesis
    using ok [OF camera_new_ok, of cfg model i]
    by (auto simp: camera_ok_def camera_is_running_def camera_capture_def handle_bus_messages_def
        err split: option.splits)
qed

text \<open>C34: A camera that has delivered a frame delivers the same frame again, with the same number,
  whenever no new sample is waiting: nothing tells the caller that the frame is not new.\<close>

theorem idle_camera_repeats:
  assumes "camera_ok c" "camera_capture now ms samples c = (Some f, c1)"
    "set ms' \<subseteq> {BusOther}"
  shows "camera_capture now' ms' [] c1 = (Some f, c1)"
proof -
  have run: "cam_running c1" "camera_ok c1" "cam_last c1 = Some f"
    using assms(2) camera_capture_ok [OF assms(1), of now ms samples] drain_bus_cases [of ms c]
    by (auto simp: camera_capture_def handle_bus_messages_def camera_stop_def
        split: if_splits option.splits prod.splits)
  moreover have "drain_bus ms' c1 = (True, c1)"
    using assms(3) by (induction ms') auto
  ultimately show ?thesis
    by (simp add: camera_capture_def handle_bus_messages_def camera_ok_def)
qed

definition test_camera_start :: gst_start where
  "test_camera_start =
     \<lparr>go_parse_error = False, go_pipeline = True, go_bus = True, go_sink = True, go_playing = True,
      go_prime = None, go_time = 0\<rparr>"

definition test_sample :: gst_sample where
  "test_sample =
     \<lparr>gs_caps = Some (Some \<lparr>vi_format = FMT_NV12, vi_width = 2, vi_height = 2,
                            vi_planes = [(2, 0), (2, 4)]\<rparr>),
      gs_buffer = True, gs_map = Some (Some (0, 0), 6)\<rparr>"

definition test_camera :: "nat camera" where
  "test_camera = camera_start test_camera_start (camera_new (default_camera_config 1) ''v1'' 0)"

theorem camera_lifecycle_witness:
  "fst (camera_capture 7 [BusError] [test_sample]
     (fold camera_step [CamStart test_camera_start, CamCapture 5 [] [test_sample]]
        (camera_new (default_camera_config (1 :: nat)) ''v1'' 0))) = None"
  using camera_lifecycle [of "[CamStart test_camera_start, CamCapture 5 [] [test_sample]]"
      "default_camera_config (1 :: nat)" "''v1''" 0 "[BusError]" 7 "[test_sample]"]
  by (metis append_Nil empty_set empty_subsetI)

definition test_captured :: "frame option \<times> nat camera" where
  "test_captured = camera_capture 5 [] [test_sample] test_camera"

theorem idle_camera_repeats_witness:
  "camera_capture 6 [] [] (snd test_captured) = (fst test_captured, snd test_captured)"
proof -
  have "fst test_captured \<noteq> None" by code_simp
  then obtain f where "fst test_captured = Some f" by blast
  then have f: "test_captured = (Some f, snd test_captured)" by (metis prod.collapse)
  have "camera_ok test_camera" unfolding test_camera_def by (intro camera_start_ok camera_new_ok)
  from idle_camera_repeats [OF this, of 5 "[]" "[test_sample]" f "snd test_captured" "[]" 6] f
  show ?thesis by (simp add: test_captured_def [symmetric])
qed

end
