(* ===== verification/Pipeline.thy ===== *)
theory Pipeline
  imports Buffers Processing Compositor Capture
begin

text \<open>
  The pipeline: \<^verbatim>\<open>app/pipeline/services/orchestrator\<close>, the decision port and StaticDecision
  (\<^verbatim>\<open>app/decision\<close>, \<^verbatim>\<open>domain/decision\<close>).

  The orchestrator runs one producer thread per camera and one consumer thread.  A thread is a
  program counter with the local values it carries; one turn of a thread is the code between two
  accesses to shared state (the running flag, a slot, the raw sink, the latest frame, the sink).
  The scheduler is the list of turns, so every statement about all lists is one about all
  interleavings.  The ports are a record of functions; the frames' bytes live in the memory of
  theory Frames, and the blocks the allocator hands out are part of a turn.
\<close>

section \<open>The decision\<close>

record camera_choice =
  ch_index :: u32
  ch_crop :: crop_rect

definition kCamera0Index :: nat where "kCamera0Index = 0"

definition static_decide :: "frame_bundle option list \<Rightarrow> camera_choice option" where
  "static_decide cameras =
     (if cameras = [] then None
      else
        (case cameras ! kCamera0Index of
           None \<Rightarrow> None
         | Some bundle \<Rightarrow>
             let g = fr_geometry (fb_source bundle)
             in if fg_width g = 0 \<or> fg_height g = 0 then None
                else Some \<lparr>ch_index = of_nat kCamera0Index,
                           ch_crop = \<lparr>cr_x = 0, cr_y = 0, cr_width = fg_width g,
                                      cr_height = fg_height g\<rparr>\<rparr>))"

section \<open>Ports and state\<close>

record ('c, 'd, 'k, 'r, 'x) pipeline_ports =
  pt_start :: "'c \<Rightarrow> 'c"
  pt_stop :: "'c \<Rightarrow> 'c"
  pt_running :: "'c \<Rightarrow> bool"
  pt_capture :: "memory \<Rightarrow> 'c \<Rightarrow> frame option \<times> memory \<times> 'c"
  pt_preprocess :: "nat \<Rightarrow> nat \<Rightarrow> memory \<Rightarrow> frame \<Rightarrow> (frame_bundle \<times> memory) outcome"
  pt_decide :: "frame_bundle option list \<Rightarrow> 'd \<Rightarrow> camera_choice option \<times> 'd"
  pt_postprocess :: "nat \<Rightarrow> memory \<Rightarrow> frame \<Rightarrow> crop_rect \<Rightarrow> (frame \<times> memory) outcome"
  pt_sink :: "frame \<Rightarrow> 'k \<Rightarrow> 'k"
  pt_raw :: "(nat \<Rightarrow> frame \<Rightarrow> 'r \<Rightarrow> 'r) option"
  pt_double :: "'x double_ops"

definition kCadenceCamera :: nat where "kCadenceCamera = 0"

datatype producer_pc =
  PCheck | PCapture | PProcess frame | PTap frame_bundle | PPush frame_bundle | PDone

datatype consumer_pc =
  CCheck | CPop | CSample nat "frame_bundle option list" | CDecide "frame_bundle option list"
| CStore frame | CPush frame | CDone

record ('c, 'd, 'k, 'r) orchestrator =
  pl_cameras :: "'c list"
  pl_decision :: 'd
  pl_sink :: 'k
  pl_raw :: 'r
  pl_slots :: "frame_bundle slot list"
  pl_running :: bool
  pl_producers :: "producer_pc list"
  pl_consumer :: consumer_pc
  pl_latest :: "frame option"
  pl_memory :: memory
  pl_crashed :: bool

definition orchestrator_new ::
  "'c list \<Rightarrow> 'd \<Rightarrow> 'k \<Rightarrow> 'r \<Rightarrow> memory \<Rightarrow> ('c, 'd, 'k, 'r) orchestrator" where
  "orchestrator_new cams d k r m =
     \<lparr>pl_cameras = cams, pl_decision = d, pl_sink = k, pl_raw = r,
      pl_slots = replicate (length cams) slot_new, pl_running = False, pl_producers = [],
      pl_consumer = CDone, pl_latest = None, pl_memory = m, pl_crashed = False\<rparr>"

section \<open>Start\<close>

text \<open>Starting the cameras one by one; the first that does not run stops those before it.\<close>

fun start_cameras ::
  "('c, 'd, 'k, 'r, 'x) pipeline_ports \<Rightarrow> 'c list \<Rightarrow> 'c list \<Rightarrow> bool \<times> 'c list" where
  "start_cameras P started [] = (True, started)"
| "start_cameras P started (c # cs) =
     (let c1 = pt_start P c
      in if \<not> pt_running P c1 then (False, map (pt_stop P) started @ c1 # cs)
         else start_cameras P (started @ [c1]) cs)"

definition pipeline_start ::
  "('c, 'd, 'k, 'r, 'x) pipeline_ports \<Rightarrow> ('c, 'd, 'k, 'r) orchestrator \<Rightarrow>
   bool \<times> ('c, 'd, 'k, 'r) orchestrator" where
  "pipeline_start P s =
     (if pl_running s then (True, s)
      else if pl_cameras s = [] then (False, s)
      else
        (case start_cameras P [] (pl_cameras s) of
           (False, cams) \<Rightarrow> (False, s\<lparr>pl_cameras := cams\<rparr>)
         | (True, cams) \<Rightarrow>
             (True, s\<lparr>pl_cameras := cams, pl_running := True,
                      pl_producers := replicate (length cams) PCheck, pl_consumer := CCheck\<rparr>)))"

section \<open>Threads\<close>

text \<open>What a turn shows: a frame handed to the raw sink, a bundle offered to a slot, a bundle chosen
  and the frame made of it, a frame handed to the sink.\<close>

datatype observation =
  Tapped nat frame | Queued nat frame_bundle | Shown nat frame_bundle frame | Delivered frame

text \<open>One turn of producer i; \<^verbatim>\<open>b1\<close> and \<^verbatim>\<open>b2\<close> are the blocks of the AI image and of the materialized
  source.\<close>

definition producer_turn ::
  "('c, 'd, 'k, 'r, 'x) pipeline_ports \<Rightarrow> nat \<Rightarrow> nat \<Rightarrow> nat \<Rightarrow> ('c, 'd, 'k, 'r) orchestrator \<Rightarrow>
   observation list \<times> ('c, 'd, 'k, 'r) orchestrator" where
  "producer_turn P i b1 b2 s =
     (let goto = (\<lambda>pc s1. s1\<lparr>pl_producers := (pl_producers s1)[i := pc]\<rparr>)
      in case pl_producers s ! i of
           PCheck \<Rightarrow> ([], goto (if pl_running s then PCapture else PDone) s)
         | PCapture \<Rightarrow>
             (case pt_capture P (pl_memory s) (pl_cameras s ! i) of
                (raw, m1, c1) \<Rightarrow>
                  ([], goto (case raw of None \<Rightarrow> PCheck | Some f \<Rightarrow> PProcess f)
                         (s\<lparr>pl_cameras := (pl_cameras s)[i := c1], pl_memory := m1\<rparr>)))
         | PProcess f \<Rightarrow>
             (case pt_preprocess P i b1 (pl_memory s) f of
                Crash \<Rightarrow> ([], s\<lparr>pl_crashed := True\<rparr>)
              | Nothing \<Rightarrow> ([], goto PCheck s)
              | Got (bundle, m1) \<Rightarrow>
                  (case materialize_frame b2 (fb_source bundle) m1 of
                     None \<Rightarrow> ([], s\<lparr>pl_crashed := True\<rparr>)
                   | Some (src, m2) \<Rightarrow>
                       ([], goto (PTap (bundle\<lparr>fb_source := src\<rparr>)) (s\<lparr>pl_memory := m2\<rparr>))))
         | PTap bundle \<Rightarrow>
             (case pt_raw P of
                None \<Rightarrow> ([], goto (PPush bundle) s)
              | Some push \<Rightarrow>
                  ([Tapped i (fb_source bundle)],
                   goto (PPush bundle) (s\<lparr>pl_raw := push i (fb_source bundle) (pl_raw s)\<rparr>)))
         | PPush bundle \<Rightarrow>
             ([Queued i bundle],
              goto PCheck (s\<lparr>pl_slots := (pl_slots s)[i := snd (slot_push bundle (pl_slots s ! i))]\<rparr>))
         | PDone \<Rightarrow> ([], s))"

text \<open>From a choice to the final frame.\<close>

definition render_choice ::
  "('c, 'd, 'k, 'r, 'x) pipeline_ports \<Rightarrow> nat \<Rightarrow> nat \<Rightarrow> rgba_image option \<Rightarrow> memory \<Rightarrow> frame_bundle \<Rightarrow>
   crop_rect \<Rightarrow> (frame \<times> memory) outcome" where
  "render_choice P b1 b2 overlay m chosen crop =
     on_value (pt_postprocess P b1 m (fb_source chosen) crop) (\<lambda>(f, m1).
       case overlay of
         None \<Rightarrow> Got (f, m1)
       | Some img \<Rightarrow>
           or_crash (composite_overlay (pt_double P) b2 f img m1) (\<lambda>(composited, m2).
             Got (case composited of None \<Rightarrow> f | Some f1 \<Rightarrow> f1, m2)))"

text \<open>One turn of the consumer.  \<^verbatim>\<open>timed_out\<close> ends the wait for the cadence camera; \<^verbatim>\<open>overlay\<close> is what
  the overlay source answers, None also when there is no source.\<close>

definition consumer_turn ::
  "('c, 'd, 'k, 'r, 'x) pipeline_ports \<Rightarrow> bool \<Rightarrow> nat \<Rightarrow> nat \<Rightarrow> rgba_image option \<Rightarrow>
   ('c, 'd, 'k, 'r) orchestrator \<Rightarrow> observation list \<times> ('c, 'd, 'k, 'r) orchestrator" where
  "consumer_turn P timed_out b1 b2 overlay s =
     (case pl_consumer s of
        CCheck \<Rightarrow> ([], s\<lparr>pl_consumer := (if pl_running s then CPop else CDone)\<rparr>)
      | CPop \<Rightarrow>
          let slot = pl_slots s ! kCadenceCamera; none = replicate (length (pl_cameras s)) None
          in if slot_ready slot
             then (case slot_take slot of
                     (v, slot1) \<Rightarrow>
                       ([], s\<lparr>pl_slots := (pl_slots s)[kCadenceCamera := slot1],
                              pl_consumer := CSample 0 (none[kCadenceCamera := v])\<rparr>))
             else if timed_out then ([], s\<lparr>pl_consumer := CSample 0 none\<rparr>)
             else ([], s)
      | CSample i latest \<Rightarrow>
          if length (pl_cameras s) \<le> i then ([], s\<lparr>pl_consumer := CDecide latest\<rparr>)
          else if i = kCadenceCamera then ([], s\<lparr>pl_consumer := CSample (Suc i) latest\<rparr>)
          else (case slot_try_pop (pl_slots s ! i) of
                  (v, slot1) \<Rightarrow>
                    ([], s\<lparr>pl_slots := (pl_slots s)[i := slot1],
                           pl_consumer := CSample (Suc i) (latest[i := v])\<rparr>))
      | CDecide latest \<Rightarrow>
          (case pt_decide P latest (pl_decision s) of
             (None, d1) \<Rightarrow> ([], s\<lparr>pl_decision := d1, pl_consumer := CCheck\<rparr>)
           | (Some choice, d1) \<Rightarrow>
               let i = unat (ch_index choice); s1 = s\<lparr>pl_decision := d1\<rparr>
               in if length latest \<le> i then ([], s1\<lparr>pl_consumer := CCheck\<rparr>)
                  else (case latest ! i of
                          None \<Rightarrow> ([], s1\<lparr>pl_consumer := CCheck\<rparr>)
                        | Some chosen \<Rightarrow>
                            (case render_choice P b1 b2 overlay (pl_memory s) chosen
                                    (ch_crop choice) of
                               Crash \<Rightarrow> ([], s1\<lparr>pl_crashed := True\<rparr>)
                             | Nothing \<Rightarrow> ([], s1\<lparr>pl_consumer := CCheck\<rparr>)
                             | Got (f, m1) \<Rightarrow>
                                 ([Shown i chosen f],
                                  s1\<lparr>pl_memory := m1, pl_consumer := CStore f\<rparr>))))
      | CStore f \<Rightarrow> ([], s\<lparr>pl_latest := Some f, pl_consumer := CPush f\<rparr>)
      | CPush f \<Rightarrow>
          ([Delivered f], s\<lparr>pl_sink := pt_sink P f (pl_sink s), pl_consumer := CCheck\<rparr>)
      | CDone \<Rightarrow> ([], s))"

section \<open>Stop\<close>

text \<open>Stop up to the joins, and the rest once every thread has come to its end.\<close>

definition stop_signal :: "('c, 'd, 'k, 'r) orchestrator \<Rightarrow> ('c, 'd, 'k, 'r) orchestrator" where
  "stop_signal s =
     (if \<not> pl_running s then s
      else s\<lparr>pl_running := False, pl_slots := map slot_close (pl_slots s)\<rparr>)"

definition threads_done :: "('c, 'd, 'k, 'r) orchestrator \<Rightarrow> bool" where
  "threads_done s \<longleftrightarrow> list_all (\<lambda>pc. pc = PDone) (pl_producers s) \<and> pl_consumer s = CDone"

definition stop_finish ::
  "('c, 'd, 'k, 'r, 'x) pipeline_ports \<Rightarrow> ('c, 'd, 'k, 'r) orchestrator \<Rightarrow>
   ('c, 'd, 'k, 'r) orchestrator option" where
  "stop_finish P s =
     (if threads_done s
      then Some (s\<lparr>pl_cameras := map (pt_stop P) (pl_cameras s), pl_producers := []\<rparr>) else None)"

definition pipeline_is_running :: "('c, 'd, 'k, 'r) orchestrator \<Rightarrow> bool" where
  "pipeline_is_running s \<longleftrightarrow> pl_running s"

definition grab_latest :: "('c, 'd, 'k, 'r) orchestrator \<Rightarrow> frame option" where
  "grab_latest s = pl_latest s"

section \<open>Interleavings\<close>

datatype thread_turn =
  ProducerTurn nat nat nat
| ConsumerTurn bool nat nat "rgba_image option"

text \<open>A crash ends the process.  Turns of threads that were never spawned do nothing.\<close>

fun pipeline_turn ::
  "('c, 'd, 'k, 'r, 'x) pipeline_ports \<Rightarrow> thread_turn \<Rightarrow> ('c, 'd, 'k, 'r) orchestrator \<Rightarrow>
   observation list \<times> ('c, 'd, 'k, 'r) orchestrator" where
  "pipeline_turn P (ProducerTurn i b1 b2) s =
     (if pl_crashed s \<or> length (pl_producers s) \<le> i then ([], s) else producer_turn P i b1 b2 s)"
| "pipeline_turn P (ConsumerTurn timed_out b1 b2 overlay) s =
     (if pl_crashed s then ([], s) else consumer_turn P timed_out b1 b2 overlay s)"

fun pipeline_run ::
  "('c, 'd, 'k, 'r, 'x) pipeline_ports \<Rightarrow> thread_turn list \<Rightarrow> ('c, 'd, 'k, 'r) orchestrator \<Rightarrow>
   observation list \<times> ('c, 'd, 'k, 'r) orchestrator" where
  "pipeline_run P [] s = ([], s)"
| "pipeline_run P (t # ts) s =
     (case pipeline_turn P t s of
        (os, s1) \<Rightarrow> (case pipeline_run P ts s1 of (os', s2) \<Rightarrow> (os @ os', s2)))"

end
