(* ===== verification/PipelineProps.thy ===== *)
theory PipelineProps
  imports Pipeline
begin

text \<open>
  What holds of the pipeline under every interleaving of its threads: the order of the frames from
  the producers to the screen, and the snapshot.
\<close>

section \<open>Runs\<close>

lemma pipeline_run_snoc:
  "pipeline_run P (ts @ [t]) s =
     (case pipeline_run P ts s of
        (os, s1) \<Rightarrow> (case pipeline_turn P t s1 of (os', s2) \<Rightarrow> (os @ os', s2)))"
  by (induction ts arbitrary: s) (auto split: prod.splits)

text \<open>An invariant of every turn, over what has been observed so far, is one of every run.\<close>

lemma pipeline_run_invariant:
  assumes "I [] s" "\<And>t os s. I os s \<Longrightarrow> I (os @ fst (pipeline_turn P t s)) (snd (pipeline_turn P t s))"
  shows "I (fst (pipeline_run P ts s)) (snd (pipeline_run P ts s))"
proof (induction ts rule: rev_induct)
  case (snoc t ts)
  then show ?case using assms(2) [of "fst (pipeline_run P ts s)" "snd (pipeline_run P ts s)" t]
    by (simp add: pipeline_run_snoc case_prod_unfold)
qed (simp add: assms(1))

lemma pipeline_turn_cases:
  obtains "pipeline_turn P t s = ([], s)"
  | i b1 b2 where "t = ProducerTurn i b1 b2" "i < length (pl_producers s)" "\<not> pl_crashed s"
      "pipeline_turn P t s = producer_turn P i b1 b2 s"
  | timed_out b1 b2 overlay where "t = ConsumerTurn timed_out b1 b2 overlay" "\<not> pl_crashed s"
      "pipeline_turn P t s = consumer_turn P timed_out b1 b2 overlay s"
proof (cases "pl_crashed s")
  case True
  then show thesis by (intro that(1)) (cases t; simp)
next
  case False
  show thesis
  proof (cases t)
    case (ProducerTurn i b1 b2)
    show thesis
    proof (cases "i < length (pl_producers s)")
      case True
      then show thesis using that(2) [OF ProducerTurn True False] ProducerTurn False by simp
    next
      case N: False
      then show thesis using that(1) ProducerTurn by simp
    qed
  next
    case (ConsumerTurn timed_out b1 b2 overlay)
    then show thesis using that(3) [OF ConsumerTurn False] False by simp
  qed
qed

lemmas turn_splits = option.splits prod.splits producer_pc.splits consumer_pc.splits
  outcome.splits if_splits

section \<open>Shape of the state\<close>

definition pipeline_shape :: "('c, 'd, 'k, 'r) orchestrator \<Rightarrow> bool" where
  "pipeline_shape s \<longleftrightarrow>
     length (pl_slots s) = length (pl_cameras s) \<and>
     (pl_producers s \<noteq> [] \<longrightarrow> length (pl_producers s) = length (pl_cameras s)) \<and>
     (pl_running s \<longrightarrow> pl_producers s \<noteq> []) \<and>
     (pl_consumer s \<noteq> CDone \<longrightarrow> pl_cameras s \<noteq> [])"

lemma producer_turn_frame:
  "producer_turn P i b1 b2 s = (os, t) \<Longrightarrow>
     pl_consumer t = pl_consumer s \<and> pl_running t = pl_running s \<and> pl_sink t = pl_sink s \<and>
     pl_latest t = pl_latest s \<and> length (pl_cameras t) = length (pl_cameras s) \<and>
     length (pl_slots t) = length (pl_slots s) \<and> length (pl_producers t) = length (pl_producers s)"
  by (auto simp: producer_turn_def Let_def split: turn_splits)

lemma consumer_turn_frame:
  "consumer_turn P timed_out b1 b2 overlay s = (os, t) \<Longrightarrow>
     pl_producers t = pl_producers s \<and> pl_running t = pl_running s \<and>
     pl_cameras t = pl_cameras s \<and> pl_raw t = pl_raw s \<and>
     length (pl_slots t) = length (pl_slots s) \<and>
     (pl_consumer s = CDone \<longrightarrow> pl_consumer t = CDone)"
  by (auto simp: consumer_turn_def Let_def split: turn_splits)

lemma pipeline_turn_shape:
  assumes "pipeline_shape s" "pipeline_turn P t s = (os, s')"
  shows "pipeline_shape s'"
proof (cases rule: pipeline_turn_cases [where P = P and t = t and s = s])
  case (2 i b1 b2)
  with assms have "producer_turn P i b1 b2 s = (os, s')" by simp
  from producer_turn_frame [OF this] show ?thesis using assms(1)
    by (auto simp: pipeline_shape_def)
next
  case (3 timed_out b1 b2 overlay)
  with assms have "consumer_turn P timed_out b1 b2 overlay s = (os, s')" by simp
  from consumer_turn_frame [OF this] show ?thesis using assms(1)
    by (auto simp: pipeline_shape_def)
qed (use assms in auto)

section \<open>What was observed\<close>

definition queued :: "nat \<Rightarrow> observation list \<Rightarrow> frame_bundle list" where
  "queued i os = concat (map (\<lambda>ob. case ob of Queued j b \<Rightarrow> if j = i then [b] else [] | _ \<Rightarrow> []) os)"

definition shown :: "nat \<Rightarrow> observation list \<Rightarrow> frame_bundle list" where
  "shown i os = concat (map (\<lambda>ob. case ob of Shown j b f \<Rightarrow> if j = i then [b] else [] | _ \<Rightarrow> []) os)"

definition rendered :: "observation list \<Rightarrow> frame list" where
  "rendered os = concat (map (\<lambda>ob. case ob of Shown j b f \<Rightarrow> [f] | _ \<Rightarrow> []) os)"

definition delivered :: "observation list \<Rightarrow> frame list" where
  "delivered os = concat (map (\<lambda>ob. case ob of Delivered f \<Rightarrow> [f] | _ \<Rightarrow> []) os)"

definition tapped :: "nat \<Rightarrow> observation list \<Rightarrow> frame list" where
  "tapped i os = concat (map (\<lambda>ob. case ob of Tapped j f \<Rightarrow> if j = i then [f] else [] | _ \<Rightarrow> []) os)"

lemmas observed_defs = queued_def shown_def rendered_def delivered_def tapped_def

lemma observed_append [simp]:
  "queued i (os @ os') = queued i os @ queued i os'"
  "shown i (os @ os') = shown i os @ shown i os'"
  "rendered (os @ os') = rendered os @ rendered os'"
  "delivered (os @ os') = delivered os @ delivered os'"
  "tapped i (os @ os') = tapped i os @ tapped i os'"
  by (simp_all add: observed_defs)

lemma observed_nil [simp]:
  "queued i [] = []" "shown i [] = []" "rendered [] = []" "delivered [] = []" "tapped i [] = []"
  by (simp_all add: observed_defs)

section \<open>The order of the frames\<close>

definition opt_list :: "'a option \<Rightarrow> 'a list" where
  "opt_list v = (case v of None \<Rightarrow> [] | Some x \<Rightarrow> [x])"

lemma opt_list_simps [simp]: "opt_list None = []" "opt_list (Some x) = [x]"
  by (simp_all add: opt_list_def)

definition pick :: "nat \<Rightarrow> 'a option list \<Rightarrow> 'a list" where
  "pick i xs = (if i < length xs then opt_list (xs ! i) else [])"

text \<open>The bundle of camera i the consumer holds, and the one in its slot.\<close>

fun held :: "nat \<Rightarrow> consumer_pc \<Rightarrow> frame_bundle list" where
  "held i (CSample k latest) = pick i latest"
| "held i (CDecide latest) = pick i latest"
| "held i _ = []"

abbreviation stored :: "'a slot \<Rightarrow> 'a list" where
  "stored sl \<equiv> opt_list (sl_slot sl)"

lemma subseq_drop_part:
  assumes "subseq (a @ b @ c) w"
  shows "subseq (a @ c) w"
proof -
  have "subseq (a @ c) (a @ b @ c)" by (intro list_emb_append_mono list_emb_append2) auto
  then show ?thesis using assms by (rule subseq_order.trans)
qed

lemma subseq_drop_last: "subseq (a @ b) w \<Longrightarrow> subseq a w"
  using subseq_drop_part [of a b "[]" w] by simp

definition in_order ::
  "(nat \<Rightarrow> frame_bundle list) \<Rightarrow> observation list \<Rightarrow> ('c, 'd, 'k, 'r) orchestrator \<Rightarrow> bool" where
  "in_order q0 os s \<longleftrightarrow>
     (\<forall>i < length (pl_slots s).
        subseq (shown i os @ held i (pl_consumer s) @ stored (pl_slots s ! i)) (q0 i @ queued i os))"

lemma slot_push_stored:
  "stored (snd (slot_push v sl)) = (if sl_closed sl then stored sl else [v])"
  by (simp add: slot_push_def Let_def)

lemma slot_take_stored:
  "slot_take sl = (v, sl') \<Longrightarrow> opt_list v = stored sl \<and> stored sl' = [] \<and> sl_closed sl' = sl_closed sl"
  by (auto simp: slot_take_def split: option.splits)

lemma producer_in_order:
  assumes "in_order q0 os s" "producer_turn P i b1 b2 s = (os', t)" "i < length (pl_slots s)"
  shows "in_order q0 (os @ os') t"
proof (cases "pl_producers s ! i")
  case (PPush bd)
  have t: "pl_slots t = (pl_slots s)[i := snd (slot_push bd (pl_slots s ! i))]"
    "pl_consumer t = pl_consumer s" and os: "os' = [Queued i bd]"
    using assms(2) PPush by (auto simp: producer_turn_def Let_def)
  show ?thesis
    unfolding in_order_def
  proof (intro allI impI)
    fix j assume j: "j < length (pl_slots t)"
    then have h: "subseq (shown j os @ held j (pl_consumer s) @ stored (pl_slots s ! j)) (q0 j @ queued j os)"
      using assms(1) t by (simp add: in_order_def)
    show "subseq (shown j (os @ os') @ held j (pl_consumer t) @ stored (pl_slots t ! j))
        (q0 j @ queued j (os @ os'))"
    proof (cases "j = i")
      case True
      have *: "queued i os' = [bd]" "shown i os' = []" by (simp_all add: os observed_defs)
      have "subseq ((shown i os @ held i (pl_consumer s)) @ [bd]) ((q0 i @ queued i os) @ [bd])"
        using h True subseq_drop_last [of "shown i os @ held i (pl_consumer s)"]
        by (intro subseq_snocI) simp
      moreover have "subseq (shown i os @ held i (pl_consumer s) @ stored (pl_slots s ! i))
          ((q0 i @ queued i os) @ [bd])"
        using h True by (intro subseq_snoc_right) simp
      ultimately show ?thesis using True assms(3) t * by (simp add: slot_push_stored)
    next
      case False
      have "queued j os' = []" "shown j os' = []" using False by (simp_all add: os observed_defs)
      then show ?thesis using h False t by simp
    qed
  qed
qed (insert assms, auto simp: producer_turn_def in_order_def observed_defs Let_def
      split: option.splits prod.splits outcome.splits if_splits)

lemma pick_update: "pick i (xs[j := v]) = (if i = j \<and> i < length xs then opt_list v else pick i xs)"
  by (simp add: pick_def)

lemma pick_none [simp]: "pick i (replicate n None) = []"
  by (simp add: pick_def)

text \<open>Taking from slot j moves what is stored to the hands of the consumer.\<close>

lemma take_in_order:
  assumes "in_order q0 os s" "slot_take (pl_slots s ! j) = (v, sl')"
    "pl_slots t = (pl_slots s)[j := sl']"
    "\<And>i. held i (pl_consumer t) = (if i = j \<and> ok then opt_list v else held i (pl_consumer s)) \<or>
      held i (pl_consumer t) = []"
  shows "in_order q0 os t"
  unfolding in_order_def
proof (intro allI impI)
  fix i assume i: "i < length (pl_slots t)"
  then have h: "subseq (shown i os @ held i (pl_consumer s) @ stored (pl_slots s ! i)) (q0 i @ queued i os)"
    using assms(1,3) by (simp add: in_order_def)
  note k = slot_take_stored [OF assms(2)]
  have "subseq (shown i os @ stored (pl_slots s ! i)) (q0 i @ queued i os)"
    "subseq (shown i os @ held i (pl_consumer s)) (q0 i @ queued i os)"
    using subseq_drop_part [OF h] h subseq_drop_last [of "shown i os @ held i (pl_consumer s)"]
    by simp_all
  then show "subseq (shown i os @ held i (pl_consumer t) @ stored (pl_slots t ! i)) (q0 i @ queued i os)"
    using assms(3) assms(4) [of i] h k i subseq_drop_last [of "shown i os"]
    by (cases "i = j") (auto split: if_splits)
qed

text \<open>The turns of the consumer: it takes from the cadence camera, samples the others, decides.\<close>

lemma pop_in_order:
  assumes "in_order q0 os s" "consumer_turn P timed_out b1 b2 overlay s = (os', t)"
    "pl_consumer s = CPop"
  shows "in_order q0 (os @ os') t"
proof -
  let ?sl = "pl_slots s ! kCadenceCamera"
  show ?thesis
  proof (cases "slot_ready ?sl")
    case True
    obtain v sl' where tk: "slot_take ?sl = (v, sl')" by fastforce
    have t: "os' = []" "pl_slots t = (pl_slots s)[kCadenceCamera := sl']"
      "pl_consumer t = CSample 0 ((replicate (length (pl_cameras s)) None)[kCadenceCamera := v])"
      using assms(2) assms(3) True tk by (auto simp: consumer_turn_def Let_def)
    have "in_order q0 os t"
      using assms(3)
      by (intro take_in_order [OF assms(1) tk t(2), of "kCadenceCamera < length (pl_cameras s)"])
         (auto simp: t(3) pick_update)
    then show ?thesis using t(1) by simp
  next
    case False
    then have "os' = []" "pl_slots t = pl_slots s" "\<And>i. held i (pl_consumer t) = []"
      using assms(2) assms(3) by (auto simp: consumer_turn_def Let_def split: if_splits)
    then show ?thesis using assms(1,3) by (simp add: in_order_def)
  qed
qed

lemma sample_in_order:
  assumes "in_order q0 os s" "consumer_turn P timed_out b1 b2 overlay s = (os', t)"
    "pl_consumer s = CSample k latest"
  shows "in_order q0 (os @ os') t"
proof -
  consider "length (pl_cameras s) \<le> k \<or> k = kCadenceCamera"
    | "k < length (pl_cameras s)" "k \<noteq> kCadenceCamera" by linarith
  then show ?thesis
  proof cases
    case 1
    then have "os' = []" "pl_slots t = pl_slots s"
      "\<And>i. held i (pl_consumer t) = held i (pl_consumer s)"
      using assms(2) assms(3) by (auto simp: consumer_turn_def split: if_splits)
    then show ?thesis using assms(1) by (simp add: in_order_def)
  next
    case 2
    obtain v sl' where tk: "slot_take (pl_slots s ! k) = (v, sl')" by fastforce
    have t: "os' = []" "pl_slots t = (pl_slots s)[k := sl']"
      "pl_consumer t = CSample (Suc k) (latest[k := v])"
      using assms(2) assms(3) 2 tk by (auto simp: consumer_turn_def slot_try_pop_def)
    have "in_order q0 os t"
      using assms(3)
      by (intro take_in_order [OF assms(1) tk t(2), of "k < length latest"])
         (auto simp: t(3) pick_update)
    then show ?thesis using t(1) by simp
  qed
qed

lemma decide_in_order:
  assumes "in_order q0 os s" "consumer_turn P timed_out b1 b2 overlay s = (os', t)"
    "pl_consumer s = CDecide latest"
  shows "in_order q0 (os @ os') t"
proof -
  have slots: "pl_slots t = pl_slots s" "\<And>i. held i (pl_consumer t) = held i (pl_consumer s) \<or> held i (pl_consumer t) = []"
    using assms(2) assms(3) by (auto simp: consumer_turn_def Let_def split: turn_splits)
  consider (none) "os' = []"
    | (some) j bd f where "os' = [Shown j bd f]" "j < length latest" "latest ! j = Some bd"
        "pl_consumer t = CStore f"
    using assms(2) assms(3) by (auto simp: consumer_turn_def Let_def split: turn_splits)
  then show ?thesis
  proof cases
    case none
    show ?thesis unfolding in_order_def
    proof (intro allI impI)
      fix i assume "i < length (pl_slots t)"
      then have "subseq (shown i os @ held i (pl_consumer s) @ stored (pl_slots s ! i)) (q0 i @ queued i os)"
        using assms(1) slots by (simp add: in_order_def)
      then show "subseq (shown i (os @ os') @ held i (pl_consumer t) @ stored (pl_slots t ! i))
          (q0 i @ queued i (os @ os'))"
        using slots(2) [of i] subseq_drop_part [of "shown i os" "held i (pl_consumer s)"]
        by (auto simp: none slots(1))
    qed
  next
    case some
    show ?thesis unfolding in_order_def
    proof (intro allI impI)
      fix i assume "i < length (pl_slots t)"
      then have "subseq (shown i os @ pick i latest @ stored (pl_slots s ! i)) (q0 i @ queued i os)"
        using assms(1) slots assms(3) by (simp add: in_order_def)
      moreover from this have "subseq (shown i os @ stored (pl_slots s ! i)) (q0 i @ queued i os)"
        by (rule subseq_drop_part)
      moreover have "shown i os' = (if i = j then pick i latest else [])" "queued i os' = []"
        using some by (simp_all add: observed_defs pick_def)
      ultimately show "subseq (shown i (os @ os') @ held i (pl_consumer t) @ stored (pl_slots t ! i))
          (q0 i @ queued i (os @ os'))"
        by (cases "i = j") (auto simp: some(4) slots)
    qed
  qed
qed

lemma consumer_in_order:
  assumes "in_order q0 os s" "consumer_turn P timed_out b1 b2 overlay s = (os', t)"
  shows "in_order q0 (os @ os') t"
proof (cases "pl_consumer s")
  case CPop
  then show ?thesis by (rule pop_in_order [OF assms])
next
  case (CSample k latest)
  then show ?thesis by (rule sample_in_order [OF assms])
next
  case (CDecide latest)
  then show ?thesis by (rule decide_in_order [OF assms])
qed (insert assms, auto simp: consumer_turn_def in_order_def observed_defs split: if_splits)

lemma pipeline_in_order:
  assumes "in_order q0 os s" "pipeline_shape s" "pipeline_turn P t s = (os', s')"
  shows "in_order q0 (os @ os') s'"
proof (cases rule: pipeline_turn_cases [where P = P and t = t and s = s])
  case (2 i b1 b2)
  have "i < length (pl_slots s)" using 2 assms(2) by (auto simp: pipeline_shape_def)
  then show ?thesis using 2 assms(1,3) by (auto intro: producer_in_order)
next
  case (3 timed_out b1 b2 overlay)
  then show ?thesis using assms(1,3) by (auto intro: consumer_in_order)
qed (use assms in auto)

section \<open>The snapshot and the sink\<close>

fun in_flight :: "consumer_pc \<Rightarrow> frame list" where
  "in_flight (CStore f) = [f]"
| "in_flight (CPush f) = [f]"
| "in_flight _ = []"

definition snapshot_ok ::
  "('c, 'd, 'k, 'r, 'x) pipeline_ports \<Rightarrow> frame option \<Rightarrow> 'k \<Rightarrow> observation list \<Rightarrow>
   ('c, 'd, 'k, 'r) orchestrator \<Rightarrow> bool" where
  "snapshot_ok P l0 k0 os s \<longleftrightarrow>
     rendered os = delivered os @ in_flight (pl_consumer s) \<and>
     pl_sink s = fold (pt_sink P) (delivered os) k0 \<and>
     pl_latest s =
       (case pl_consumer s of
          CPush f \<Rightarrow> Some f
        | _ \<Rightarrow> if delivered os = [] then l0 else Some (last (delivered os)))"

lemma producer_observes:
  "producer_turn P i b1 b2 s = (os, t) \<Longrightarrow> rendered os = [] \<and> delivered os = []"
  by (auto simp: producer_turn_def observed_defs Let_def split: turn_splits)

lemma consumer_snapshot:
  assumes "snapshot_ok P l0 k0 os s" "consumer_turn P timed_out b1 b2 overlay s = (os', t)"
  shows "snapshot_ok P l0 k0 (os @ os') t"
  using assms
  by (cases "pl_consumer s")
     (auto simp: consumer_turn_def snapshot_ok_def observed_defs Let_def
      split: option.splits prod.splits outcome.splits if_splits)

lemma pipeline_snapshot:
  assumes "snapshot_ok P l0 k0 os s" "pipeline_turn P t s = (os', s')"
  shows "snapshot_ok P l0 k0 (os @ os') s'"
proof (cases rule: pipeline_turn_cases [where P = P and t = t and s = s])
  case (2 i b1 b2)
  with assms(2) have "producer_turn P i b1 b2 s = (os', s')" by simp
  from producer_observes [OF this] producer_turn_frame [OF this] show ?thesis
    using assms(1) by (cases "pl_consumer s") (simp_all add: snapshot_ok_def)
next
  case (3 timed_out b1 b2 overlay)
  then show ?thesis using assms consumer_snapshot by simp
qed (use assms in auto)

section \<open>The tap\<close>

fun tapped_ahead :: "producer_pc \<Rightarrow> frame list" where
  "tapped_ahead (PPush b) = [fb_source b]"
| "tapped_ahead _ = []"

definition tap_ok :: "observation list \<Rightarrow> ('c, 'd, 'k, 'r) orchestrator \<Rightarrow> bool" where
  "tap_ok os s \<longleftrightarrow>
     (\<forall>i < length (pl_producers s).
        tapped i os = map fb_source (queued i os) @ tapped_ahead (pl_producers s ! i))"

lemma producer_tap:
  assumes "tap_ok os s" "producer_turn P i b1 b2 s = (os', t)" "pt_raw P \<noteq> None"
    "i < length (pl_producers s)"
  shows "tap_ok (os @ os') t"
  using assms
  by (cases "pl_producers s ! i")
     (auto simp: producer_turn_def tap_ok_def observed_defs Let_def nth_list_update
      split: option.splits prod.splits outcome.splits if_splits)

lemma consumer_tap:
  assumes "tap_ok os s" "consumer_turn P timed_out b1 b2 overlay s = (os', t)"
  shows "tap_ok (os @ os') t"
proof -
  have "tapped i os' = []" "queued i os' = []" for i
    using assms(2) by (auto simp: consumer_turn_def observed_defs Let_def split: turn_splits)
  then show ?thesis using assms(1) consumer_turn_frame [OF assms(2)] by (simp add: tap_ok_def)
qed

lemma pipeline_tap:
  assumes "tap_ok os s" "pt_raw P \<noteq> None" "pipeline_turn P t s = (os', s')"
  shows "tap_ok (os @ os') s'"
proof (cases rule: pipeline_turn_cases [where P = P and t = t and s = s])
  case (2 i b1 b2)
  then show ?thesis using assms producer_tap by fastforce
next
  case (3 timed_out b1 b2 overlay)
  then show ?thesis using assms consumer_tap by fastforce
qed (use assms in auto)

section \<open>A started pipeline\<close>

lemma pipeline_turn_lengths:
  assumes "pipeline_turn P t s1 = (os', s2)"
  shows "length (pl_slots s2) = length (pl_slots s1) \<and>
    length (pl_producers s2) = length (pl_producers s1)"
proof (cases rule: pipeline_turn_cases [where P = P and t = t and s = s1])
  case (2 i b1 b2)
  then show ?thesis using assms producer_turn_frame [of P i b1 b2 s1 os' s2] by auto
next
  case (3 timed_out b1 b2 overlay)
  then show ?thesis using assms consumer_turn_frame [of P timed_out b1 b2 overlay s1 os' s2] by auto
qed (use assms in auto)

definition just_started :: "('c, 'd, 'k, 'r) orchestrator \<Rightarrow> bool" where
  "just_started s \<longleftrightarrow>
     pipeline_shape s \<and> pl_running s \<and> pl_producers s = replicate (length (pl_cameras s)) PCheck \<and>
     pl_consumer s = CCheck"

text \<open>C9: Whatever the threads do in whatever order, the bundles of a camera that are shown are an
  order preserving selection of those its producer queued (after the one a slot may hold from
  before the start), none is shown twice, and every queued bundle went to the raw capture sink
  first, in the same order.\<close>

theorem frames_in_order:
  fixes s :: "('c, 'd, 'k, 'r) orchestrator"
  assumes "just_started s" "pipeline_run P ts s = (os, s')" "i < length (pl_cameras s)"
  shows "subseq (shown i os) (stored (pl_slots s ! i) @ queued i os) \<and>
    (pt_raw P \<noteq> None \<longrightarrow> prefix (map fb_source (queued i os)) (tapped i os))"
proof -
  let ?q0 = "\<lambda>i. stored (pl_slots s ! i)"
  let ?I = "\<lambda>os s1. pipeline_shape s1 \<and> in_order ?q0 os s1 \<and>
    length (pl_slots s1) = length (pl_slots s) \<and> length (pl_producers s1) = length (pl_producers s) \<and>
    (pt_raw P \<noteq> None \<longrightarrow> tap_ok os s1)"
  have start: "?I [] s"
    using assms(1) by (simp add: just_started_def in_order_def tap_ok_def)
  have "?I (fst (pipeline_run P ts s)) (snd (pipeline_run P ts s))"
  proof (rule pipeline_run_invariant [where I = ?I, OF start])
    fix t os1 and s1 :: "('c, 'd, 'k, 'r) orchestrator"
    assume I: "?I os1 s1"
    obtain os' s2 where t: "pipeline_turn P t s1 = (os', s2)" by fastforce
    show "?I (os1 @ fst (pipeline_turn P t s1)) (snd (pipeline_turn P t s1))"
      using I pipeline_turn_shape [OF _ t] pipeline_in_order [OF _ _ t] pipeline_tap [OF _ _ t]
        pipeline_turn_lengths [OF t]
      by (simp add: t)
  qed
  moreover have "i < length (pl_slots s)" "i < length (pl_producers s)"
    using assms(1,3) by (auto simp: just_started_def pipeline_shape_def)
  ultimately have "in_order ?q0 os s'" "i < length (pl_slots s')" "i < length (pl_producers s')"
    "pt_raw P \<noteq> None \<longrightarrow> tap_ok os s'"
    using assms(2) by auto
  then show ?thesis
    using subseq_drop_last [of "shown i os"] by (auto simp: in_order_def tap_ok_def prefix_def)
qed

text \<open>C10: What the consumer renders reaches the sink completely and in order, at most the last frame
  is still under way; GrabLatest answers the frame handed to the sink last, or the one that is
  being handed to it.\<close>

theorem snapshot_current:
  fixes s :: "('c, 'd, 'k, 'r) orchestrator"
  assumes "just_started s" "pipeline_run P ts s = (os, s')"
  shows "rendered os = delivered os @ in_flight (pl_consumer s') \<and>
    length (in_flight (pl_consumer s')) \<le> 1 \<and>
    pl_sink s' = fold (pt_sink P) (delivered os) (pl_sink s) \<and>
    (delivered os \<noteq> [] \<longrightarrow>
       grab_latest s' = Some (last (delivered os)) \<or>
       grab_latest s' = Some (last (rendered os)))"
proof -
  let ?I = "snapshot_ok P (pl_latest s) (pl_sink s)"
  have "?I (fst (pipeline_run P ts s)) (snd (pipeline_run P ts s))"
  proof (rule pipeline_run_invariant [where I = ?I])
    show "?I [] s" using assms(1) by (simp add: just_started_def snapshot_ok_def)
  next
    fix t os1 and s1 :: "('c, 'd, 'k, 'r) orchestrator"
    assume "?I os1 s1"
    then show "?I (os1 @ fst (pipeline_turn P t s1)) (snd (pipeline_turn P t s1))"
      by (rule pipeline_snapshot) simp
  qed
  then show ?thesis using assms(2)
    by (cases "pl_consumer s'") (auto simp: snapshot_ok_def grab_latest_def)
qed

end
