(* ===== verification/PipelineStop.thy ===== *)
theory PipelineStop
  imports PipelineProps
begin

text \<open>
  Start and Stop of the pipeline: the rollback of a failed Start, the end of every thread after
  Stop, and what a pipeline that is started again delivers.  The ports are those of the device:
  GStreamer cameras, the OpenCV processors and StaticDecision.
\<close>

section \<open>Cameras as the orchestrator uses them\<close>

text \<open>A camera that was stopped does not run.\<close>

locale camera_port =
  fixes P :: "('c, 'd, 'k, 'r, 'x) pipeline_ports"
  assumes stop_ends: "\<not> pt_running P (pt_stop P c)"
begin

lemma started_cameras:
  "\<lbrakk>start_cameras P started cs = (True, cs'); \<forall>c \<in> set started. pt_running P c\<rbrakk> \<Longrightarrow>
   length cs' = length started + length cs \<and> (\<forall>c \<in> set cs'. pt_running P c)"
proof (induction cs arbitrary: started)
  case (Cons c cs)
  have run: "pt_running P (pt_start P c)"
    using Cons.prems(1) by (auto simp: Let_def split: if_splits)
  then have "start_cameras P (started @ [pt_start P c]) cs = (True, cs')"
    using Cons.prems(1) by (simp add: Let_def)
  from Cons.IH [OF this] show ?case using Cons.prems(2) run by simp
qed simp

text \<open>After a failed Start the cameras before the one that failed have been stopped, that one does
  not run, and those behind it were not touched.\<close>

lemma failed_cameras:
  "start_cameras P started cs = (False, cs') \<Longrightarrow>
   \<exists>k < length cs. length cs' = length started + length cs \<and>
     (\<forall>j \<le> length started + k. \<not> pt_running P (cs' ! j)) \<and>
     (\<forall>j. k < j \<and> j < length cs \<longrightarrow> cs' ! (length started + j) = cs ! j)"
proof (induction cs arbitrary: started)
  case (Cons c cs)
  show ?case
  proof (cases "pt_running P (pt_start P c)")
    case True
    then have "start_cameras P (started @ [pt_start P c]) cs = (False, cs')"
      using Cons.prems by (simp add: Let_def)
    from Cons.IH [OF this] obtain k where k: "k < length cs"
      "length cs' = Suc (length started + length cs)"
      "\<forall>j \<le> Suc (length started + k). \<not> pt_running P (cs' ! j)"
      "\<forall>j. k < j \<and> j < length cs \<longrightarrow> cs' ! (Suc (length started) + j) = cs ! j"
      by auto
    have "cs' ! (length started + j) = (c # cs) ! j" if "Suc k < j" "j < length (c # cs)" for j
      using that k(4) by (cases j) auto
    then show ?thesis using k by (intro exI [of _ "Suc k"]) auto
  next
    case False
    then have cs': "cs' = map (pt_stop P) started @ pt_start P c # cs"
      using Cons.prems by (simp add: Let_def)
    have "\<not> pt_running P (cs' ! j)" if "j \<le> length started" for j
      using that False stop_ends by (cases "j = length started") (auto simp: cs' nth_append)
    moreover have "cs' ! (length started + j) = (c # cs) ! j" if "0 < j" for j
      using that by (cases j) (auto simp: cs' nth_append)
    ultimately show ?thesis by (intro exI [of _ 0]) (auto simp: cs')
  qed
qed simp

lemma start_result:
  assumes "pipeline_start P s = (ok, s')" "\<not> pl_running s"
  shows "if ok
    then pl_running s' \<and> (\<forall>c \<in> set (pl_cameras s'). pt_running P c) \<and>
      length (pl_cameras s') = length (pl_cameras s) \<and>
      pl_producers s' = replicate (length (pl_cameras s)) PCheck \<and> pl_consumer s' = CCheck \<and>
      pl_slots s' = pl_slots s
    else s' = s\<lparr>pl_cameras := pl_cameras s'\<rparr> \<and>
      (pl_cameras s = [] \<or>
       (\<exists>k < length (pl_cameras s). length (pl_cameras s') = length (pl_cameras s) \<and>
          (\<forall>j \<le> k. \<not> pt_running P (pl_cameras s' ! j)) \<and>
          (\<forall>j. k < j \<and> j < length (pl_cameras s) \<longrightarrow>
             pl_cameras s' ! j = pl_cameras s ! j)))"
proof (cases "pl_cameras s = []")
  case True
  then show ?thesis using assms by (auto simp: pipeline_start_def)
next
  case False
  obtain b cams where st: "start_cameras P [] (pl_cameras s) = (b, cams)" by fastforce
  show ?thesis
  proof (cases b)
    case True
    then show ?thesis using started_cameras [of "[]" "pl_cameras s" cams] assms False st
      by (auto simp: pipeline_start_def)
  next
    case f: False
    then show ?thesis using failed_cameras [of "[]" "pl_cameras s" cams] assms False st
      by (auto simp: pipeline_start_def)
  qed
qed

end

section \<open>The device's pipeline\<close>

text \<open>A GStreamer camera together with what its surroundings will answer: at its n-th call the
  start meets \<^verbatim>\<open>rig_starts n\<close>, a capture meets a time, bus messages, samples and the blocks
  GStreamer has mapped.\<close>

record 'f camera_rig =
  rig_camera :: "'f camera"
  rig_calls :: nat
  rig_starts :: "nat \<Rightarrow> gst_start"
  rig_inputs :: "nat \<Rightarrow> int \<times> bus_message list \<times> gst_sample list \<times> memory"

definition rig_start :: "'f camera_rig \<Rightarrow> 'f camera_rig" where
  "rig_start r =
     r\<lparr>rig_camera := camera_start (rig_starts r (rig_calls r)) (rig_camera r),
       rig_calls := Suc (rig_calls r)\<rparr>"

definition rig_stop :: "'f camera_rig \<Rightarrow> 'f camera_rig" where
  "rig_stop r = r\<lparr>rig_camera := camera_stop (rig_camera r)\<rparr>"

definition rig_capture :: "memory \<Rightarrow> 'f camera_rig \<Rightarrow> frame option \<times> memory \<times> 'f camera_rig" where
  "rig_capture m r =
     (case rig_inputs r (rig_calls r) of
        (now, ms, samples, blocks) \<Rightarrow>
          (case camera_capture now ms samples (rig_camera r) of
             (f, c1) \<Rightarrow> (f, m ++ blocks, r\<lparr>rig_camera := c1, rig_calls := Suc (rig_calls r)\<rparr>)))"

text \<open>The wiring of main: both cameras with the default preprocessor, the default postprocessor,
  StaticDecision, the fan-out to recording and streaming, and the raw capture sink.\<close>

definition device_ports ::
  "cv_ops \<Rightarrow> 'x double_ops \<Rightarrow> (frame \<Rightarrow> 'k \<Rightarrow> 'k) \<Rightarrow> (nat \<Rightarrow> frame \<Rightarrow> 'r \<Rightarrow> 'r) \<Rightarrow>
   ('f camera_rig, unit, 'k option list, 'r, 'x) pipeline_ports" where
  "device_ports cv D push raw =
     \<lparr>pt_start = rig_start, pt_stop = rig_stop,
      pt_running = (\<lambda>r. camera_is_running (rig_camera r)), pt_capture = rig_capture,
      pt_preprocess = (\<lambda>i. preprocess cv default_preprocess_config),
      pt_decide = (\<lambda>latest d. (static_decide latest, d)),
      pt_postprocess = postprocess cv default_postprocess_config,
      pt_sink = fan_out_push push, pt_raw = Some raw, pt_double = D\<rparr>"

interpretation device_cameras: camera_port "device_ports cv D push raw"
  for cv D push raw
  by unfold_locales
     (simp add: device_ports_def rig_stop_def camera_is_running_def camera_stop_def
       cleanup_pipeline_def)

text \<open>C12: Start of the device's pipeline is all or nothing.  When it answers true every camera runs
  and every thread is at its beginning; when it answers false no thread was started, the camera
  that failed and all before it are not running, and those behind it were not touched.\<close>

theorem start_all_or_nothing:
  fixes s :: "('f camera_rig, unit, 'k option list, 'r) orchestrator"
  assumes "pipeline_start (device_ports cv D push raw) s = (ok, s')" "\<not> pl_running s"
  shows "if ok
    then pl_running s' \<and> (\<forall>c \<in> set (pl_cameras s'). camera_is_running (rig_camera c)) \<and>
      length (pl_cameras s') = length (pl_cameras s) \<and>
      pl_producers s' = replicate (length (pl_cameras s)) PCheck \<and> pl_consumer s' = CCheck \<and>
      pl_slots s' = pl_slots s
    else s' = s\<lparr>pl_cameras := pl_cameras s'\<rparr> \<and>
      (pl_cameras s = [] \<or>
       (\<exists>k < length (pl_cameras s). length (pl_cameras s') = length (pl_cameras s) \<and>
          (\<forall>j \<le> k. \<not> camera_is_running (rig_camera (pl_cameras s' ! j))) \<and>
          (\<forall>j. k < j \<and> j < length (pl_cameras s) \<longrightarrow>
             pl_cameras s' ! j = pl_cameras s ! j)))"
  using device_cameras.start_result [OF assms]
  by (cases ok) (simp_all add: device_ports_def)

section \<open>Stop\<close>

fun producer_left :: "producer_pc \<Rightarrow> nat" where
  "producer_left PDone = 0"
| "producer_left PCheck = 1"
| "producer_left (PPush _) = 2"
| "producer_left (PTap _) = 3"
| "producer_left (PProcess _) = 4"
| "producer_left PCapture = 5"

fun consumer_left :: "nat \<Rightarrow> consumer_pc \<Rightarrow> nat" where
  "consumer_left n CDone = 0"
| "consumer_left n CCheck = 1"
| "consumer_left n (CPush _) = 2"
| "consumer_left n (CStore _) = 3"
| "consumer_left n (CDecide _) = 4"
| "consumer_left n (CSample i _) = 5 + (n - i)"
| "consumer_left n CPop = 6 + n"

definition all_closed :: "('c, 'd, 'k, 'r) orchestrator \<Rightarrow> bool" where
  "all_closed s \<longleftrightarrow> (\<forall>sl \<in> set (pl_slots s). sl_closed sl)"

lemma slot_push_closed: "sl_closed (snd (slot_push v sl)) = sl_closed sl"
  by (simp add: slot_push_def Let_def)

lemma closed_update:
  assumes "sl \<in> set (xs[i := x])" "\<forall>sl \<in> set xs. sl_closed sl" "i < length xs \<Longrightarrow> sl_closed x"
  shows "sl_closed sl"
proof (cases "i < length xs")
  case True
  then show ?thesis using assms set_update_subset_insert [of xs i x] by blast
next
  case False
  then show ?thesis using assms by (simp add: not_less list_update_beyond)
qed

lemma producer_closed:
  assumes "producer_turn P i b1 b2 s = (os, t)" "all_closed s"
  shows "all_closed t"
proof (cases "pl_producers s ! i")
  case (PPush bd)
  then have "pl_slots t = (pl_slots s)[i := snd (slot_push bd (pl_slots s ! i))]"
    using assms(1) by (auto simp: producer_turn_def Let_def)
  then show ?thesis using assms(2)
    by (auto simp: all_closed_def slot_push_closed elim!: closed_update)
qed (insert assms, auto simp: producer_turn_def all_closed_def Let_def
      split: option.splits prod.splits outcome.splits if_splits)

lemma consumer_slots:
  assumes "consumer_turn P timed_out b1 b2 overlay s = (os, t)"
  shows "pl_slots t = pl_slots s \<or>
    (\<exists>k v sl'. slot_take (pl_slots s ! k) = (v, sl') \<and> pl_slots t = (pl_slots s)[k := sl'])"
proof (cases "pl_consumer s")
  case CPop
  obtain v sl' where tk: "slot_take (pl_slots s ! kCadenceCamera) = (v, sl')" by fastforce
  then have "pl_slots t = pl_slots s \<or> pl_slots t = (pl_slots s)[kCadenceCamera := sl']"
    using assms CPop by (auto simp: consumer_turn_def Let_def split: if_splits)
  then show ?thesis using tk by blast
next
  case (CSample k latest)
  obtain v sl' where tk: "slot_take (pl_slots s ! k) = (v, sl')" by fastforce
  then have "pl_slots t = pl_slots s \<or> pl_slots t = (pl_slots s)[k := sl']"
    using assms CSample by (auto simp: consumer_turn_def slot_try_pop_def split: if_splits)
  then show ?thesis using tk by blast
qed (insert assms, auto simp: consumer_turn_def Let_def
      split: option.splits prod.splits outcome.splits if_splits)

lemma consumer_closed:
  assumes "consumer_turn P timed_out b1 b2 overlay s = (os, t)" "all_closed s"
  shows "all_closed t"
proof -
  consider "pl_slots t = pl_slots s"
    | k v sl' where "slot_take (pl_slots s ! k) = (v, sl')" "pl_slots t = (pl_slots s)[k := sl']"
    using consumer_slots [OF assms(1)] by blast
  then show ?thesis
  proof cases
    case 2
    then show ?thesis using assms(2) slot_take_stored [OF 2(1)]
      by (auto simp: all_closed_def elim!: closed_update)
  qed (use assms in \<open>simp add: all_closed_def\<close>)
qed

lemma producer_leaves:
  assumes "producer_turn P i b1 b2 s = (os, t)" "\<not> pl_running s" "\<not> pl_crashed t"
    "i < length (pl_producers s)"
  shows "producer_left (pl_producers t ! i) \<le> producer_left (pl_producers s ! i) - 1"
    "\<And>j. j \<noteq> i \<Longrightarrow> pl_producers t ! j = pl_producers s ! j"
  using assms
  by (cases "pl_producers s ! i";
      auto simp: producer_turn_def Let_def split: option.splits prod.splits outcome.splits if_splits)+

lemma consumer_leaves:
  assumes "consumer_turn P timed_out b1 b2 overlay s = (os, t)" "\<not> pl_running s" "\<not> pl_crashed t"
    "all_closed s" "pl_slots s \<noteq> []"
  shows "consumer_left (length (pl_cameras s)) (pl_consumer t) \<le>
    consumer_left (length (pl_cameras s)) (pl_consumer s) - 1"
proof -
  have "slot_ready (pl_slots s ! kCadenceCamera)"
    using assms(4,5) by (auto simp: all_closed_def slot_ready_def kCadenceCamera_def)
  then show ?thesis using assms(1-3)
    by (cases "pl_consumer s")
       (auto simp: consumer_turn_def Let_def split: option.splits prod.splits outcome.splits if_splits)
qed

text \<open>How often a thread gets its turn.\<close>

fun is_producer :: "nat \<Rightarrow> thread_turn \<Rightarrow> bool" where
  "is_producer i (ProducerTurn j b1 b2) = (j = i)"
| "is_producer i (ConsumerTurn timed_out b1 b2 overlay) = False"

definition producer_turns :: "nat \<Rightarrow> thread_turn list \<Rightarrow> nat" where
  "producer_turns i ts = length (filter (is_producer i) ts)"

fun is_consumer :: "thread_turn \<Rightarrow> bool" where
  "is_consumer (ProducerTurn j b1 b2) = False"
| "is_consumer (ConsumerTurn timed_out b1 b2 overlay) = True"

definition consumer_turns :: "thread_turn list \<Rightarrow> nat" where
  "consumer_turns ts = length (filter is_consumer ts)"

text \<open>The state between the signal and the joins: each thread only moves towards its end.\<close>

definition stopping ::
  "nat \<Rightarrow> producer_pc list \<Rightarrow> consumer_pc \<Rightarrow> thread_turn list \<Rightarrow> ('c, 'd, 'k, 'r) orchestrator \<Rightarrow> bool" where
  "stopping n ps0 c0 ts s \<longleftrightarrow>
     pl_crashed s \<or>
     (\<not> pl_running s \<and> all_closed s \<and> pipeline_shape s \<and> pl_slots s \<noteq> [] \<and>
      length (pl_cameras s) = n \<and> length (pl_producers s) = length ps0 \<and>
      (\<forall>i < length ps0.
         producer_left (pl_producers s ! i) \<le> producer_left (ps0 ! i) - producer_turns i ts) \<and>
      consumer_left n (pl_consumer s) \<le> consumer_left n c0 - consumer_turns ts)"

lemma stoppingD:
  assumes "stopping n ps0 c0 ts s" "\<not> pl_crashed s"
  shows "\<not> pl_running s" "all_closed s" "pipeline_shape s" "pl_slots s \<noteq> []"
    "length (pl_cameras s) = n" "length (pl_producers s) = length ps0"
    "\<And>i. i < length ps0 \<Longrightarrow>
       producer_left (pl_producers s ! i) \<le> producer_left (ps0 ! i) - producer_turns i ts"
    "consumer_left n (pl_consumer s) \<le> consumer_left n c0 - consumer_turns ts"
  using assms by (simp_all add: stopping_def)

lemma turns_snoc:
  "producer_turns j (ts @ [ProducerTurn i b1 b2]) = producer_turns j ts + (if j = i then 1 else 0)"
  "consumer_turns (ts @ [ProducerTurn i b1 b2]) = consumer_turns ts"
  "producer_turns j (ts @ [ConsumerTurn w b1 b2 v]) = producer_turns j ts"
  "consumer_turns (ts @ [ConsumerTurn w b1 b2 v]) = consumer_turns ts + 1"
  by (simp_all add: consumer_turns_def producer_turns_def)

lemma stopping_producer:
  assumes "stopping n ps0 c0 ts s" "\<not> pl_crashed s" "i < length (pl_producers s)"
    "producer_turn P i b1 b2 s = (os, s')" "pipeline_shape s'"
  shows "stopping n ps0 c0 (ts @ [ProducerTurn i b1 b2]) s'"
proof (cases "pl_crashed s'")
  case False
  note st = stoppingD [OF assms(1,2)]
  note f = producer_turn_frame [OF assms(4)] and l = producer_leaves [OF assms(4) st(1) False assms(3)]
  have "producer_left (pl_producers s' ! j) \<le>
      producer_left (ps0 ! j) - producer_turns j (ts @ [ProducerTurn i b1 b2])" if "j < length ps0" for j
    using st(7) [OF that] l by (cases "j = i") (auto simp: turns_snoc)
  moreover have "pl_slots s' \<noteq> []" using st(4) f by (metis length_0_conv)
  ultimately show ?thesis
    using st f assms(5) producer_closed [OF assms(4) st(2)] by (simp add: stopping_def turns_snoc)
qed (simp add: stopping_def)

lemma stopping_consumer:
  assumes "stopping n ps0 c0 ts s" "\<not> pl_crashed s"
    "consumer_turn P w b1 b2 v s = (os, s')" "pipeline_shape s'" "length (pl_slots s') = length (pl_slots s)"
  shows "stopping n ps0 c0 (ts @ [ConsumerTurn w b1 b2 v]) s'"
proof (cases "pl_crashed s'")
  case False
  note st = stoppingD [OF assms(1,2)]
  note f = consumer_turn_frame [OF assms(3)]
  have "consumer_left n (pl_consumer s') \<le>
      consumer_left n c0 - consumer_turns (ts @ [ConsumerTurn w b1 b2 v])"
    using consumer_leaves [OF assms(3) st(1) False st(2,4)] st(5,8) by (simp add: turns_snoc)
  moreover have "pl_slots s' \<noteq> []" using st(4) assms(5) by (metis length_0_conv)
  ultimately show ?thesis
    using st f assms(4) consumer_closed [OF assms(3) st(2)] by (simp add: stopping_def turns_snoc)
qed (simp add: stopping_def)

lemma stopping_turn:
  assumes "stopping n ps0 c0 ts s" "pipeline_turn P t s = (os, s')"
  shows "stopping n ps0 c0 (ts @ [t]) s'"
proof (cases "pl_crashed s")
  case True
  then have "s' = s" using assms(2) by (cases t) auto
  then show ?thesis using True by (simp add: stopping_def)
next
  case False
  note st = stoppingD [OF assms(1) False]
  note shape = pipeline_turn_shape [OF st(3) assms(2)] and len = pipeline_turn_lengths [OF assms(2)]
  show ?thesis
  proof (cases t)
    case (ProducerTurn i b1 b2)
    show ?thesis
    proof (cases "i < length (pl_producers s)")
      case True
      then have "producer_turn P i b1 b2 s = (os, s')" using assms(2) ProducerTurn False by simp
      from stopping_producer [OF assms(1) False True this shape] show ?thesis by (simp add: ProducerTurn)
    next
      case i: False
      then have "s' = s" using assms(2) ProducerTurn by simp
      then show ?thesis using st i by (auto simp: stopping_def ProducerTurn turns_snoc)
    qed
  next
    case (ConsumerTurn w b1 b2 v)
    then have "consumer_turn P w b1 b2 v s = (os, s')" using assms(2) False by simp
    from stopping_consumer [OF assms(1) False this shape] len show ?thesis by (simp add: ConsumerTurn)
  qed
qed

lemma stopping_run:
  assumes "stopping n ps0 c0 [] s" "pipeline_run P ts s = (os, s')"
  shows "stopping n ps0 c0 ts s'"
  using assms(2)
proof (induction ts arbitrary: os s' rule: rev_induct)
  case (snoc t ts)
  obtain os1 s1 where r: "pipeline_run P ts s = (os1, s1)" by fastforce
  obtain os2 s2 where u: "pipeline_turn P t s1 = (os2, s2)" by fastforce
  have "s' = s2" using snoc.prems r u by (simp add: pipeline_run_snoc)
  then show ?case using stopping_turn [OF snoc.IH [OF r] u] by simp
qed (use assms in simp)

lemma left_bounds:
  "producer_left pc \<le> 5" "consumer_left n cpc \<le> n + 6"
  "producer_left pc = 0 \<longleftrightarrow> pc = PDone" "consumer_left n cpc = 0 \<longleftrightarrow> cpc = CDone"
proof -
  show "producer_left pc \<le> 5" "producer_left pc = 0 \<longleftrightarrow> pc = PDone" by (cases pc; simp)+
  show "consumer_left n cpc \<le> n + 6" "consumer_left n cpc = 0 \<longleftrightarrow> cpc = CDone" by (cases cpc; simp)+
qed

lemma stop_ends_spec:
  assumes "pipeline_shape s" "pl_running s"
    "pipeline_run P ts (stop_signal s) = (os, s')"
    "\<forall>i < length (pl_cameras s). 5 \<le> producer_turns i ts"
    "length (pl_cameras s) + 6 \<le> consumer_turns ts"
    "\<not> pl_crashed s'"
  shows "stop_finish P s' =
      Some (s'\<lparr>pl_cameras := map (pt_stop P) (pl_cameras s'), pl_producers := []\<rparr>) \<and>
    \<not> pipeline_is_running s'"
proof -
  let ?n = "length (pl_cameras s)" and ?s = "stop_signal s"
  have n: "length (pl_producers s) = ?n" "pl_producers s \<noteq> []" "length (pl_slots s) = ?n"
    using assms(1,2) by (auto simp: pipeline_shape_def)
  have "stopping ?n (pl_producers s) (pl_consumer s) [] ?s"
    using assms(1,2) n
    by (auto simp: stopping_def stop_signal_def all_closed_def pipeline_shape_def slot_close_def
        producer_turns_def consumer_turns_def)
  from stopping_run [OF this assms(3)] assms(6)
  have r: "\<not> pl_running s'" "length (pl_producers s') = ?n"
    "\<And>i. i < ?n \<Longrightarrow> producer_left (pl_producers s' ! i) \<le>
      producer_left (pl_producers s ! i) - producer_turns i ts"
    "consumer_left ?n (pl_consumer s') \<le> consumer_left ?n (pl_consumer s) - consumer_turns ts"
    by (simp_all add: stopping_def n(1))
  have "pl_producers s' ! i = PDone" if "i < ?n" for i
  proof -
    have "producer_left (pl_producers s' ! i) = 0"
      using r(3) [OF that] left_bounds(1) [of "pl_producers s ! i"] assms(4) that by fastforce
    then show ?thesis using left_bounds(3) by blast
  qed
  moreover have "pl_consumer s' = CDone"
    using r(4) left_bounds(2) [of ?n "pl_consumer s"] assms(5) left_bounds(4) [of ?n "pl_consumer s'"]
    by linarith
  ultimately have "threads_done s'"
    using r(2) by (auto simp: threads_done_def list_all_length)
  then show ?thesis using r(1) by (simp add: stop_finish_def pipeline_is_running_def)
qed

text \<open>C11: Stop ends: once the running flag is cleared and the slots are closed, every producer comes
  to its end within five of its own turns and the consumer within n + 6, whatever the order of
  the turns and whatever cameras, processors and sinks do; the joins then return and every
  camera is stopped.\<close>

theorem stop_ends_threads:
  assumes "pipeline_shape s" "pl_running s"
    "pipeline_run P ts (stop_signal s) = (os, s')"
    "\<forall>i < length (pl_cameras s). 5 \<le> producer_turns i ts"
    "length (pl_cameras s) + 6 \<le> consumer_turns ts"
    "\<not> pl_crashed s'"
  shows "stop_finish P s' =
      Some (s'\<lparr>pl_cameras := map (pt_stop P) (pl_cameras s'), pl_producers := []\<rparr>) \<and>
    \<not> pipeline_is_running s'"
  using assms by (rule stop_ends_spec)

section \<open>Starting again\<close>

definition filled :: "'a option list \<Rightarrow> nat" where
  "filled xs = length (filter (\<lambda>v. v \<noteq> None) xs)"

fun in_hand :: "consumer_pc \<Rightarrow> nat" where
  "in_hand (CSample i latest) = filled latest"
| "in_hand (CDecide latest) = filled latest"
| "in_hand (CStore _) = 1"
| "in_hand (CPush _) = 1"
| "in_hand _ = 0"

definition in_slots :: "('c, 'd, 'k, 'r) orchestrator \<Rightarrow> nat" where
  "in_slots s = sum_list (map (\<lambda>sl. length (stored sl)) (pl_slots s))"

lemma filled_update: "filled (xs[i := v]) \<le> filled xs + length (opt_list v)"
proof (induction xs arbitrary: i)
  case (Cons x xs)
  then show ?case by (cases i; cases v) (auto simp: filled_def split: nat.splits)
qed (simp add: filled_def)

lemma filled_none [simp]: "filled (replicate n None) = 0"
  by (simp add: filled_def)

lemma filled_some: "\<lbrakk>i < length xs; xs ! i = Some x\<rbrakk> \<Longrightarrow> 1 \<le> filled xs"
  using nth_mem [of i xs] by (auto simp: filled_def Suc_le_eq filter_empty_conv)

lemma in_slots_take:
  assumes "slot_take (pl_slots s ! k) = (v, sl')" "k < length (pl_slots s)"
    "pl_slots t = (pl_slots s)[k := sl']"
  shows "in_slots t + length (opt_list v) = in_slots s"
proof -
  note st = slot_take_stored [OF assms(1)]
  have "length (stored (pl_slots s ! k)) \<le> in_slots s"
    unfolding in_slots_def using assms(2)
    by (intro member_le_sum_list) (auto intro!: bexI [of _ "pl_slots s ! k"])
  then show ?thesis using assms(2) st
    by (simp add: in_slots_def assms(3) map_update sum_list_update)
qed

text \<open>With closed slots nothing is added: what is delivered was in a slot or in the hands of the
  consumer before.\<close>

lemma consumer_budget:
  assumes "consumer_turn P timed_out b1 b2 overlay s = (os, t)" "pipeline_shape s"
  shows "length (delivered os) + in_hand (pl_consumer t) + in_slots t \<le>
    in_hand (pl_consumer s) + in_slots s"
proof (cases "pl_consumer s")
  case CPop
  have k: "kCadenceCamera < length (pl_slots s)"
    using assms(2) CPop by (auto simp: pipeline_shape_def kCadenceCamera_def)
  obtain v sl' where tk: "slot_take (pl_slots s ! kCadenceCamera) = (v, sl')" by fastforce
  show ?thesis
    using assms(1) CPop tk in_slots_take [OF tk k, of t]
      filled_update [of "replicate (length (pl_cameras s)) None" kCadenceCamera v]
    by (auto simp: consumer_turn_def Let_def in_slots_def split: if_splits)
next
  case (CSample k latest)
  obtain v sl' where tk: "slot_take (pl_slots s ! k) = (v, sl')" by fastforce
  show ?thesis
  proof (cases "k < length (pl_cameras s)")
    case True
    then have "k < length (pl_slots s)" using assms(2) by (simp add: pipeline_shape_def)
    from in_slots_take [OF tk this, of t] show ?thesis
      using assms(1) CSample tk True filled_update [of latest k v]
      by (auto simp: consumer_turn_def slot_try_pop_def in_slots_def split: if_splits)
  next
    case False
    then show ?thesis using assms(1) CSample by (auto simp: consumer_turn_def in_slots_def)
  qed
next
  case (CDecide latest)
  have slots: "in_slots t = in_slots s"
    using assms(1) CDecide by (auto simp: consumer_turn_def Let_def in_slots_def split: turn_splits)
  consider "os = []" "pl_consumer t = CCheck \<or> pl_consumer t = pl_consumer s"
    | j bd f where "os = [Shown j bd f]" "j < length latest" "latest ! j = Some bd"
        "pl_consumer t = CStore f"
    using assms(1) CDecide by (auto simp: consumer_turn_def Let_def split: turn_splits)
  then show ?thesis
  proof cases
    case 2
    then show ?thesis using filled_some [OF 2(2,3)] by (simp add: slots CDecide observed_defs)
  qed (auto simp: slots CDecide)
qed (insert assms, auto simp: consumer_turn_def in_slots_def observed_defs split: if_splits)

lemma producer_budget:
  assumes "producer_turn P i b1 b2 s = (os, t)" "all_closed s" "i < length (pl_slots s)"
  shows "in_slots t = in_slots s \<and> delivered os = [] \<and> pl_consumer t = pl_consumer s"
proof (cases "pl_producers s ! i")
  case (PPush bd)
  then have t: "pl_slots t = (pl_slots s)[i := snd (slot_push bd (pl_slots s ! i))]"
    using assms(1) by (auto simp: producer_turn_def Let_def)
  have "map (\<lambda>sl. length (stored sl)) (pl_slots t) = map (\<lambda>sl. length (stored sl)) (pl_slots s)"
    using assms(2,3) slot_push_stored [of bd "pl_slots s ! i"]
    by (intro nth_equalityI) (auto simp: t all_closed_def nth_list_update)
  then show ?thesis using producer_observes [OF assms(1)] producer_turn_frame [OF assms(1)]
    by (simp add: in_slots_def)
qed (insert assms, auto simp: producer_turn_def in_slots_def observed_defs Let_def
      split: option.splits prod.splits outcome.splits if_splits)

lemma pipeline_budget:
  assumes "all_closed s" "pipeline_shape s" "pipeline_run P ts s = (os, s')"
  shows "length (delivered os) \<le> in_hand (pl_consumer s) + in_slots s"
proof -
  let ?I = "\<lambda>os s1. all_closed s1 \<and> pipeline_shape s1 \<and>
    length (delivered os) + in_hand (pl_consumer s1) + in_slots s1 \<le>
      in_hand (pl_consumer s) + in_slots s"
  have "?I (fst (pipeline_run P ts s)) (snd (pipeline_run P ts s))"
  proof (rule pipeline_run_invariant [where I = ?I])
    fix t os1 and s1 :: "('a, 'b, 'c, 'd) orchestrator"
    assume I: "?I os1 s1"
    obtain os' s2 where t: "pipeline_turn P t s1 = (os', s2)" by fastforce
    have "all_closed s2 \<and> length (delivered os') + in_hand (pl_consumer s2) + in_slots s2 \<le>
        in_hand (pl_consumer s1) + in_slots s1"
    proof (cases rule: pipeline_turn_cases [where P = P and t = t and s = s1])
      case (2 i b1 b2)
      then have "producer_turn P i b1 b2 s1 = (os', s2)" "i < length (pl_slots s1)"
        using t I by (auto simp: pipeline_shape_def)
      then show ?thesis using producer_budget producer_closed I by fastforce
    next
      case (3 timed_out b1 b2 overlay)
      then have "consumer_turn P timed_out b1 b2 overlay s1 = (os', s2)" using t by simp
      then show ?thesis using consumer_budget consumer_closed I by blast
    qed (use t I in auto)
    then show "?I (os1 @ fst (pipeline_turn P t s1)) (snd (pipeline_turn P t s1))"
      using I pipeline_turn_shape [OF _ t] by (simp add: t)
  qed (use assms in simp)
  then show ?thesis using assms(3) by simp
qed

lemma stop_finish_keeps:
  "stop_finish P s = Some s' \<Longrightarrow>
   pl_slots s' = pl_slots s \<and> pl_producers s' = [] \<and> pl_consumer s' = CDone \<and>
   pl_running s' = pl_running s \<and> length (pl_cameras s') = length (pl_cameras s)"
  by (auto simp: stop_finish_def threads_done_def split: if_splits)

text \<open>C13: A pipeline that was stopped does not come back: Start answers true again and runs every
  thread, but the slots stay closed, so however long it runs it delivers at most the bundles that
  were left in the slots when it was stopped; every new frame is dropped.\<close>

theorem restart_starves:
  fixes s :: "('f camera_rig, unit, 'k option list, 'r) orchestrator"
  assumes "pipeline_shape s" "pl_running s"
    "pipeline_run (device_ports cv D push raw) ts (stop_signal s) = (os, s1)"
    "stop_finish (device_ports cv D push raw) s1 = Some s2"
    "pipeline_start (device_ports cv D push raw) s2 = (True, s3)"
    "pipeline_run (device_ports cv D push raw) ts' s3 = (os', s4)"
  shows "length (delivered os') \<le> in_slots s1"
proof -
  let ?P = "device_ports cv D push raw"
  have start: "all_closed (stop_signal s)" "pipeline_shape (stop_signal s)" "\<not> pl_running (stop_signal s)"
    using assms(1,2) by (auto simp: stop_signal_def all_closed_def slot_close_def pipeline_shape_def)
  let ?I = "\<lambda>os s1. all_closed s1 \<and> pipeline_shape s1 \<and> \<not> pl_running s1"
  have "?I (fst (pipeline_run ?P ts (stop_signal s))) (snd (pipeline_run ?P ts (stop_signal s)))"
  proof (rule pipeline_run_invariant [where I = ?I])
    fix t os1 and s1 :: "('f camera_rig, unit, 'k option list, 'r) orchestrator"
    assume I: "?I os1 s1"
    obtain os' s2 where t: "pipeline_turn ?P t s1 = (os', s2)" by fastforce
    have "all_closed s2 \<and> \<not> pl_running s2"
    proof (cases rule: pipeline_turn_cases [where P = ?P and t = t and s = s1])
      case (2 i b1 b2)
      then have "producer_turn ?P i b1 b2 s1 = (os', s2)" using t by simp
      then show ?thesis using producer_closed producer_turn_frame I by metis
    next
      case (3 timed_out b1 b2 overlay)
      then have "consumer_turn ?P timed_out b1 b2 overlay s1 = (os', s2)" using t by simp
      then show ?thesis using consumer_closed consumer_turn_frame I by metis
    qed (use t I in auto)
    then show "?I (os1 @ fst (pipeline_turn ?P t s1)) (snd (pipeline_turn ?P t s1))"
      using I pipeline_turn_shape [OF _ t] by (simp add: t)
  qed (use start in simp)
  then have s1: "all_closed s1" "pipeline_shape s1" "\<not> pl_running s1" using assms(3) by simp_all
  note s2 = stop_finish_keeps [OF assms(4)]
  have "\<not> pl_running s2" using s1 s2 by simp
  from device_cameras.start_result [OF assms(5) this]
  have s3: "pl_slots s3 = pl_slots s1" "pl_consumer s3 = CCheck"
    "length (pl_cameras s3) = length (pl_cameras s1)"
    "pl_producers s3 = replicate (length (pl_cameras s1)) PCheck"
    using s2 by auto
  have "pl_cameras s2 \<noteq> []" using assms(5) \<open>\<not> pl_running s2\<close>
    by (auto simp: pipeline_start_def split: if_splits)
  then have "all_closed s3" "pipeline_shape s3"
    using s1 s2 s3 by (auto simp: all_closed_def pipeline_shape_def)
  from pipeline_budget [OF this assms(6)] show ?thesis
    by (simp add: s3 in_slots_def)
qed

section \<open>A pipeline at work\<close>

definition work_rig :: "nat camera_rig" where
  "work_rig =
     \<lparr>rig_camera = camera_new (default_camera_config 1) ''v1'' 0, rig_calls = 0,
      rig_starts = (\<lambda>n. test_camera_start),
      rig_inputs = (\<lambda>n. (5, [], [test_sample], [0 \<mapsto> [10, 20, 30, 40, 50, 60]]))\<rparr>"

definition append_frame :: "frame \<Rightarrow> frame list \<Rightarrow> frame list" where
  "append_frame f fs = fs @ [f]"

definition work_ports ::
  "(nat camera_rig, unit, frame list option list, frame list, rat) pipeline_ports" where
  "work_ports = device_ports small_cv exact_ops append_frame (\<lambda>i. append_frame)"

text \<open>The same with pictures of two by two pixels.\<close>

definition tiny_ports ::
  "(nat camera_rig, unit, frame list option list, frame list, rat) pipeline_ports" where
  "tiny_ports = work_ports
     \<lparr>pt_preprocess := (\<lambda>i. preprocess small_cv
        \<lparr>pc_ai_width = 2, pc_ai_height = 2, pc_color_mode = Grayscale, pc_threshold = 127\<rparr>),
      pt_postprocess := postprocess small_cv \<lparr>qc_width = 2, qc_height = 2, qc_format = BGR8\<rparr>\<rparr>"

definition work_pipeline :: "(nat camera_rig, unit, frame list option list, frame list) orchestrator" where
  "work_pipeline = orchestrator_new [work_rig] () [Some [], None] [] (\<lambda>b. None)"

definition work_started :: "(nat camera_rig, unit, frame list option list, frame list) orchestrator" where
  "work_started = snd (pipeline_start work_ports work_pipeline)"

lemma work_start: "pipeline_start work_ports work_pipeline = (True, work_started)"
proof -
  have "fst (pipeline_start work_ports work_pipeline)" by code_simp
  then show ?thesis by (simp add: work_started_def prod_eq_iff)
qed

lemma work_pipeline_state:
  "\<not> pl_running work_pipeline" "length (pl_cameras work_pipeline) = 1"
  "pl_slots work_pipeline = [slot_new]"
  by (simp_all add: work_pipeline_def orchestrator_new_def)

lemma work_started_state:
  "pl_running work_started" "length (pl_cameras work_started) = 1" "just_started work_started"
  "pipeline_shape work_started" "pl_slots work_started = [slot_new]"
  using device_cameras.start_result [OF work_start [unfolded work_ports_def] work_pipeline_state(1)]
    work_pipeline_state
  by (auto simp: just_started_def pipeline_shape_def)

theorem start_all_or_nothing_witness:
  "pl_running work_started \<and> camera_is_running (rig_camera (hd (pl_cameras work_started)))"
proof -
  have "hd (pl_cameras work_started) \<in> set (pl_cameras work_started)"
    using work_started_state(2) by (cases "pl_cameras work_started") auto
  then show ?thesis
    using start_all_or_nothing [OF work_start [unfolded work_ports_def] work_pipeline_state(1)] by simp
qed

text \<open>One frame from the sensor to the sink, the producer and the consumer in turns.\<close>

definition work_schedule :: "thread_turn list" where
  "work_schedule =
     ConsumerTurn False 0 0 None # ConsumerTurn False 0 0 None #
     replicate 5 (ProducerTurn 0 1 2) @ replicate 6 (ConsumerTurn False 3 4 None)"

definition work_result ::
  "observation list \<times> (nat camera_rig, unit, frame list option list, frame list) orchestrator" where
  "work_result = pipeline_run tiny_ports work_schedule work_started"

lemma work_delivers: "length (delivered (fst work_result)) = 1 \<and> length (shown 0 (fst work_result)) = 1"
  by code_simp

theorem frames_in_order_witness:
  "subseq (shown 0 (fst work_result)) (queued 0 (fst work_result)) \<and>
   shown 0 (fst work_result) \<noteq> []"
proof -
  have "pipeline_run tiny_ports work_schedule work_started = (fst work_result, snd work_result)"
    by (simp add: work_result_def)
  from frames_in_order [OF work_started_state(3) this, of 0]
  show ?thesis using work_delivers by (auto simp: work_started_state slot_new_def)
qed

theorem snapshot_current_witness:
  "grab_latest (snd work_result) = Some (last (delivered (fst work_result))) \<or>
   grab_latest (snd work_result) = Some (last (rendered (fst work_result)))"
proof -
  have "pipeline_run tiny_ports work_schedule work_started = (fst work_result, snd work_result)"
    by (simp add: work_result_def)
  from snapshot_current [OF work_started_state(3) this]
  show ?thesis using work_delivers by fastforce
qed

definition stop_schedule :: "thread_turn list" where
  "stop_schedule = replicate 5 (ProducerTurn 0 1 2) @ replicate 7 (ConsumerTurn False 3 4 None)"

definition work_stopped :: "(nat camera_rig, unit, frame list option list, frame list) orchestrator" where
  "work_stopped = snd (pipeline_run work_ports stop_schedule (stop_signal work_started))"

lemma work_stopped_state: "\<not> pl_crashed work_stopped \<and> in_slots work_stopped = 0"
  by code_simp

theorem stop_ends_threads_witness:
  "stop_finish work_ports work_stopped =
     Some (work_stopped\<lparr>pl_cameras := map (pt_stop work_ports) (pl_cameras work_stopped),
                        pl_producers := []\<rparr>) \<and>
   \<not> pipeline_is_running work_stopped"
proof (rule stop_ends_threads [OF work_started_state(4,1)])
  show "pipeline_run work_ports stop_schedule (stop_signal work_started) =
      (fst (pipeline_run work_ports stop_schedule (stop_signal work_started)), work_stopped)"
    by (simp add: work_stopped_def)
  show "\<forall>i < length (pl_cameras work_started). 5 \<le> producer_turns i stop_schedule"
    by (simp add: work_started_state stop_schedule_def producer_turns_def)
  show "length (pl_cameras work_started) + 6 \<le> consumer_turns stop_schedule"
    by (simp add: work_started_state stop_schedule_def consumer_turns_def)
qed (simp add: work_stopped_state)

definition work_again :: "(nat camera_rig, unit, frame list option list, frame list) orchestrator" where
  "work_again = snd (pipeline_start work_ports (the (stop_finish work_ports work_stopped)))"

lemma work_again_start:
  "stop_finish work_ports work_stopped = Some (the (stop_finish work_ports work_stopped))"
  "pipeline_start work_ports (the (stop_finish work_ports work_stopped)) = (True, work_again)"
proof -
  have "stop_finish work_ports work_stopped \<noteq> None \<and>
      fst (pipeline_start work_ports (the (stop_finish work_ports work_stopped)))" by code_simp
  then show "stop_finish work_ports work_stopped = Some (the (stop_finish work_ports work_stopped))"
    "pipeline_start work_ports (the (stop_finish work_ports work_stopped)) = (True, work_again)"
    by (simp_all add: work_again_def prod_eq_iff)
qed

theorem restart_starves_witness:
  "pl_running work_again \<and> (\<forall>ts. delivered (fst (pipeline_run work_ports ts work_again)) = [])"
proof -
  have run: "pipeline_run work_ports stop_schedule (stop_signal work_started) =
      (fst (pipeline_run work_ports stop_schedule (stop_signal work_started)), work_stopped)"
    by (simp add: work_stopped_def)
  have "length (delivered (fst (pipeline_run work_ports ts work_again))) \<le> in_slots work_stopped" for ts
    by (rule restart_starves [OF work_started_state(4,1) run [unfolded work_ports_def]
        work_again_start [unfolded work_ports_def], of ts _ "snd (pipeline_run work_ports ts work_again)"])
      (simp add: work_ports_def)
  moreover have "pl_running work_again" by code_simp
  ultimately show ?thesis using work_stopped_state by simp
qed

end
