(* ===== verification/PipelineFlow.thy ===== *)
theory PipelineFlow
  imports PipelineStop
begin

text \<open>
  The stages of a picture: the sample GStreamer delivers, preprocessing and the deep copy,
  StaticDecision and the postprocessor, and the turn of the consumer that decides; and what the
  orchestrator needs from a decision.  Theory FrameJourney composes them over whole runs.
\<close>

section \<open>StaticDecision\<close>

text \<open>StaticDecision only ever names a camera that has a frame this tick, always camera 0, with a
  crop that is the whole picture and so lies inside it; it chooses nothing exactly when camera 0
  has no frame or one without area.\<close>

theorem static_decide_full_frame:
  "case static_decide cameras of
     None \<Rightarrow> cameras = [] \<or> hd cameras = None \<or>
       (\<exists>b. hd cameras = Some b \<and>
          (fg_width (fr_geometry (fb_source b)) = 0 \<or> fg_height (fr_geometry (fb_source b)) = 0))
   | Some choice \<Rightarrow>
       \<exists>b. unat (ch_index choice) < length cameras \<and> cameras ! unat (ch_index choice) = Some b \<and>
         unat (ch_index choice) = 0 \<and> crop_inside (fr_geometry (fb_source b)) (ch_crop choice) \<and>
         unat (cr_width (ch_crop choice)) = unat (fg_width (fr_geometry (fb_source b))) \<and>
         unat (cr_height (ch_crop choice)) = unat (fg_height (fr_geometry (fb_source b)))"
  by (cases cameras)
     (auto simp: static_decide_def kCamera0Index_def crop_inside_def Let_def unat_gt_0
      split: option.splits)

text \<open>What the orchestrator needs from a decision: it names a camera that has a frame, and a crop inside
  that frame.\<close>

locale decision_port =
  fixes decide :: "frame_bundle option list \<Rightarrow> camera_choice option"
  assumes sound: "decide latest = Some c \<Longrightarrow> unat (ch_index c) < length latest \<and>
    (\<exists>b. latest ! unat (ch_index c) = Some b \<and> crop_inside (fr_geometry (fb_source b)) (ch_crop c))"
begin

text \<open>Then the checks on its answer never turn a choice away: the turn renders it.\<close>

lemma decided_turn:
  assumes "pl_consumer s = CDecide latest" "pt_decide P latest (pl_decision s) = (decide latest, d)"
    and "decide latest = Some c"
  shows "\<exists>b. latest ! unat (ch_index c) = Some b \<and> crop_inside (fr_geometry (fb_source b)) (ch_crop c) \<and>
    consumer_turn P timed_out b1 b2 overlay s =
      (case render_choice P b1 b2 overlay (pl_memory s) b (ch_crop c) of
         Crash \<Rightarrow> ([], s\<lparr>pl_decision := d, pl_crashed := True\<rparr>)
       | Nothing \<Rightarrow> ([], s\<lparr>pl_decision := d, pl_consumer := CCheck\<rparr>)
       | Got (f, m) \<Rightarrow>
           ([Shown (unat (ch_index c)) b f], s\<lparr>pl_decision := d, pl_memory := m, pl_consumer := CStore f\<rparr>))"
  using sound [OF assms(3)] assms by (auto simp: consumer_turn_def Let_def)

end

interpretation static: decision_port static_decide
proof unfold_locales
  fix latest c
  assume "static_decide latest = Some c"
  then show "unat (ch_index c) < length latest \<and>
      (\<exists>b. latest ! unat (ch_index c) = Some b \<and> crop_inside (fr_geometry (fb_source b)) (ch_crop c))"
    using static_decide_full_frame [of latest] by auto
qed

section \<open>Tight NV12 frames\<close>

text \<open>Planes of exactly stride times rows bytes that can be read.\<close>

definition tight_nv12 :: "memory \<Rightarrow> frame \<Rightarrow> bool" where
  "tight_nv12 m f \<longleftrightarrow>
     fr_format f = NV12 \<and> fr_memory f = CPU \<and>
     (let w = fg_width (fr_geometry f); h = fg_height (fr_geometry f)
      in w mod 2 = 0 \<and> h mod 2 = 0 \<and> w \<noteq> 0 \<and> h \<noteq> 0 \<and> unat w < 2 ^ 30 \<and> unat h < 2 ^ 30 \<and>
         (case fr_planes f of
            [y, uv] \<Rightarrow>
              fp_data y \<noteq> None \<and> fp_data uv \<noteq> None \<and>
              unat w \<le> unat (fp_stride y) \<and> unat w \<le> unat (fp_stride uv) \<and>
              fp_size y = unat (fp_stride y) * unat h \<and>
              fp_size uv = unat (fp_stride uv) * (unat h div 2) \<and>
              plane_readable m y \<and> plane_readable m uv
          | _ \<Rightarrow> False))"

text \<open>The picture rows of a plane.\<close>

definition picture_rows :: "memory \<Rightarrow> frame_plane \<Rightarrow> nat \<Rightarrow> nat \<Rightarrow> u8 list list" where
  "picture_rows m p w n =
     map (\<lambda>r. take w (drop (r * unat (fp_stride p)) (plane_bytes m p))) [0..<n]"

lemma those_map_Some: "those (map (\<lambda>x. Some (f x)) xs) = Some (map f xs)"
  by (induction xs) auto

lemma plane_rows_picture:
  assumes "plane_readable m p" "fp_data p \<noteq> None" "0 < fp_size p"
    "fp_size p = unat (fp_stride p) * n" "w \<le> unat (fp_stride p)"
  shows "plane_rows m p w n = Some (picture_rows m p w n)"
proof -
  let ?s = "unat (fp_stride p)"
  obtain b off where d: "fp_data p = Some (b, off)" using assms(2) by (cases "fp_data p") auto
  obtain bs where bs: "m b = Some bs" "off + fp_size p \<le> length bs"
    "plane_bytes m p = take (fp_size p) (drop off bs)"
    using assms(1-3) by (auto simp: plane_readable_def plane_bytes_def read_bytes_def d split: option.splits if_splits)
  have "read_bytes m (addr_plus (fp_data p) (r * ?s)) w =
      Some (take w (drop (r * ?s) (plane_bytes m p)))" if "r < n" for r
  proof -
    have "Suc r * ?s \<le> n * ?s" using that by (intro mult_right_mono) auto
    then have le: "r * ?s + w \<le> fp_size p" using assms(4,5) by (simp add: mult.commute)
    then have "min w (fp_size p - r * ?s) = w" by simp
    then show ?thesis using le bs
      by (simp add: read_bytes_def addr_plus_def d drop_take add.commute)
  qed
  then have "map (\<lambda>r. read_bytes m (addr_plus (fp_data p) (r * ?s)) w) [0..<n] =
      map (\<lambda>r. Some (take w (drop (r * ?s) (plane_bytes m p)))) [0..<n]"
    by (intro map_cong) auto
  then show ?thesis unfolding plane_rows_def read_rows_def picture_rows_def
    by (simp only: those_map_Some)
qed

lemma tight_nv12_ok:
  assumes "tight_nv12 m f"
  obtains y uv where "fr_planes f = [y, uv]"
    "nv12_ok m f
       (picture_rows m y (unat (fg_width (fr_geometry f))) (unat (fg_height (fr_geometry f))))
       (picture_rows m uv (unat (fg_width (fr_geometry f))) (unat (fg_height (fr_geometry f)) div 2))"
proof -
  define w where "w = fg_width (fr_geometry f)"
  define h where "h = fg_height (fr_geometry f)"
  obtain y uv where p: "fr_planes f = [y, uv]"
    using assms by (auto simp: tight_nv12_def Let_def split: list.splits)
  have k: "fr_format f = NV12" "fr_memory f = CPU" "w mod 2 = 0" "h mod 2 = 0" "w \<noteq> 0" "h \<noteq> 0"
    "unat w < 2 ^ 30" "unat h < 2 ^ 30" "fp_data y \<noteq> None" "fp_data uv \<noteq> None"
    "unat w \<le> unat (fp_stride y)" "unat w \<le> unat (fp_stride uv)"
    "fp_size y = unat (fp_stride y) * unat h" "fp_size uv = unat (fp_stride uv) * (unat h div 2)"
    "plane_readable m y" "plane_readable m uv"
    using assms p by (simp_all add: tight_nv12_def Let_def w_def h_def)
  have pos: "0 < unat w" "0 < unat h" using k(5,6) by (simp_all add: unat_gt_0)
  have "0 < unat h div 2" using word_even_nat [OF k(4)] pos(2) by (auto elim!: evenE)
  then have sz: "0 < fp_size y" "0 < fp_size uv" using pos k(11-14) by simp_all
  note rows = plane_rows_picture [OF k(15,9) sz(1) k(13,11)] plane_rows_picture [OF k(16,10) sz(2) k(14,12)]
  show thesis
    by (rule that [OF p])
       (use k rows in \<open>simp add: nv12_ok_def Let_def p w_def [symmetric] h_def [symmetric] planes_contiguous_def\<close>)
qed

section \<open>Copies keep the picture\<close>

lemma plane_other_block:
  assumes "plane_readable m p" "m b = None"
  shows "plane_readable (m(b \<mapsto> xs)) p" "plane_bytes (m(b \<mapsto> xs)) p = plane_bytes m p"
  using assms read_bytes_other [of m "fp_data p" "fp_size p" b xs]
  by (auto simp: plane_readable_def plane_bytes_def)

lemma tight_other_block:
  assumes "tight_nv12 m f" "m b = None"
  shows "tight_nv12 (m(b \<mapsto> xs)) f"
    "\<And>p. p \<in> set (fr_planes f) \<Longrightarrow> plane_bytes (m(b \<mapsto> xs)) p = plane_bytes m p"
  using assms plane_other_block [of m _ b xs]
  by (auto simp: tight_nv12_def Let_def split: list.splits)

lemma tight_readable: "tight_nv12 m f \<Longrightarrow> \<forall>p \<in> set (fr_planes f). plane_readable m p"
  by (auto simp: tight_nv12_def Let_def split: list.splits)

lemma materialize_frame_eq:
  assumes "m b = None" "\<forall>p \<in> set (fr_planes src). plane_readable m p"
  shows "materialize_frame b src m =
    Some (src\<lparr>fr_planes := layout b 0 (fr_planes src), fr_owner := Some b\<rparr>,
          m(b \<mapsto> concat (map (plane_bytes m) (fr_planes src))))"
  using copy_planes_spec [of m b "fr_planes src" "[]" 0] assms by (simp add: materialize_frame_def)

text \<open>The copy shows the same picture in every later memory that keeps its own block.\<close>

lemma materialize_tight:
  assumes "tight_nv12 m f" "m b = None"
  obtains src m1 where "materialize_frame b f m = Some (src, m1)"
    "fr_id src = fr_id f" "fr_captured_at src = fr_captured_at f" "fr_geometry src = fr_geometry f"
    "\<And>m2. m2 b = m1 b \<Longrightarrow> tight_nv12 m2 src"
    "\<And>m2 y uv y' uv'. \<lbrakk>m2 b = m1 b; fr_planes f = [y, uv]; fr_planes src = [y', uv']\<rbrakk> \<Longrightarrow>
       picture_rows m2 y' = picture_rows m y \<and> picture_rows m2 uv' = picture_rows m uv"
proof -
  obtain y uv where p: "fr_planes f = [y, uv]"
    using assms by (auto simp: tight_nv12_def Let_def split: list.splits)
  note rd = tight_readable [OF assms(1)]
  define src where "src = f\<lparr>fr_planes := layout b 0 (fr_planes f), fr_owner := Some b\<rparr>"
  define m1 where "m1 = m(b \<mapsto> concat (map (plane_bytes m) (fr_planes f)))"
  note mat = materialize_frame_eq [OF assms(2) rd, folded src_def m1_def] src_def m1_def
  have bytes: "map (plane_bytes m2) (fr_planes src) = map (plane_bytes m) (fr_planes f)"
    if "m2 b = m1 b" for m2
    using layout_bytes [OF rd, of m2 b "[]" 0] that by (simp add: src_def m1_def)
  have len: "length (plane_bytes m y) = fp_size y" "length (plane_bytes m uv) = fp_size uv"
    using rd p by (simp_all add: plane_bytes_length)
  have planes: "fr_planes src =
      [\<lparr>fp_stride = fp_stride y, fp_data = Some (b, 0), fp_size = fp_size y\<rparr>,
       \<lparr>fp_stride = fp_stride uv, fp_data = Some (b, fp_size y), fp_size = fp_size uv\<rparr>]"
    by (simp add: mat(2) p)
  have block: "m1 b = Some (plane_bytes m y @ plane_bytes m uv)" by (simp add: mat(3) p)
  have "tight_nv12 m2 src" if "m2 b = m1 b" for m2
    using assms(1) that block len
    by (auto simp: tight_nv12_def Let_def p planes plane_readable_def read_bytes_def mat(2))
  moreover have "picture_rows m2 y' = picture_rows m y \<and> picture_rows m2 uv' = picture_rows m uv"
    if "m2 b = m1 b" "fr_planes f = [y, uv]" "fr_planes src = [y', uv']" for m2 y uv y' uv'
    using bytes [of m2] that planes p by (auto simp: picture_rows_def fun_eq_iff)
  ultimately show thesis using that mat(1,2) by simp
qed

section \<open>From the sensor to the picture\<close>

lemma default_output_ok: "output_ok default_postprocess_config"
  by (simp add: output_ok_def default_postprocess_config_def)

text \<open>From a buffered NV12 frame on, whatever camera slots follow: the decision takes camera 0 in
  full, and the postprocessor makes the 1280 x 720 picture of the frame's own rows.\<close>

lemma buffered_to_sink:
  assumes "cv_documented cv" "alloc_ok cv src" "nv12_ok m3 src ys uvs"
    and area: "fg_width (fr_geometry src) \<noteq> 0" "fg_height (fr_geometry src) \<noteq> 0"
  shows "\<exists>choice bgr roi final.
      static_decide (Some (\<lparr>fb_source = src, fb_ai = ai\<rparr>) # others) = Some choice \<and>
      cv_nv12_to_bgr cv (nv12_image src ys uvs) = Some bgr \<and>
      cv_roi cv 0 0 (sint (fg_width (fr_geometry src))) (sint (fg_height (fr_geometry src))) bgr =
        Some roi \<and>
      cv_resize_linear cv 1280 720 roi = Some final \<and> mat_shape final 720 1280 3 \<and>
      postprocess cv default_postprocess_config b3 m3 src (ch_crop choice) =
        Got (owned_frame b3 final BGR8 (fr_id src) (fr_captured_at src),
             m3(b3 \<mapsto> concat (mt_data final)))"
proof -
  let ?crop = "\<lparr>cr_x = 0, cr_y = 0, cr_width = fg_width (fr_geometry src),
    cr_height = fg_height (fr_geometry src)\<rparr>"
  have choice: "static_decide (Some (\<lparr>fb_source = src, fb_ai = ai\<rparr>) # others) =
      Some \<lparr>ch_index = 0, ch_crop = ?crop\<rparr>"
    using area by (simp add: static_decide_def kCamera0Index_def Let_def)
  have inside: "crop_inside (fr_geometry src) ?crop" using area by (simp add: crop_inside_def unat_gt_0)
  from postprocess_spec [OF assms(1,3,2) default_output_ok, of ?crop b3] inside
  show ?thesis by (simp add: choice default_postprocess_config_def del: fun_upd_apply)
qed

text \<open>Preprocessing and the deep copy: the copy has the camera's rows in every later memory that
  keeps its block.\<close>

lemma camera_to_buffer:
  assumes "cv_documented cv" "tight_nv12 m raw" "alloc_ok cv raw" "fr_planes raw = [y, uv]"
    "m b1 = None" "m b2 = None" "b1 \<noteq> b2"
  defines "g \<equiv> fr_geometry raw"
  shows "\<exists>ai m1 src m2.
    preprocess cv default_preprocess_config b1 m raw = Got (\<lparr>fb_source = raw, fb_ai = ai\<rparr>, m1) \<and>
    materialize_frame b2 raw m1 = Some (src, m2) \<and>
    fr_id src = fr_id raw \<and> fr_captured_at src = fr_captured_at raw \<and> fr_geometry src = g \<and>
    (\<forall>m3. m3 b2 = m2 b2 \<longrightarrow>
       nv12_ok m3 src (picture_rows m y (unat (fg_width g)) (unat (fg_height g)))
         (picture_rows m uv (unat (fg_width g)) (unat (fg_height g) div 2)))"
proof -
  have ok: "nv12_ok m raw (picture_rows m y (unat (fg_width g)) (unat (fg_height g)))
      (picture_rows m uv (unat (fg_width g)) (unat (fg_height g) div 2))"
    by (rule tight_nv12_ok [OF assms(2)]) (simp add: assms(4) g_def)
  obtain x where pre: "preprocess cv default_preprocess_config b1 m raw =
      Got (\<lparr>fb_source = raw, fb_ai = owned_frame b1 x GRAY8 (fr_id raw) (fr_captured_at raw)\<rparr>,
           m(b1 \<mapsto> concat (mt_data x)))"
    using preprocess_spec [OF assms(1) ok assms(3), of default_preprocess_config b1]
    by (auto simp: default_preprocess_config_def ai_format_def simp del: fun_upd_apply)
  let ?m1 = "m(b1 \<mapsto> concat (mt_data x))"
  have m1: "tight_nv12 ?m1 raw" "?m1 b2 = None"
    "picture_rows ?m1 y = picture_rows m y" "picture_rows ?m1 uv = picture_rows m uv"
    using tight_other_block [OF assms(2,5)] assms(4,6,7)
    by (simp_all add: picture_rows_def fun_eq_iff del: fun_upd_apply) simp_all
  obtain src m2 where mat: "materialize_frame b2 raw ?m1 = Some (src, m2)"
    "fr_id src = fr_id raw" "fr_captured_at src = fr_captured_at raw" "fr_geometry src = fr_geometry raw"
    "\<And>m3. m3 b2 = m2 b2 \<Longrightarrow> tight_nv12 m3 src"
    "\<And>m3 y uv y' uv'. \<lbrakk>m3 b2 = m2 b2; fr_planes raw = [y, uv]; fr_planes src = [y', uv']\<rbrakk> \<Longrightarrow>
       picture_rows m3 y' = picture_rows ?m1 y \<and> picture_rows m3 uv' = picture_rows ?m1 uv"
    by (rule materialize_tight [OF m1(1,2)]; rule that; assumption)
  have "nv12_ok m3 src (picture_rows m y (unat (fg_width g)) (unat (fg_height g)))
         (picture_rows m uv (unat (fg_width g)) (unat (fg_height g) div 2))"
    if same: "m3 b2 = m2 b2" for m3
  proof -
    have tight: "tight_nv12 m3 src" using same by (rule mat(5))
    obtain y' uv' where "fr_planes src = [y', uv']" "nv12_ok m3 src
         (picture_rows m3 y' (unat (fg_width (fr_geometry src))) (unat (fg_height (fr_geometry src))))
         (picture_rows m3 uv' (unat (fg_width (fr_geometry src)))
            (unat (fg_height (fr_geometry src)) div 2))"
      by (rule tight_nv12_ok [OF tight])
    then show ?thesis
      using mat(6) [where ?m3.0 = m3, OF _ assms(4)] same m1(3,4) by (simp add: mat(4) g_def)
  qed
  then show ?thesis using pre mat(1-4) unfolding g_def by blast
qed

section \<open>The turn that decides\<close>

text \<open>What follows the postprocessor: nothing, or the overlay; a refused overlay leaves the picture.\<close>

definition picture_of :: "nat \<Rightarrow> mat \<Rightarrow> frame_bundle \<Rightarrow> frame" where
  "picture_of b x chosen = owned_frame b x BGR8 (fr_id (fb_source chosen)) (fr_captured_at (fb_source chosen))"

definition finished ::
  "'x double_ops \<Rightarrow> nat \<Rightarrow> rgba_image option \<Rightarrow> frame \<Rightarrow> memory \<Rightarrow> (frame \<times> memory) option" where
  "finished X b overlay picture m =
     (case overlay of
        None \<Rightarrow> Some (picture, m)
      | Some img \<Rightarrow>
          map_option (\<lambda>(g, m2). (case g of None \<Rightarrow> picture | Some f \<Rightarrow> f, m2))
            (composite_overlay X b picture img m))"

text \<open>The picture \<^verbatim>\<open>x\<close> of a usable frame: converted to BGR, cropped to the whole frame and scaled.\<close>

definition picture_from :: "cv_ops \<Rightarrow> frame \<Rightarrow> u8 list list \<Rightarrow> u8 list list \<Rightarrow> mat \<Rightarrow> bool" where
  "picture_from cv src ys uvs x \<longleftrightarrow>
     (\<exists>bgr roi. cv_nv12_to_bgr cv (nv12_image src ys uvs) = Some bgr \<and>
        cv_roi cv 0 0 (sint (fg_width (fr_geometry src))) (sint (fg_height (fr_geometry src))) bgr = Some roi \<and>
        cv_resize_linear cv 1280 720 roi = Some x)"

lemma picture_from_geometry:
  "fr_geometry src = fr_geometry raw \<Longrightarrow> picture_from cv src = picture_from cv raw"
  by (simp add: fun_eq_iff picture_from_def nv12_image_def)

lemma chosen_turn:
  fixes s :: "('f camera_rig, unit, 'k option list, 'r) orchestrator" and X :: "'x double_ops"
  assumes "cv_documented cv" "alloc_ok cv (fb_source chosen)" "nv12_ok (pl_memory s) (fb_source chosen) ys uvs"
    and "pl_consumer s = CDecide (Some chosen # others)"
  obtains x choice where "picture_from cv (fb_source chosen) ys uvs x" "mat_shape x 720 1280 3"
    "static_decide (Some chosen # others) = Some choice"
    "postprocess cv default_postprocess_config b1 (pl_memory s) (fb_source chosen) (ch_crop choice) =
       Got (picture_of b1 x chosen, (pl_memory s)(b1 \<mapsto> concat (mt_data x)))"
    "\<And>overlay. consumer_turn (device_ports cv X push raw) timed_out b1 b2 overlay s =
       (case finished X b2 overlay (picture_of b1 x chosen) ((pl_memory s)(b1 \<mapsto> concat (mt_data x))) of
          None \<Rightarrow> ([], s\<lparr>pl_crashed := True\<rparr>)
        | Some (f, m2) \<Rightarrow> ([Shown 0 chosen f], s\<lparr>pl_memory := m2, pl_consumer := CStore f\<rparr>))"
proof -
  have area: "fg_width (fr_geometry (fb_source chosen)) \<noteq> 0" "fg_height (fr_geometry (fb_source chosen)) \<noteq> 0"
    using assms(3) by (auto simp: nv12_ok_def Let_def)
  obtain ai where b: "chosen = \<lparr>fb_source = fb_source chosen, fb_ai = ai\<rparr>" by (cases chosen) simp
  obtain choice x where x: "mat_shape x 720 1280 3" "static_decide (Some chosen # others) = Some choice"
    "picture_from cv (fb_source chosen) ys uvs x"
    "postprocess cv default_postprocess_config b1 (pl_memory s) (fb_source chosen) (ch_crop choice) =
       Got (picture_of b1 x chosen, (pl_memory s)(b1 \<mapsto> concat (mt_data x)))"
    using buffered_to_sink [OF assms(1-3) area, of ai others b1]
    unfolding b [symmetric] picture_of_def picture_from_def by blast
  have index: "ch_index choice = 0"
    using x(2) by (auto simp: static_decide_def kCamera0Index_def Let_def split: if_splits)
  let ?P = "device_ports cv X push raw :: ('f camera_rig, unit, 'k option list, 'r, 'x) pipeline_ports"
  have "pt_decide ?P (Some chosen # others) (pl_decision s) = (static_decide (Some chosen # others), pl_decision s)"
    by (simp add: device_ports_def)
  note turn = static.decided_turn [OF assms(4) this x(2), of timed_out b1 b2, simplified index]
  have "render_choice ?P b1 b2 overlay (pl_memory s) chosen (ch_crop choice) =
      or_crash (finished X b2 overlay (picture_of b1 x chosen) ((pl_memory s)(b1 \<mapsto> concat (mt_data x)))) Got" for overlay
    using x(4)
    by (cases overlay) (auto simp: render_choice_def device_ports_def finished_def map_option_case
      simp del: fun_upd_apply split: option.splits)
  then have "consumer_turn ?P timed_out b1 b2 overlay s =
       (case finished X b2 overlay (picture_of b1 x chosen) ((pl_memory s)(b1 \<mapsto> concat (mt_data x))) of
          None \<Rightarrow> ([], s\<lparr>pl_crashed := True\<rparr>)
        | Some (f, m2) \<Rightarrow> ([Shown 0 chosen f], s\<lparr>pl_memory := m2, pl_consumer := CStore f\<rparr>))" for overlay
    using turn [of overlay] by (auto simp del: fun_upd_apply split: option.splits)
  then show thesis using x(1-4) that by blast
qed

section \<open>Samples\<close>

text \<open>GStreamer's NV12 layout, the chroma plane right behind the luma plane, gives a tight frame.\<close>

lemma nv12_sample_tight:
  assumes "gs_caps s = Some (Some \<lparr>vi_format = FMT_NV12, vi_width = w, vi_height = h,
      vi_planes = [(st, 0), (st', unat st * unat h)]\<rparr>)" "gs_buffer s"
    "gs_map s = Some (Some (b, k), unat st * unat h + unat st' * (unat h div 2))"
    "m b = Some bs" "k + unat st * unat h + unat st' * (unat h div 2) \<le> length bs"
    "w mod 2 = 0" "h mod 2 = 0" "w \<noteq> 0" "h \<noteq> 0" "unat w < 2 ^ 30" "unat h < 2 ^ 30"
    "unat w \<le> unat st" "unat w \<le> unat st'"
  shows "case create_frame now (Some s) n of
      (Some f, calls, n') \<Rightarrow> tight_nv12 m f \<and> fr_id f = n | (None, calls, n') \<Rightarrow> False"
proof -
  have pos: "0 < unat w" "0 < unat h" using assms(8,9) by (simp_all add: unat_gt_0)
  have "0 < unat h div 2" using word_even_nat [OF assms(7)] pos(2) by (auto elim!: evenE)
  then have p: "0 < unat st * unat h" "0 < unat st' * (unat h div 2)"
    using pos assms(12,13) by simp_all
  show ?thesis
    using assms p pos
    by (simp add: create_frame_def plane_end_def tight_nv12_def plane_readable_def read_bytes_def
        Let_def add.assoc)
qed

end
