(* ===== verification/FrameJourney.thy ===== *)
theory FrameJourney
  imports PipelineFlow
begin

text \<open>
  One frame on its way through the running pipeline, whatever the other threads do meanwhile:
  which blocks of memory a turn writes, what a stretch of turns without one thread leaves alone,
  and the stages of the frame from the camera over the slot and the decision to the sink.
\<close>

section \<open>Blocks\<close>

fun turn_blocks :: "thread_turn \<Rightarrow> nat list" where
  "turn_blocks (ProducerTurn i b1 b2) = [b1, b2]"
| "turn_blocks (ConsumerTurn timed_out b1 b2 overlay) = [b1, b2]"

lemma write_bytes_block: "\<lbrakk>write_bytes m b off xs = Some m1; c \<noteq> b\<rbrakk> \<Longrightarrow> m1 c = m c"
  by (auto simp: write_bytes_def split: option.splits if_splits)

lemma put_rows_block: "\<lbrakk>put_rows b rb x rs m = Some m1; c \<noteq> b\<rbrakk> \<Longrightarrow> m1 c = m c"
  by (induction b rb x rs m rule: put_rows.induct)
     (auto dest: write_bytes_block split: if_splits option.splits)

lemma make_owned_frame_block:
  "\<lbrakk>make_owned_frame b m x fmt i t = Some (f, m1); c \<noteq> b\<rbrakk> \<Longrightarrow> m1 c = m c"
  by (auto simp: make_owned_frame_def Let_def dest: put_rows_block split: if_splits option.splits)

lemma copy_planes_block: "\<lbrakk>copy_planes b off ps m = Some (qs, m1); c \<noteq> b\<rbrakk> \<Longrightarrow> m1 c = m c"
proof (induction ps arbitrary: off m qs)
  case (Cons p ps)
  then show ?case by (fastforce dest: write_bytes_block split: option.splits prod.splits if_splits)
qed simp

lemma materialize_block: "\<lbrakk>materialize_frame b f m = Some (src, m1); c \<noteq> b\<rbrakk> \<Longrightarrow> m1 c = m c"
  by (auto simp: materialize_frame_def dest!: copy_planes_block split: option.splits)

lemma composite_block: "\<lbrakk>composite_overlay D b f img m = Some (g, m1); c \<noteq> b\<rbrakk> \<Longrightarrow> m1 c = m c"
  by (auto simp: composite_overlay_def Let_def split: if_splits option.splits prod.splits)

lemma or_crash_Got: "or_crash v k = Got r \<longleftrightarrow> (\<exists>x. v = Some x \<and> k x = Got r)"
  by (cases v) simp_all

lemma on_value_Got: "on_value v k = Got r \<longleftrightarrow> (\<exists>x. v = Got x \<and> k x = Got r)"
  by (cases v) simp_all

lemma preprocess_block: "\<lbrakk>preprocess cv cfg b m f = Got (x, m1); c \<noteq> b\<rbrakk> \<Longrightarrow> m1 c = m c"
  by (auto simp: preprocess_def Let_def on_value_Got or_crash_Got dest: make_owned_frame_block
    split: if_splits list.splits)

lemma postprocess_block: "\<lbrakk>postprocess cv cfg b m f crop = Got (x, m1); c \<noteq> b\<rbrakk> \<Longrightarrow> m1 c = m c"
  by (auto simp: postprocess_def on_value_Got or_crash_Got dest: make_owned_frame_block split: if_splits)

text \<open>What the threads need from the ports to share memory: a processor writes its own block only, and
  a camera leaves the blocks alone that it avoids.\<close>

locale block_discipline =
  fixes P :: "('c, 'd, 'k, 'r, 'x) pipeline_ports" and avoids :: "nat \<Rightarrow> 'c \<Rightarrow> bool"
  assumes capture_keeps: "\<lbrakk>pt_capture P m c = (got, m1, c1); avoids b c\<rbrakk> \<Longrightarrow> m1 b = m b \<and> avoids b c1"
    and pre_keeps: "\<lbrakk>pt_preprocess P i b1 m f = Got (x, m1); b \<noteq> b1\<rbrakk> \<Longrightarrow> m1 b = m b"
    and post_keeps: "\<lbrakk>pt_postprocess P b1 m f crop = Got (g, m1); b \<noteq> b1\<rbrakk> \<Longrightarrow> m1 b = m b"
begin

text \<open>All cameras but those of \<^verbatim>\<open>K\<close> avoid the block.\<close>

definition spares :: "nat set \<Rightarrow> nat \<Rightarrow> ('c, 'd, 'k, 'r) orchestrator \<Rightarrow> bool" where
  "spares K b s \<longleftrightarrow> (\<forall>i < length (pl_cameras s). i \<notin> K \<longrightarrow> avoids b (pl_cameras s ! i))"

lemma producer_keeps:
  assumes "producer_turn P i b1 b2 s = (os, t)" "b \<noteq> b1" "b \<noteq> b2" "spares K b s" "i \<notin> K"
    "i < length (pl_cameras s)"
  shows "pl_memory t b = pl_memory s b \<and> spares K b t"
proof (cases "pl_producers s ! i")
  case PCapture
  obtain f m1 c1 where c: "pt_capture P (pl_memory s) (pl_cameras s ! i) = (f, m1, c1)" by (metis prod_cases3)
  have "avoids b (pl_cameras s ! i)" using assms(4-6) by (auto simp: spares_def)
  note k = capture_keeps [OF c this]
  moreover have "pl_cameras t = (pl_cameras s)[i := c1]" "pl_memory t = m1"
    using assms(1) PCapture c by (auto simp: producer_turn_def Let_def)
  ultimately show ?thesis using assms(4,6) by (simp add: spares_def nth_list_update)
next
  case (PProcess f)
  then show ?thesis
    using assms
    by (auto simp: producer_turn_def spares_def Let_def dest!: materialize_block [where c = b] pre_keeps [where b = b]
      split: turn_splits)
qed (use assms in \<open>auto simp: producer_turn_def spares_def Let_def split: turn_splits\<close>)

lemma render_keeps:
  assumes "render_choice P b1 b2 overlay m chosen crop = Got (f, m1)" "b \<noteq> b1" "b \<noteq> b2"
  shows "m1 b = m b"
proof -
  obtain g m2 where g: "pt_postprocess P b1 m (fb_source chosen) crop = Got (g, m2)"
    "(case overlay of None \<Rightarrow> Got (g, m2)
      | Some img \<Rightarrow> or_crash (composite_overlay (pt_double P) b2 g img m2) (\<lambda>(composited, m3).
          Got (case composited of None \<Rightarrow> g | Some f1 \<Rightarrow> f1, m3))) = Got (f, m1)"
    using assms(1) by (auto simp: render_choice_def on_value_Got)
  then have "m1 b = m2 b"
    using assms(3) by (cases overlay) (auto simp: or_crash_Got dest: composite_block)
  then show ?thesis using post_keeps [OF g(1) assms(2)] by simp
qed

lemma consumer_keeps:
  assumes "consumer_turn P timed_out b1 b2 overlay s = (os, t)" "b \<noteq> b1" "b \<noteq> b2"
  shows "pl_memory t b = pl_memory s b \<and> pl_cameras t = pl_cameras s"
  using assms
  by (auto simp: consumer_turn_def Let_def dest!: render_keeps [where b = b] split: turn_splits)

lemma turn_keeps:
  assumes "pipeline_turn P t s = (os, s')" "b \<notin> set (turn_blocks t)" "spares K b s" "pipeline_shape s"
    "\<forall>i \<in> K. \<not> is_producer i t"
  shows "pl_memory s' b = pl_memory s b \<and> spares K b s'"
proof (cases rule: pipeline_turn_cases [where P = P and t = t and s = s])
  case (2 i b1 b2)
  then have "i < length (pl_cameras s)" "i \<notin> K" using assms(4,5) by (auto simp: pipeline_shape_def)
  then show ?thesis using producer_keeps [of i b1 b2 s os s' b K] 2 assms by simp
next
  case (3 timed_out b1 b2 overlay)
  then show ?thesis using consumer_keeps [of timed_out b1 b2 overlay s os s' b] assms by (simp add: spares_def)
qed (use assms in simp)

lemma run_keeps:
  "\<lbrakk>pipeline_run P ts s = (os, s'); b \<notin> set (concat (map turn_blocks ts)); spares K b s; pipeline_shape s;
    \<forall>i \<in> K. producer_turns i ts = 0\<rbrakk> \<Longrightarrow>
   pl_memory s' b = pl_memory s b \<and> spares K b s'"
proof (induction ts arbitrary: s os)
  case (Cons t ts)
  obtain os1 s1 where t: "pipeline_turn P t s = (os1, s1)" by fastforce
  moreover obtain os2 where "pipeline_run P ts s1 = (os2, s')"
    using Cons.prems(1) t by (auto split: prod.splits)
  moreover have "\<forall>i \<in> K. \<not> is_producer i t" "\<forall>i \<in> K. producer_turns i ts = 0"
    using Cons.prems(5) by (auto simp: producer_turns_def split: if_splits)
  ultimately show ?case
    using Cons.IH [of s1 os2] turn_keeps [OF t, of b K] pipeline_turn_shape [OF Cons.prems(4) t] Cons.prems(2,3,4)
    by simp
qed simp

end

text \<open>The cameras of the device: GStreamer never maps the block.\<close>

definition rig_avoids :: "nat \<Rightarrow> 'f camera_rig \<Rightarrow> bool" where
  "rig_avoids b r \<longleftrightarrow> (\<forall>n. case rig_inputs r n of (now, ms, samples, blocks) \<Rightarrow> blocks b = None)"

interpretation device_blocks: block_discipline "device_ports cv D push raw" rig_avoids
  for cv D push raw
proof unfold_locales
  fix m c got m1 c1 b
  assume "pt_capture (device_ports cv D push raw) m c = (got, m1, c1)" "rig_avoids b c"
  then show "m1 b = m b \<and> rig_avoids b c1"
    by (auto simp: device_ports_def rig_capture_def rig_avoids_def map_add_def dest: spec [of _ "rig_calls c"]
      split: prod.splits)
qed (auto simp: device_ports_def dest: preprocess_block postprocess_block)

section \<open>Stretches of turns\<close>

lemma pipeline_run_append:
  "pipeline_run P (ts @ us) s =
     (case pipeline_run P ts s of
        (os, s1) \<Rightarrow> (case pipeline_run P us s1 of (os', s2) \<Rightarrow> (os @ os', s2)))"
  by (induction ts arbitrary: s) (auto split: prod.splits)

text \<open>What a run leaves as it is, and what it leaves as it is without a thread.\<close>

definition same_build :: "('c, 'd, 'k, 'r) orchestrator \<Rightarrow> ('c, 'd, 'k, 'r) orchestrator \<Rightarrow> bool" where
  "same_build s s' \<longleftrightarrow>
     length (pl_cameras s') = length (pl_cameras s) \<and> length (pl_producers s') = length (pl_producers s) \<and>
     map sl_closed (pl_slots s') = map sl_closed (pl_slots s) \<and> (pl_crashed s \<longrightarrow> pl_crashed s')"

lemma map_update_same: "f x = f (xs ! i) \<Longrightarrow> map f (xs[i := x]) = map f xs"
  by (cases "i < length xs") (auto simp: map_update list_update_beyond intro: list_update_same_conv [THEN iffD2])

lemma slot_take_closed: "slot_take sl = (v, sl') \<Longrightarrow> sl_closed sl' = sl_closed sl"
  by (auto simp: slot_take_def split: option.splits)

lemma producer_build:
  assumes "producer_turn P i b1 b2 s = (os, t)" "\<not> pl_crashed s"
  shows "same_build s t"
proof -
  have "pl_slots t = pl_slots s \<or> (\<exists>bd. pl_slots t = (pl_slots s)[i := snd (slot_push bd (pl_slots s ! i))])"
    using assms(1) by (auto simp: producer_turn_def Let_def split: turn_splits)
  then show ?thesis
    using producer_turn_frame [OF assms(1)] assms(2)
    by (auto simp: same_build_def slot_push_closed intro!: map_update_same)
qed

lemma consumer_build:
  assumes "consumer_turn P timed_out b1 b2 overlay s = (os, t)" "\<not> pl_crashed s"
  shows "same_build s t"
  using consumer_slots [OF assms(1)] consumer_turn_frame [OF assms(1)] assms(2)
  by (auto simp: same_build_def intro!: map_update_same dest: slot_take_closed)

lemma turn_build: "pipeline_turn P t s = (os, s') \<Longrightarrow> same_build s s'"
  by (cases rule: pipeline_turn_cases [where P = P and t = t and s = s])
     (simp_all add: producer_build consumer_build, simp add: same_build_def)

lemma run_build: "pipeline_run P ts s = (os, s') \<Longrightarrow> same_build s s'"
  by (induction ts arbitrary: s os) (auto dest!: turn_build simp: same_build_def split: prod.splits)

lemma run_shape: "\<lbrakk>pipeline_run P ts s = (os, s'); pipeline_shape s\<rbrakk> \<Longrightarrow> pipeline_shape s'"
  by (induction ts arbitrary: s os) (auto dest: pipeline_turn_shape split: prod.splits)

lemma run_alive: "\<lbrakk>pipeline_run P ts s = (os, s'); \<not> pl_crashed s'\<rbrakk> \<Longrightarrow> \<not> pl_crashed s"
  using run_build unfolding same_build_def by blast

text \<open>Without a turn of a producer, and without one of the consumer.\<close>

lemma producer_others:
  "producer_turn P j b1 b2 s = (os, t) \<Longrightarrow> i \<noteq> j \<Longrightarrow> pl_producers t ! i = pl_producers s ! i"
  by (auto simp: producer_turn_def Let_def split: turn_splits)

lemma turn_without_producer:
  "\<lbrakk>pipeline_turn P t s = (os, s'); \<not> is_producer i t\<rbrakk> \<Longrightarrow> pl_producers s' ! i = pl_producers s ! i"
  by (cases rule: pipeline_turn_cases [where P = P and t = t and s = s])
     (auto dest: producer_others [where i = i] consumer_turn_frame)

lemma run_without_producer:
  "\<lbrakk>pipeline_run P ts s = (os, s'); producer_turns i ts = 0\<rbrakk> \<Longrightarrow> pl_producers s' ! i = pl_producers s ! i"
  by (induction ts arbitrary: s os)
     (auto simp: producer_turns_def dest: turn_without_producer [where i = i] split: prod.splits if_splits)

lemma turn_without_consumer:
  "\<lbrakk>pipeline_turn P t s = (os, s'); \<not> is_consumer t\<rbrakk> \<Longrightarrow>
   pl_consumer s' = pl_consumer s \<and> pl_latest s' = pl_latest s \<and> pl_sink s' = pl_sink s \<and> delivered os = []"
  by (cases rule: pipeline_turn_cases [where P = P and t = t and s = s])
     (auto dest: producer_turn_frame producer_observes)

lemma run_without_consumer:
  "\<lbrakk>pipeline_run P ts s = (os, s'); consumer_turns ts = 0\<rbrakk> \<Longrightarrow>
   pl_consumer s' = pl_consumer s \<and> pl_latest s' = pl_latest s \<and> pl_sink s' = pl_sink s \<and> delivered os = []"
proof (induction ts arbitrary: s os)
  case (Cons t ts)
  obtain os1 s1 where t: "pipeline_turn P t s = (os1, s1)" by fastforce
  obtain os2 where ts: "pipeline_run P ts s1 = (os2, s')" "os = os1 @ os2"
    using Cons.prems(1) t by (auto split: prod.splits)
  have "\<not> is_consumer t" "consumer_turns ts = 0"
    using Cons.prems(2) by (auto simp: consumer_turns_def split: if_splits)
  then show ?case using Cons.IH [OF ts(1)] turn_without_consumer [OF t] ts(2) by simp
qed simp

text \<open>Cutting a schedule before a turn of a thread.\<close>

lemma cut_producer:
  "producer_turns i ts = Suc k \<Longrightarrow>
   \<exists>us b1 b2 vs. ts = us @ ProducerTurn i b1 b2 # vs \<and> producer_turns i us = 0 \<and> producer_turns i vs = k"
proof (induction ts)
  case (Cons t ts)
  show ?case
  proof (cases "is_producer i t")
    case True
    then show ?thesis using Cons.prems
      by (cases t) (auto simp: producer_turns_def intro!: exI [of _ "[]"])
  next
    case False
    then obtain us b1 b2 vs where "ts = us @ ProducerTurn i b1 b2 # vs" "producer_turns i us = 0"
      "producer_turns i vs = k"
      using Cons by (auto simp: producer_turns_def)
    then show ?thesis using False
      by (intro exI [of _ "t # us"] exI [of _ b1] exI [of _ b2] exI [of _ vs]) (simp add: producer_turns_def)
  qed
qed (simp add: producer_turns_def)

lemma cut_consumer:
  "consumer_turns ts = j + Suc k \<Longrightarrow>
   \<exists>us w b1 b2 v vs. ts = us @ ConsumerTurn w b1 b2 v # vs \<and> consumer_turns us = j \<and> consumer_turns vs = k"
proof (induction ts arbitrary: j)
  case (Cons t ts)
  show ?case
  proof (cases "is_consumer t \<and> j = 0")
    case True
    then show ?thesis using Cons.prems
      by (cases t) (auto simp: consumer_turns_def intro!: exI [of _ "[]"])
  next
    case False
    then have "consumer_turns ts = (if is_consumer t then j - 1 else j) + Suc k"
      using Cons.prems by (auto simp: consumer_turns_def split: if_splits)
    then obtain us w b1 b2 v vs where "ts = us @ ConsumerTurn w b1 b2 v # vs"
      "consumer_turns us = (if is_consumer t then j - 1 else j)" "consumer_turns vs = k"
      using Cons.IH by blast
    then show ?thesis using False
      by (intro exI [of _ "t # us"] exI [of _ w] exI [of _ b1] exI [of _ b2] exI [of _ v] exI [of _ vs])
        (auto simp: consumer_turns_def)
  qed
qed (simp add: consumer_turns_def)

section \<open>From the camera into the slot\<close>

text \<open>The blocks a frame's planes lie in; the frame is the same in every memory that keeps them.\<close>

definition frame_blocks :: "frame \<Rightarrow> nat set" where
  "frame_blocks f = {b. \<exists>p \<in> set (fr_planes f). \<exists>off. fp_data p = Some (b, off)}"

lemma same_block_plane:
  assumes "\<And>b off. fp_data p = Some (b, off) \<Longrightarrow> m' b = m b"
  shows "plane_readable m' p = plane_readable m p" "plane_bytes m' p = plane_bytes m p"
proof -
  have "read_bytes m' (fp_data p) (fp_size p) = read_bytes m (fp_data p) (fp_size p)"
    using assms by (auto simp: read_bytes_def split: option.splits)
  then show "plane_readable m' p = plane_readable m p" "plane_bytes m' p = plane_bytes m p"
    by (simp_all add: plane_readable_def plane_bytes_def)
qed

lemma tight_same_blocks:
  assumes "tight_nv12 m f" "\<forall>b \<in> frame_blocks f. m' b = m b"
  shows "tight_nv12 m' f" "\<And>p. p \<in> set (fr_planes f) \<Longrightarrow> picture_rows m' p = picture_rows m p"
proof -
  have k: "plane_readable m' p = plane_readable m p \<and> plane_bytes m' p = plane_bytes m p"
    if "p \<in> set (fr_planes f)" for p
    using same_block_plane [of p m' m] assms(2) that by (auto simp: frame_blocks_def)
  then show "tight_nv12 m' f" using assms(1) by (auto simp: tight_nv12_def Let_def split: list.splits)
  show "picture_rows m' p = picture_rows m p" if "p \<in> set (fr_planes f)" for p
    using k [OF that] by (simp add: picture_rows_def fun_eq_iff)
qed

lemma tight_blocks_mapped:
  assumes "tight_nv12 m f" "b \<in> frame_blocks f"
  shows "m b \<noteq> None"
proof -
  obtain y uv where p: "fr_planes f = [y, uv]"
    using assms by (auto simp: tight_nv12_def Let_def split: list.splits)
  have k: "fg_height (fr_geometry f) mod 2 = 0" "0 < unat (fg_width (fr_geometry f))"
    "0 < unat (fg_height (fr_geometry f))"
    using assms(1) by (auto simp: tight_nv12_def Let_def unat_gt_0)
  have "0 < unat (fg_height (fr_geometry f)) div 2"
    using word_even_nat [OF k(1)] k(3) by (auto elim!: evenE)
  then have "0 < fp_size y" "0 < fp_size uv" "plane_readable m y" "plane_readable m uv"
    using assms(1) p k by (auto simp: tight_nv12_def Let_def)
  then show ?thesis using assms(2) p
    by (auto simp: frame_blocks_def plane_readable_def read_bytes_def split: option.splits)
qed

lemma run_appendE:
  assumes "pipeline_run P (ts @ us) s = (os, s')"
  obtains os1 s1 os2 where "pipeline_run P ts s = (os1, s1)" "pipeline_run P us s1 = (os2, s')" "os = os1 @ os2"
  using assms by (auto simp: pipeline_run_append split: prod.splits)

lemma run_ConsE:
  assumes "pipeline_run P (t # us) s = (os, s')"
  obtains os1 s1 os2 where "pipeline_turn P t s = (os1, s1)" "pipeline_run P us s1 = (os2, s')" "os = os1 @ os2"
  using assms by (auto split: prod.splits)

text \<open>The turns of producer 0, given what it holds.\<close>

lemma capture_turn:
  assumes "pl_producers s ! i = PCapture" "i < length (pl_producers s)" "\<not> pl_crashed s"
    "pt_capture P (pl_memory s) (pl_cameras s ! i) = (Some f, m, c)"
  shows "pipeline_turn P (ProducerTurn i b1 b2) s =
    ([], s\<lparr>pl_cameras := (pl_cameras s)[i := c], pl_memory := m, pl_producers := (pl_producers s)[i := PProcess f]\<rparr>)"
  using assms by (simp add: producer_turn_def)

lemma process_turn:
  assumes "pl_producers s ! i = PProcess f" "i < length (pl_producers s)" "\<not> pl_crashed s"
    "pt_preprocess P i b1 (pl_memory s) f = Got (bd, m1)" "materialize_frame b2 (fb_source bd) m1 = Some (src, m2)"
  shows "pipeline_turn P (ProducerTurn i b1 b2) s =
    ([], s\<lparr>pl_memory := m2, pl_producers := (pl_producers s)[i := PTap (bd\<lparr>fb_source := src\<rparr>)]\<rparr>)"
  using assms by (simp add: producer_turn_def)

lemma tap_turn:
  assumes "pl_producers s ! i = PTap bd" "i < length (pl_producers s)" "\<not> pl_crashed s"
    "pipeline_turn P (ProducerTurn i b1 b2) s = (os, t)"
  shows "pl_producers t ! i = PPush bd" "\<not> pl_crashed t"
  using assms by (auto simp: producer_turn_def split: option.splits)

lemma push_turn:
  assumes "pl_producers s ! i = PPush bd" "i < length (pl_producers s)" "\<not> pl_crashed s"
    "i < length (pl_slots s)" "\<not> sl_closed (pl_slots s ! i)"
    "pipeline_turn P (ProducerTurn i b1 b2) s = (os, t)"
  shows "sl_slot (pl_slots t ! i) = Some bd" "\<not> pl_crashed t"
  using assms by (auto simp: producer_turn_def slot_push_def Let_def)

text \<open>A frame that enters the device: captured by camera 0 in a running pipeline, while each camera's
  buffers are its own and the allocator hands out every block once and none of the mapped ones.\<close>

definition fresh_blocks ::
  "nat list \<Rightarrow> ('f camera_rig, 'd, 'k, 'r) orchestrator \<Rightarrow> bool" where
  "fresh_blocks bs s \<longleftrightarrow>
     distinct bs \<and> (\<forall>b \<in> set bs. pl_memory s b = None \<and> (\<forall>c \<in> set (pl_cameras s). rig_avoids b c))"

definition own_buffers :: "frame \<Rightarrow> ('f camera_rig, 'd, 'k, 'r) orchestrator \<Rightarrow> bool" where
  "own_buffers f s \<longleftrightarrow>
     (\<forall>b \<in> frame_blocks f. \<forall>i < length (pl_cameras s). i \<noteq> 0 \<longrightarrow> rig_avoids b (pl_cameras s ! i))"

lemma fresh_spared: "\<lbrakk>fresh_blocks bs s; b \<in> set bs\<rbrakk> \<Longrightarrow> device_blocks.spares {} b s"
  by (auto simp: fresh_blocks_def device_blocks.spares_def)

lemma build_facts:
  assumes "same_build s s'"
  shows "length (pl_producers s') = length (pl_producers s)" "length (pl_slots s') = length (pl_slots s)"
    "length (pl_cameras s') = length (pl_cameras s)"
    "i < length (pl_slots s) \<Longrightarrow> sl_closed (pl_slots s' ! i) = sl_closed (pl_slots s ! i)"
proof -
  have closed: "map sl_closed (pl_slots s') = map sl_closed (pl_slots s)" using assms by (simp add: same_build_def)
  then show len: "length (pl_slots s') = length (pl_slots s)" by (rule map_eq_imp_length_eq)
  show "sl_closed (pl_slots s' ! i) = sl_closed (pl_slots s ! i)" if "i < length (pl_slots s)"
    using arg_cong [OF closed, of "\<lambda>xs. xs ! i"] that len by simp
qed (use assms in \<open>simp_all add: same_build_def\<close>)

text \<open>Captured and carried: the frame waits unharmed until producer 0 processes it.\<close>

lemma captured:
  fixes s :: "('f camera_rig, unit, 'k option list, 'r) orchestrator" and X :: "'x double_ops"
  assumes shape: "pipeline_shape s" and live: "pl_producers s \<noteq> []" and pc: "pl_producers s ! 0 = PCapture"
    and got: "rig_capture (pl_memory s) (pl_cameras s ! 0) = (Some raw, m, rig)" and raw: "tight_nv12 m raw"
    and run: "pipeline_run (device_ports cv X push tap) (ProducerTurn 0 a1 a2 # us) s = (os, t)"
    and turns: "producer_turns 0 us = 0" and alive: "\<not> pl_crashed t"
    and fresh: "fresh_blocks bs s" "set (concat (map turn_blocks us)) \<subseteq> set bs" and own: "own_buffers raw s"
  shows "pl_producers t ! 0 = PProcess raw" "tight_nv12 (pl_memory t) raw"
    "\<And>p. p \<in> set (fr_planes raw) \<Longrightarrow> picture_rows (pl_memory t) p = picture_rows m p"
    "\<And>b. \<lbrakk>b \<in> set bs; b \<notin> set (concat (map turn_blocks us))\<rbrakk> \<Longrightarrow>
      pl_memory t b = None \<and> device_blocks.spares {} b t"
proof -
  let ?P = "device_ports cv X push tap :: ('f camera_rig, unit, 'k option list, 'r, 'x) pipeline_ports"
  let ?s1 = "s\<lparr>pl_cameras := (pl_cameras s)[0 := rig], pl_memory := m, pl_producers := (pl_producers s)[0 := PProcess raw]\<rparr>"
  have cap: "pt_capture ?P (pl_memory s) (pl_cameras s ! 0) = (Some raw, m, rig)"
    by (simp add: device_ports_def got)
  have turn: "pipeline_turn ?P (ProducerTurn 0 a1 a2) s = ([], ?s1)"
    by (rule capture_turn [OF pc _ run_alive [OF run alive] cap]) (use live in simp)
  then have rest: "pipeline_run ?P us ?s1 = (os, t)" using run by (auto split: prod.splits)
  have n: "0 < length (pl_producers s)" "0 < length (pl_cameras s)"
    using shape live by (auto simp: pipeline_shape_def)
  have shape1: "pipeline_shape ?s1" using pipeline_turn_shape [OF shape turn] .
  show "pl_producers t ! 0 = PProcess raw"
    using run_without_producer [OF rest turns] n by simp
  have new: "m b = None \<and> device_blocks.spares {} b ?s1" if b: "b \<in> set bs" for b
  proof -
    have "pl_memory s b = None" "rig_avoids b (pl_cameras s ! 0)" using fresh(1) b n by (auto simp: fresh_blocks_def)
    moreover have "device_blocks.spares {} b s" using fresh_spared [OF fresh(1) b] .
    ultimately show ?thesis
      using device_blocks.capture_keeps [OF cap] n by (auto simp: device_blocks.spares_def nth_list_update)
  qed
  show "pl_memory t b = None \<and> device_blocks.spares {} b t"
    if "b \<in> set bs" "b \<notin> set (concat (map turn_blocks us))" for b
    using device_blocks.run_keeps [OF rest that(2) _ shape1, of "{}"] new [OF that(1)] by simp
  have kept: "pl_memory t b = m b" if b: "b \<in> frame_blocks raw" for b
  proof -
    have "b \<notin> set bs" using new [of b] tight_blocks_mapped [OF raw b] by auto
    then have "b \<notin> set (concat (map turn_blocks us))" using fresh(2) by blast
    moreover have "device_blocks.spares {0} b ?s1"
      using own b n unfolding own_buffers_def device_blocks.spares_def by (simp add: nth_list_update)
    ultimately show ?thesis using device_blocks.run_keeps [OF rest _ _ shape1, of b "{0}"] turns by simp
  qed
  show "tight_nv12 (pl_memory t) raw"
    by (rule tight_same_blocks(1) [OF raw]) (simp add: kept)
  show "picture_rows (pl_memory t) p = picture_rows m p" if "p \<in> set (fr_planes raw)" for p
    by (rule tight_same_blocks(2) [OF raw _ that]) (simp add: kept)
qed

text \<open>A processed bundle comes into the slot.\<close>

lemma tapped_and_pushed:
  assumes "pl_producers s ! 0 = PTap bd" "pipeline_shape s" "pl_producers s \<noteq> []" "\<not> sl_closed (pl_slots s ! 0)"
    and "pipeline_run P (us @ ProducerTurn 0 q1 q2 # vs @ [ProducerTurn 0 e1 e2]) s = (os, t)"
    and "producer_turns 0 us = 0" "producer_turns 0 vs = 0" "\<not> pl_crashed t"
  shows "sl_slot (pl_slots t ! 0) = Some bd"
proof -
  obtain o1 s1 o' where r1: "pipeline_run P us s = (o1, s1)"
    "pipeline_run P (ProducerTurn 0 q1 q2 # vs @ [ProducerTurn 0 e1 e2]) s1 = (o', t)"
    using assms(5) by (rule run_appendE)
  obtain o2 s2 o'' where r2: "pipeline_turn P (ProducerTurn 0 q1 q2) s1 = (o2, s2)"
    "pipeline_run P (vs @ [ProducerTurn 0 e1 e2]) s2 = (o'', t)"
    using r1(2) by (rule run_ConsE)
  obtain o3 s3 o4 where r3: "pipeline_run P vs s2 = (o3, s3)" "pipeline_run P [ProducerTurn 0 e1 e2] s3 = (o4, t)"
    using r2(2) by (rule run_appendE)
  note alive = run_alive [OF r1(2) assms(8)] run_alive [OF r3(2) assms(8)]
  note b = run_build [OF r1(1)] turn_build [OF r2(1)] run_build [OF r3(1)]
  have n: "0 < length (pl_producers s)" "0 < length (pl_slots s)"
    using assms(2,3) by (auto simp: pipeline_shape_def)
  have "pl_producers s1 ! 0 = PTap bd" using run_without_producer [OF r1(1) assms(6)] assms(1) by simp
  from tap_turn(1) [OF this _ alive(1) r2(1)] have "pl_producers s2 ! 0 = PPush bd"
    using n build_facts [OF b(1)] by simp
  then have "pl_producers s3 ! 0 = PPush bd" using run_without_producer [OF r3(1) assms(7)] by simp
  moreover have "\<not> sl_closed (pl_slots s3 ! 0)" "0 < length (pl_slots s3)" "0 < length (pl_producers s3)"
    using assms(4) n build_facts [OF b(1)] build_facts [OF b(2)] build_facts [OF b(3)] by simp_all
  moreover have "pipeline_turn P (ProducerTurn 0 e1 e2) s3 = (o4, t)"
    using r3(2) by (auto split: prod.splits)
  ultimately show ?thesis using push_turn(1) [of s3 0 bd P] alive(2) by blast
qed

text \<open>A copy of a frame: it has the frame's number, time and size, and in every memory that keeps block
  \<^verbatim>\<open>b\<close> as it is in \<^verbatim>\<open>mt\<close> it shows the rows the frame has in \<^verbatim>\<open>m\<close>.\<close>

definition luma_rows :: "memory \<Rightarrow> frame \<Rightarrow> u8 list list" where
  "luma_rows m f =
     picture_rows m (fr_planes f ! 0) (unat (fg_width (fr_geometry f))) (unat (fg_height (fr_geometry f)))"

definition chroma_rows :: "memory \<Rightarrow> frame \<Rightarrow> u8 list list" where
  "chroma_rows m f =
     picture_rows m (fr_planes f ! 1) (unat (fg_width (fr_geometry f))) (unat (fg_height (fr_geometry f)) div 2)"

definition copied :: "memory \<Rightarrow> frame \<Rightarrow> memory \<Rightarrow> nat \<Rightarrow> frame \<Rightarrow> bool" where
  "copied m raw mt b src \<longleftrightarrow>
     fr_id src = fr_id raw \<and> fr_captured_at src = fr_captured_at raw \<and> fr_geometry src = fr_geometry raw \<and>
     (\<forall>m'. m' b = mt b \<longrightarrow> nv12_ok m' src (luma_rows m raw) (chroma_rows m raw))"

lemma tight_planes: "tight_nv12 m f \<Longrightarrow> fr_planes f = [fr_planes f ! 0, fr_planes f ! 1]"
  by (auto simp: tight_nv12_def Let_def split: list.splits)

text \<open>Processed and copied: from here on the camera's own buffer does not matter.\<close>

lemma processed:
  fixes s :: "('f camera_rig, unit, 'k option list, 'r) orchestrator" and X :: "'x double_ops"
  assumes pc: "pl_producers s ! 0 = PProcess raw" and live: "pl_producers s \<noteq> []" "\<not> pl_crashed s"
    and raw: "tight_nv12 (pl_memory s) raw" "alloc_ok cv raw" "cv_documented cv"
    and new: "pl_memory s p1 = None" "pl_memory s p2 = None" "p1 \<noteq> p2"
    and turn: "pipeline_turn (device_ports cv X push tap) (ProducerTurn 0 p1 p2) s = (os, t)"
  shows "\<exists>src ai. pl_producers t ! 0 = PTap \<lparr>fb_source = src, fb_ai = ai\<rparr> \<and>
    copied (pl_memory s) raw (pl_memory t) p2 src \<and> pl_cameras t = pl_cameras s \<and> \<not> pl_crashed t"
proof -
  let ?P = "device_ports cv X push tap :: ('f camera_rig, unit, 'k option list, 'r, 'x) pipeline_ports"
  obtain ai m1 src m2 where r: "preprocess cv default_preprocess_config p1 (pl_memory s) raw =
      Got (\<lparr>fb_source = raw, fb_ai = ai\<rparr>, m1)" "materialize_frame p2 raw m1 = Some (src, m2)"
    "copied (pl_memory s) raw m2 p2 src"
    using camera_to_buffer [OF raw(3) raw(1,2) tight_planes [OF raw(1)] new]
    unfolding copied_def luma_rows_def chroma_rows_def by blast
  have made: "pt_preprocess ?P 0 p1 (pl_memory s) raw = Got (\<lparr>fb_source = raw, fb_ai = ai\<rparr>, m1)"
    using r(1) by (simp add: device_ports_def)
  have "t = s\<lparr>pl_memory := m2, pl_producers := (pl_producers s)[0 := PTap \<lparr>fb_source = src, fb_ai = ai\<rparr>]\<rparr>"
    using process_turn [OF pc _ live(2) made, of p2 src m2] live(1) turn r(2) by simp
  then show ?thesis using live r(3) by auto
qed

text \<open>The producer's half of the journey, whatever turns come between its four.\<close>

lemma frame_into_slot:
  fixes s :: "('f camera_rig, unit, 'k option list, 'r) orchestrator" and X :: "'x double_ops"
  assumes shape: "pipeline_shape s" and live: "pl_producers s \<noteq> []"
    and open_slot: "\<not> sl_closed (pl_slots s ! 0)" and pc: "pl_producers s ! 0 = PCapture"
    and got: "rig_capture (pl_memory s) (pl_cameras s ! 0) = (Some raw, m, rig)"
    and raw: "tight_nv12 m raw" "alloc_ok cv raw" "cv_documented cv"
    and run: "pipeline_run (device_ports cv X push tap)
      (ProducerTurn 0 a1 a2 # us @ [ProducerTurn 0 e1 e2]) s = (os, t)"
    and turns: "producer_turns 0 us = 2" and alive: "\<not> pl_crashed t"
    and fresh: "fresh_blocks (concat (map turn_blocks (ProducerTurn 0 a1 a2 # us @ [ProducerTurn 0 e1 e2])) @ later) s"
    and own: "own_buffers raw s"
  obtains b src ai where "b \<in> set (concat (map turn_blocks us))" "device_blocks.spares {} b t"
    "sl_slot (pl_slots t ! 0) = Some \<lparr>fb_source = src, fb_ai = ai\<rparr>" "copied m raw (pl_memory t) b src"
proof -
  let ?P = "device_ports cv X push tap :: ('f camera_rig, unit, 'k option list, 'r, 'x) pipeline_ports"
  obtain u0 p1 p2 w where u0: "us = u0 @ ProducerTurn 0 p1 p2 # w" "producer_turns 0 u0 = 0" "producer_turns 0 w = 1"
    using cut_producer [of 0 us 1] turns by auto
  obtain u1 q1 q2 u2 where u1: "w = u1 @ ProducerTurn 0 q1 q2 # u2" "producer_turns 0 u1 = 0" "producer_turns 0 u2 = 0"
    using cut_producer [of 0 w 0] u0(3) by auto
  let ?rest = "u1 @ ProducerTurn 0 q1 q2 # u2 @ [ProducerTurn 0 e1 e2]"
  have "pipeline_run ?P ((ProducerTurn 0 a1 a2 # u0) @ (ProducerTurn 0 p1 p2 # ?rest)) s = (os, t)"
    using run by (simp add: u0(1) u1(1))
  then obtain o1 s1 o' where r1: "pipeline_run ?P (ProducerTurn 0 a1 a2 # u0) s = (o1, s1)"
    "pipeline_run ?P (ProducerTurn 0 p1 p2 # ?rest) s1 = (o', t)" by (rule run_appendE)
  obtain o2 s2 o3 where r2: "pipeline_turn ?P (ProducerTurn 0 p1 p2) s1 = (o2, s2)"
    "pipeline_run ?P ?rest s2 = (o3, t)" using r1(2) by (rule run_ConsE)
  let ?bs = "concat (map turn_blocks (ProducerTurn 0 a1 a2 # us @ [ProducerTurn 0 e1 e2])) @ later"
  have dist: "p1 \<noteq> p2" "p1 \<notin> set (concat (map turn_blocks u0))"
    "p2 \<notin> set (concat (map turn_blocks u0))" "p2 \<notin> set (concat (map turn_blocks ?rest))"
    "p1 \<in> set ?bs" "p2 \<in> set ?bs" "set (concat (map turn_blocks u0)) \<subseteq> set ?bs"
    using fresh by (auto simp: fresh_blocks_def u0(1) u1(1))
  note c = captured [OF shape live pc got raw(1) r1(1) u0(2) run_alive [OF r1(2) alive] fresh dist(7) own]
  note b1 = build_facts [OF run_build [OF r1(1)]] and b2 = build_facts [OF turn_build [OF r2(1)]]
  have shape1: "pipeline_shape s1" using run_shape [OF r1(1) shape] .
  have shape2: "pipeline_shape s2" using pipeline_turn_shape [OF shape1 r2(1)] .
  have live12: "pl_producers s1 \<noteq> []" "pl_producers s2 \<noteq> []" using live b1(1) b2(1) by auto
  have "0 < length (pl_slots s)" using shape live by (auto simp: pipeline_shape_def)
  then have open2: "\<not> sl_closed (pl_slots s2 ! 0)" using open_slot b1(2,4) b2(2,4) by simp
  note p = c(4) [OF dist(5,2)] c(4) [OF dist(6,3)]
  obtain src ai where k: "pl_producers s2 ! 0 = PTap \<lparr>fb_source = src, fb_ai = ai\<rparr>"
    "copied (pl_memory s1) raw (pl_memory s2) p2 src" "pl_cameras s2 = pl_cameras s1"
    using processed [OF c(1) live12(1) run_alive [OF r1(2) alive] c(2) raw(2,3) _ _ dist(1) r2(1)] p by auto
  have rows: "luma_rows (pl_memory s1) raw = luma_rows m raw" "chroma_rows (pl_memory s1) raw = chroma_rows m raw"
    using c(3) [of "fr_planes raw ! 0"] c(3) [of "fr_planes raw ! 1"] tight_planes [OF raw(1)]
    unfolding luma_rows_def chroma_rows_def by (metis list.set_intros)+
  have "pl_memory t p2 = pl_memory s2 p2 \<and> device_blocks.spares {} p2 t"
    by (rule device_blocks.run_keeps [OF r2(2) dist(4) _ shape2]) (use p k(3) in \<open>simp_all add: device_blocks.spares_def\<close>)
  then show thesis
    using that [of p2 src ai] tapped_and_pushed [OF k(1) shape2 live12(2) open2 r2(2) u1(2,3) alive] k(2)
    by (simp add: u0(1) copied_def rows)
qed

section \<open>From the slot to the sink\<close>

text \<open>The consumer takes the bundle and samples the other cameras.\<close>

lemma taken:
  assumes "pl_consumer s = CPop" "sl_slot (pl_slots s ! 0) = Some bd" "\<not> pl_crashed s" "pl_cameras s \<noteq> []"
    and "pipeline_turn P (ConsumerTurn w b1 b2 v) s = (os, t)"
  shows "pl_latest t = pl_latest s" "pl_sink t = pl_sink s" "delivered os = []" "pl_cameras t = pl_cameras s"
    "\<exists>others. pl_consumer t = CSample 0 (Some bd # others)" "\<not> pl_crashed t"
proof -
  obtain n where "length (pl_cameras s) = Suc n" using assms(4) by (cases "pl_cameras s") auto
  then show "pl_latest t = pl_latest s" "pl_sink t = pl_sink s" "delivered os = []" "pl_cameras t = pl_cameras s"
    "\<exists>others. pl_consumer t = CSample 0 (Some bd # others)" "\<not> pl_crashed t"
    using assms by (auto simp: consumer_turn_def slot_ready_def slot_take_def kCadenceCamera_def Let_def)
qed

lemma sample_turn:
  assumes "pl_consumer s = CSample i (Some bd # others)" "\<not> pl_crashed s"
    and "pipeline_turn P (ConsumerTurn w b1 b2 v) s = (os, t)"
  shows "pl_latest t = pl_latest s \<and> pl_sink t = pl_sink s \<and> delivered os = [] \<and> \<not> pl_crashed t \<and>
    (\<exists>others'. pl_consumer t =
       (if length (pl_cameras s) \<le> i then CDecide (Some bd # others') else CSample (Suc i) (Some bd # others')))"
  using assms
  by (cases i) (auto simp: consumer_turn_def kCadenceCamera_def split: prod.splits if_splits)

lemma sampled:
  assumes "pl_consumer s = CSample i (Some bd # others)" "i \<le> length (pl_cameras s)"
    and "pipeline_run P ts s = (os, t)" "\<not> pl_crashed t"
    and "consumer_turns ts = Suc (length (pl_cameras s) - i)"
  shows "pl_latest t = pl_latest s \<and> pl_sink t = pl_sink s \<and> delivered os = [] \<and>
    (\<exists>others'. pl_consumer t = CDecide (Some bd # others'))"
  using assms
proof (induction "length (pl_cameras s) - i" arbitrary: i s ts os others)
  case (0 i s ts os others)
  then obtain us w b1 b2 v vs where ts: "ts = us @ ConsumerTurn w b1 b2 v # vs" "consumer_turns us = 0"
    "consumer_turns vs = 0"
    using cut_consumer [of ts 0 0] by auto
  obtain o1 s1 o' where r1: "pipeline_run P us s = (o1, s1)" "pipeline_run P (ConsumerTurn w b1 b2 v # vs) s1 = (o', t)"
    "os = o1 @ o'" using "0.prems"(3) unfolding ts(1) by (rule run_appendE)
  obtain o2 s2 o3 where r2: "pipeline_turn P (ConsumerTurn w b1 b2 v) s1 = (o2, s2)" "pipeline_run P vs s2 = (o3, t)"
    "o' = o2 @ o3" using r1(2) by (rule run_ConsE)
  note w1 = run_without_consumer [OF r1(1) ts(2)] and w2 = run_without_consumer [OF r2(2) ts(3)]
  have "pl_consumer s1 = CSample i (Some bd # others)" using w1 "0.prems"(1) by simp
  from sample_turn [OF this run_alive [OF r1(2) "0.prems"(4)] r2(1)] build_facts(3) [OF run_build [OF r1(1)]]
  show ?case using "0.hyps" w1 w2 r1(3) r2(3) by auto
next
  case (Suc k i s ts os others)
  then obtain us w b1 b2 v vs where ts: "ts = us @ ConsumerTurn w b1 b2 v # vs" "consumer_turns us = 0"
    "consumer_turns vs = Suc k"
    using cut_consumer [of ts 0 "Suc k"] by auto
  obtain o1 s1 o' where r1: "pipeline_run P us s = (o1, s1)" "pipeline_run P (ConsumerTurn w b1 b2 v # vs) s1 = (o', t)"
    "os = o1 @ o'" using Suc.prems(3) unfolding ts(1) by (rule run_appendE)
  obtain o2 s2 o3 where r2: "pipeline_turn P (ConsumerTurn w b1 b2 v) s1 = (o2, s2)" "pipeline_run P vs s2 = (o3, t)"
    "o' = o2 @ o3" using r1(2) by (rule run_ConsE)
  note w1 = run_without_consumer [OF r1(1) ts(2)]
  note n = build_facts(3) [OF run_build [OF r1(1)]] build_facts(3) [OF turn_build [OF r2(1)]]
  have "pl_consumer s1 = CSample i (Some bd # others)" using w1 Suc.prems(1) by simp
  moreover have "\<not> length (pl_cameras s1) \<le> i" using n Suc.hyps(2) by linarith
  ultimately obtain others'
    where s2: "pl_latest s2 = pl_latest s1" "pl_sink s2 = pl_sink s1" "delivered o2 = []"
      "pl_consumer s2 = CSample (Suc i) (Some bd # others')"
    using sample_turn [OF _ run_alive [OF r1(2) Suc.prems(4)] r2(1)] by auto
  have "pl_latest t = pl_latest s2 \<and> pl_sink t = pl_sink s2 \<and> delivered o3 = [] \<and>
      (\<exists>others'. pl_consumer t = CDecide (Some bd # others'))"
    by (rule Suc.hyps(1) [OF _ s2(4) _ r2(2) Suc.prems(4)]) (use Suc.hyps(2) n ts(3) in simp_all)
  then show ?case using s2 w1 r1(3) r2(3) by auto
qed

text \<open>A finished frame is kept for snapshots and handed to the sink.\<close>

lemma store_turn:
  "\<lbrakk>pl_consumer s = CStore f; \<not> pl_crashed s; pipeline_turn P (ConsumerTurn w b1 b2 v) s = (os, t)\<rbrakk> \<Longrightarrow>
   pl_consumer t = CPush f \<and> pl_latest t = Some f \<and> pl_sink t = pl_sink s \<and> delivered os = [] \<and> \<not> pl_crashed t"
  by (auto simp: consumer_turn_def)

lemma deliver_turn:
  "\<lbrakk>pl_consumer s = CPush f; \<not> pl_crashed s; pipeline_turn P (ConsumerTurn w b1 b2 v) s = (os, t)\<rbrakk> \<Longrightarrow>
   pl_latest t = pl_latest s \<and> pl_sink t = pt_sink P f (pl_sink s) \<and> delivered os = [f] \<and> \<not> pl_crashed t"
  by (auto simp: consumer_turn_def delivered_def)

lemma stored_and_delivered:
  assumes "pl_consumer s = CStore f" "pipeline_run P ts s = (os, t)" "\<not> pl_crashed t" "consumer_turns ts = 2"
  shows "pl_latest t = Some f \<and> pl_sink t = pt_sink P f (pl_sink s) \<and> delivered os = [f]"
proof -
  obtain us w b1 b2 v ts' where u: "ts = us @ ConsumerTurn w b1 b2 v # ts'" "consumer_turns us = 0"
    "consumer_turns ts' = 1"
    using cut_consumer [of ts 0 1] assms(4) by auto
  obtain vs w' c1 c2 v' ws where v: "ts' = vs @ ConsumerTurn w' c1 c2 v' # ws" "consumer_turns vs = 0"
    "consumer_turns ws = 0"
    using cut_consumer [of ts' 0 0] u(3) by auto
  obtain o1 s1 o' where r1: "pipeline_run P us s = (o1, s1)" "pipeline_run P (ConsumerTurn w b1 b2 v # ts') s1 = (o', t)"
    "os = o1 @ o'" using assms(2) unfolding u(1) by (rule run_appendE)
  obtain o2 s2 o'' where r2: "pipeline_turn P (ConsumerTurn w b1 b2 v) s1 = (o2, s2)" "pipeline_run P ts' s2 = (o'', t)"
    "o' = o2 @ o''" using r1(2) by (rule run_ConsE)
  obtain o3 s3 o4 where r3: "pipeline_run P vs s2 = (o3, s3)" "pipeline_run P (ConsumerTurn w' c1 c2 v' # ws) s3 = (o4, t)"
    "o'' = o3 @ o4" using r2(2) unfolding v(1) by (rule run_appendE)
  obtain o5 s4 o6 where r4: "pipeline_turn P (ConsumerTurn w' c1 c2 v') s3 = (o5, s4)" "pipeline_run P ws s4 = (o6, t)"
    "o4 = o5 @ o6" using r3(2) by (rule run_ConsE)
  note k1 = run_without_consumer [OF r1(1) u(2)]
  note k2 = store_turn [OF _ run_alive [OF r1(2) assms(3)] r2(1), of f]
  note k3 = run_without_consumer [OF r3(1) v(2)]
  note k4 = deliver_turn [OF _ run_alive [OF r3(2) assms(3)] r4(1), of f]
  note k5 = run_without_consumer [OF r4(2) v(3)]
  show ?thesis using k1 k2 k3 k4 k5 assms(1) r1(3) r2(3) r3(3) r4(3) by simp
qed

text \<open>What the sinks get of a frame that was read in memory \<^verbatim>\<open>m\<close>: its picture in block \<^verbatim>\<open>c1\<close>, with the
  overlay composited into block \<^verbatim>\<open>c2\<close> when there is one.\<close>

definition sink_frame ::
  "cv_ops \<Rightarrow> 'x double_ops \<Rightarrow> memory \<Rightarrow> frame \<Rightarrow> nat \<Rightarrow> nat \<Rightarrow> rgba_image option \<Rightarrow> frame \<Rightarrow> memory \<Rightarrow> bool" where
  "sink_frame cv X m raw c1 c2 overlay f mt \<longleftrightarrow>
     (\<exists>x md m2. picture_from cv raw (luma_rows m raw) (chroma_rows m raw) x \<and> mat_shape x 720 1280 3 \<and>
        md c1 = Some (concat (mt_data x)) \<and>
        finished X c2 overlay (owned_frame c1 x BGR8 (fr_id raw) (fr_captured_at raw)) md = Some (f, m2) \<and>
        mt c1 = m2 c1 \<and> mt c2 = m2 c2)"

lemma decided:
  fixes s :: "('f camera_rig, unit, 'k option list, 'r) orchestrator" and X :: "'x double_ops"
  assumes "pl_consumer s = CDecide (Some \<lparr>fb_source = src, fb_ai = ai\<rparr> # others)" "\<not> pl_crashed s"
    and "copied m raw (pl_memory s) b src" "alloc_ok cv raw" "cv_documented cv"
    and "pipeline_turn (device_ports cv X push tap) (ConsumerTurn w c1 c2 overlay) s = (os, t)"
    and "overlay = None \<or> \<not> pl_crashed t"
  shows "\<exists>f. sink_frame cv X m raw c1 c2 overlay f (pl_memory t) \<and> pl_consumer t = CStore f \<and>
    pl_cameras t = pl_cameras s \<and> pl_sink t = pl_sink s \<and> delivered os = [] \<and> \<not> pl_crashed t"
proof -
  let ?bd = "\<lparr>fb_source = src, fb_ai = ai\<rparr>"
  let ?P = "device_ports cv X push tap :: ('f camera_rig, unit, 'k option list, 'r, 'x) pipeline_ports"
  have src: "fr_id src = fr_id raw" "fr_captured_at src = fr_captured_at raw" "fr_geometry src = fr_geometry raw"
    "nv12_ok (pl_memory s) (fb_source ?bd) (luma_rows m raw) (chroma_rows m raw)" "alloc_ok cv (fb_source ?bd)"
    using assms(3,4) by (simp_all add: copied_def alloc_ok_def)
  obtain x where x: "picture_from cv raw (luma_rows m raw) (chroma_rows m raw) x" "mat_shape x 720 1280 3"
    and turn: "consumer_turn ?P w c1 c2 overlay s =
       (case finished X c2 overlay (picture_of c1 x ?bd) ((pl_memory s)(c1 \<mapsto> concat (mt_data x))) of
          None \<Rightarrow> ([], s\<lparr>pl_crashed := True\<rparr>)
        | Some (f, m2) \<Rightarrow> ([Shown 0 ?bd f], s\<lparr>pl_memory := m2, pl_consumer := CStore f\<rparr>))"
    by (rule chosen_turn [OF assms(5) src(5,4) assms(1), where X = X and ?b1.0 = c1 and ?b2.0 = c2 and push = push
        and raw = tap and timed_out = w]) (use picture_from_geometry [OF src(3), of cv] in auto)
  let ?md = "(pl_memory s)(c1 \<mapsto> concat (mt_data x))"
  have pic: "picture_of c1 x ?bd = owned_frame c1 x BGR8 (fr_id raw) (fr_captured_at raw)"
    by (simp add: picture_of_def src)
  obtain f m2 where f: "finished X c2 overlay (owned_frame c1 x BGR8 (fr_id raw) (fr_captured_at raw)) ?md = Some (f, m2)"
    "t = s\<lparr>pl_memory := m2, pl_consumer := CStore f\<rparr>" "os = [Shown 0 ?bd f]"
    using assms(2,6,7) turn by (auto simp: pic finished_def [of X c2 None] split: option.splits)
  have "sink_frame cv X m raw c1 c2 overlay f m2"
    unfolding sink_frame_def
    by (rule exI [of _ x], rule exI [of _ ?md], rule exI [of _ m2]) (use x f(1) in simp)
  then show ?thesis using f(2,3) assms(2) by (auto simp: delivered_def)
qed

text \<open>The consumer's half of the journey, whatever turns come between its own.\<close>

lemma slot_to_sink:
  fixes s :: "('f camera_rig, unit, 'k option list, 'r) orchestrator" and X :: "'x double_ops"
  assumes shape: "pipeline_shape s" and pc: "pl_consumer s = CPop"
    and slot: "sl_slot (pl_slots s ! 0) = Some \<lparr>fb_source = src, fb_ai = ai\<rparr>"
    and src: "copied m raw (pl_memory s) b src" "alloc_ok cv raw" "cv_documented cv"
    and run: "pipeline_run (device_ports cv X push tap) (ConsumerTurn w d1 d2 v # vs) s = (os, t)"
    and turns: "consumer_turns vs = length (pl_cameras s) + 4" and alive: "\<not> pl_crashed t"
    and mem: "device_blocks.spares {} b s" "b \<notin> set (concat (map turn_blocks (ConsumerTurn w d1 d2 v # vs)))"
    and fresh: "distinct (concat (map turn_blocks vs))"
      "\<forall>c \<in> set (concat (map turn_blocks vs)). device_blocks.spares {} c s \<and> c \<noteq> d1 \<and> c \<noteq> d2"
  shows "\<exists>w' c1 c2 overlay f. ConsumerTurn w' c1 c2 overlay \<in> set vs \<and>
    sink_frame cv X m raw c1 c2 overlay f (pl_memory t) \<and>
    delivered os = [f] \<and> pl_latest t = Some f \<and> pl_sink t = fan_out_push push f (pl_sink s)"
proof -
  let ?P = "device_ports cv X push tap :: ('f camera_rig, unit, 'k option list, 'r, 'x) pipeline_ports"
  let ?n = "length (pl_cameras s)"
  obtain v1 w' c1 c2 overlay v2 where cut: "vs = v1 @ ConsumerTurn w' c1 c2 overlay # v2"
    "consumer_turns v1 = Suc ?n" "consumer_turns v2 = 2"
    using cut_consumer [of vs "Suc ?n" 2] turns by auto
  obtain o1 s1 o' where r1: "pipeline_turn ?P (ConsumerTurn w d1 d2 v) s = (o1, s1)" "pipeline_run ?P vs s1 = (o', t)"
    "os = o1 @ o'" using run by (rule run_ConsE)
  obtain o2 s2 o'' where r2: "pipeline_run ?P v1 s1 = (o2, s2)"
    "pipeline_run ?P (ConsumerTurn w' c1 c2 overlay # v2) s2 = (o'', t)" "o' = o2 @ o''"
    using r1(2) unfolding cut(1) by (rule run_appendE)
  obtain o3 s3 o4 where r3: "pipeline_turn ?P (ConsumerTurn w' c1 c2 overlay) s2 = (o3, s3)"
    "pipeline_run ?P v2 s3 = (o4, t)" "o'' = o3 @ o4" using r2(2) by (rule run_ConsE)
  have cams: "pl_cameras s \<noteq> []" using shape pc by (auto simp: pipeline_shape_def)
  note sh1 = pipeline_turn_shape [OF shape r1(1)]
  note sh2 = run_shape [OF r2(1) sh1]
  note k1 = taken [OF pc slot run_alive [OF run alive] cams r1(1)]
  obtain others where s1: "pl_consumer s1 = CSample 0 (Some \<lparr>fb_source = src, fb_ai = ai\<rparr> # others)" using k1(5) ..
  have k2: "pl_latest s2 = pl_latest s1 \<and> pl_sink s2 = pl_sink s1 \<and> delivered o2 = [] \<and>
      (\<exists>others'. pl_consumer s2 = CDecide (Some \<lparr>fb_source = src, fb_ai = ai\<rparr> # others'))"
    by (rule sampled [OF s1 _ r2(1) run_alive [OF r2(2) alive]]) (simp_all add: cut(2) k1(4))
  have keep2: "pl_memory s2 c = pl_memory s c \<and> device_blocks.spares {} c s2"
    if "device_blocks.spares {} c s" "c \<noteq> d1" "c \<noteq> d2" "c \<notin> set (concat (map turn_blocks v1))" for c
    using device_blocks.turn_keeps [OF r1(1) _ that(1) shape] device_blocks.run_keeps [OF r2(1) that(4) _ sh1, of "{}"]
      that(2,3) by simp
  have b: "pl_memory s2 b = pl_memory s b" using keep2 [OF mem(1)] mem(2) by (simp add: cut(1))
  then have "copied m raw (pl_memory s2) b src" using src(1) by (simp add: copied_def)
  then obtain f where f: "sink_frame cv X m raw c1 c2 overlay f (pl_memory s3)" "pl_consumer s3 = CStore f"
    "pl_cameras s3 = pl_cameras s2" "pl_sink s3 = pl_sink s2" "delivered o3 = []"
    using k2 decided [OF _ run_alive [OF r2(2) alive] _ src(2,3) r3(1)] run_alive [OF r3(2) alive] by blast
  have "pl_memory t c = pl_memory s3 c" if "c \<in> {c1, c2}" for c
  proof -
    have "device_blocks.spares {} c s2" "c \<notin> set (concat (map turn_blocks v2))"
      using keep2 [of c] fresh that by (auto simp: cut(1))
    then show ?thesis
      using device_blocks.run_keeps [OF r3(2) _ _ pipeline_turn_shape [OF sh2 r3(1)], of c "{}"] f(3)
      by (simp add: device_blocks.spares_def)
  qed
  then have "sink_frame cv X m raw c1 c2 overlay f (pl_memory t)" using f(1) by (simp add: sink_frame_def)
  moreover have "pl_latest t = Some f \<and> pl_sink t = pt_sink ?P f (pl_sink s3) \<and> delivered o4 = [f]"
    by (rule stored_and_delivered [OF f(2) r3(2) alive cut(3)])
  ultimately show ?thesis
    using k1 k2 f(4,5) r1(3) r2(3) r3(3)
    by (intro exI [of _ w'] exI [of _ c1] exI [of _ c2] exI [of _ overlay] exI [of _ f])
      (simp add: cut(1) device_ports_def)
qed

section \<open>Properties\<close>

text \<open>C7: A picture on its way from the sensor to the sinks, whatever the other threads do meanwhile.
  Camera 0 delivers a tight NV12 frame; its producer gets its three further turns at any times and
  queues the frame while the consumer waits; the consumer takes it and gets its turns at any
  times, all other turns being arbitrary.  Unless the process crashes, exactly one frame is handed
  to the sink in that stretch, GrabLatest keeps the same frame, and it is the picture OpenCV makes
  of the rows the camera delivered, whole and scaled to 1280 by 720, with the camera's frame
  number and time, and composited with the overlay of the deciding turn when there is one; its
  bytes are still there at the end.\<close>

theorem sensor_to_sink:
  fixes s :: "('f camera_rig, unit, 'k option list, 'r) orchestrator" and X :: "'x double_ops"
  assumes "pipeline_shape s" "pl_producers s \<noteq> []" "\<not> sl_closed (pl_slots s ! 0)" "pl_producers s ! 0 = PCapture"
    and "rig_capture (pl_memory s) (pl_cameras s ! 0) = (Some raw, m, rig)"
    and "tight_nv12 m raw" "alloc_ok cv raw" "cv_documented cv"
    and "pipeline_run (device_ports cv X push tap) produce s = (os, s1)" "pl_consumer s1 = CPop"
    and "produce = ProducerTurn 0 a1 a2 # us @ [ProducerTurn 0 e1 e2]" "producer_turns 0 us = 2"
    and "pipeline_run (device_ports cv X push tap) consume s1 = (os', s')" "\<not> pl_crashed s'"
    and "consume = ConsumerTurn w d1 d2 v # vs" "consumer_turns vs = length (pl_cameras s) + 4"
    and "fresh_blocks (concat (map turn_blocks (produce @ consume))) s" "own_buffers raw s"
  shows "\<exists>w' c1 c2 overlay f. ConsumerTurn w' c1 c2 overlay \<in> set vs \<and>
    sink_frame cv X m raw c1 c2 overlay f (pl_memory s') \<and> delivered os' = [f] \<and>
    pl_latest s' = Some f \<and> pl_sink s' = fan_out_push push f (pl_sink s1)"
proof -
  let ?P = "device_ports cv X push tap :: ('f camera_rig, unit, 'k option list, 'r, 'x) pipeline_ports"
  note made = assms(9) [unfolded assms(11)]
  note alive1 = run_alive [OF assms(13,14)]
  have fresh: "fresh_blocks (concat (map turn_blocks (ProducerTurn 0 a1 a2 # us @ [ProducerTurn 0 e1 e2])) @
      concat (map turn_blocks consume)) s" using assms(17) unfolding assms(11) by simp
  obtain b src ai where b: "b \<in> set (concat (map turn_blocks us))" "device_blocks.spares {} b s1"
    "sl_slot (pl_slots s1 ! 0) = Some \<lparr>fb_source = src, fb_ai = ai\<rparr>" "copied m raw (pl_memory s1) b src"
    by (rule frame_into_slot [OF assms(1-8) made assms(12) alive1 fresh assms(18)])
  have spared: "device_blocks.spares {} c s1" if "c \<in> set (concat (map turn_blocks consume))" for c
  proof -
    have "c \<notin> set (concat (map turn_blocks produce))" "device_blocks.spares {} c s"
      using assms(17) that by (auto simp: fresh_blocks_def device_blocks.spares_def)
    then show ?thesis using device_blocks.run_keeps [OF assms(9) _ _ assms(1), of c "{}"] by simp
  qed
  have "distinct (concat (map turn_blocks vs))" "d1 \<notin> set (concat (map turn_blocks vs))"
    "d2 \<notin> set (concat (map turn_blocks vs))" "b \<notin> set (concat (map turn_blocks consume))"
    using assms(17) b(1) by (auto simp: fresh_blocks_def assms(11,15))
  moreover have "\<forall>c \<in> set (concat (map turn_blocks vs)). device_blocks.spares {} c s1 \<and> c \<noteq> d1 \<and> c \<noteq> d2"
    using spared calculation by (auto simp: assms(15))
  moreover have "consumer_turns vs = length (pl_cameras s1) + 4"
    using assms(16) build_facts(3) [OF run_build [OF assms(9)]] by simp
  ultimately show ?thesis
    using slot_to_sink [OF run_shape [OF assms(9,1)] assms(10) b(3,4) assms(7,8) assms(13) [unfolded assms(15)] _
        assms(14) b(2)] unfolding assms(15) by blast
qed

text \<open>One camera, and a schedule whose turns get new blocks.\<close>

definition at_camera :: "(nat camera_rig, unit, frame list option list, frame list) orchestrator" where
  "at_camera = snd (pipeline_run work_ports [ConsumerTurn False 30 31 None, ProducerTurn 0 32 33] work_started)"

lemma at_camera_eq:
  "at_camera = work_pipeline
     \<lparr>pl_cameras := [rig_start work_rig], pl_running := True, pl_producers := [PCapture], pl_consumer := CPop\<rparr>"
proof -
  have "camera_is_running (rig_camera (rig_start work_rig))" by code_simp
  then have started: "work_started = work_pipeline
      \<lparr>pl_cameras := [rig_start work_rig], pl_running := True, pl_producers := [PCheck], pl_consumer := CCheck\<rparr>"
    by (simp add: work_started_def pipeline_start_def work_pipeline_def orchestrator_new_def work_ports_def
        device_ports_def)
  show ?thesis
    by (simp add: at_camera_def started consumer_turn_def producer_turn_def work_pipeline_def orchestrator_new_def)
qed

lemma at_camera_state:
  "pl_producers at_camera = [PCapture]" "pl_consumer at_camera = CPop" "\<not> pl_crashed at_camera"
  "pl_cameras at_camera = [rig_start work_rig]" "pl_sink at_camera = [Some [], None]"
  "pl_memory at_camera = (\<lambda>b. None)" "pl_slots at_camera = [slot_new]"
  by (simp_all add: at_camera_eq work_pipeline_def orchestrator_new_def)

lemma at_camera_shape: "pipeline_shape at_camera"
  by (simp add: pipeline_shape_def at_camera_state)

definition first_raw :: frame where
  "first_raw = small_nv12\<lparr>fr_id := 0, fr_captured_at := 5\<rparr>"

definition first_memory :: memory where
  "first_memory = fst (snd (rig_capture (\<lambda>b. None) (rig_start work_rig)))"

lemma first_capture:
  "fst (rig_capture (\<lambda>b. None) (rig_start work_rig)) = Some first_raw"
  "first_memory 0 = Some [10, 20, 30, 40, 50, 60]"
  by code_simp+

lemma first_got:
  obtains rig where "rig_capture (pl_memory at_camera) (pl_cameras at_camera ! 0) = (Some first_raw, first_memory, rig)"
  using first_capture(1) by (simp add: at_camera_state first_memory_def) (metis prod.collapse)

lemma first_raw_usable:
  "tight_nv12 first_memory first_raw" "alloc_ok small_cv first_raw"
  "luma_rows first_memory first_raw = [[10, 20], [30, 40]]" "chroma_rows first_memory first_raw = [[50, 60]]"
  by (simp_all add: tight_nv12_def alloc_ok_def small_cv_def first_raw_def small_nv12_def plane_readable_def
      read_bytes_def first_capture luma_rows_def chroma_rows_def picture_rows_def plane_bytes_def upt_rec)

definition produce_turns :: "thread_turn list" where
  "produce_turns = [ProducerTurn 0 1 2, ProducerTurn 0 3 4, ProducerTurn 0 5 6, ProducerTurn 0 7 8]"

definition consume_turns :: "thread_turn list" where
  "consume_turns =
     [ConsumerTurn False 9 10 None, ConsumerTurn False 11 12 None, ConsumerTurn False 13 14 None,
      ConsumerTurn False 15 16 None, ConsumerTurn False 17 18 None, ConsumerTurn False 19 20 None]"

lemma fresh_schedule: "fresh_blocks (concat (map turn_blocks (produce_turns @ consume_turns))) at_camera"
proof -
  have "concat (map turn_blocks (produce_turns @ consume_turns)) = [1..<21]"
    by (simp add: produce_turns_def consume_turns_def upt_rec)
  then show ?thesis
    by (simp add: fresh_blocks_def at_camera_state rig_avoids_def rig_start_def work_rig_def)
qed

text \<open>Neither half crashes.\<close>

lemma produced_alive:
  fixes s :: "('f camera_rig, unit, 'k option list, 'r) orchestrator" and X :: "'x double_ops"
  assumes "pipeline_shape s" "pl_producers s \<noteq> []" "\<not> sl_closed (pl_slots s ! 0)" "pl_producers s ! 0 = PCapture"
    and "rig_capture (pl_memory s) (pl_cameras s ! 0) = (Some raw, m, rig)" "\<not> pl_crashed s"
    and "tight_nv12 m raw" "alloc_ok cv raw" "cv_documented cv"
    and "fresh_blocks bs s" "p1 \<in> set bs" "p2 \<in> set bs" "p1 \<noteq> p2" "own_buffers raw s"
    and "pipeline_run (device_ports cv X push tap)
      [ProducerTurn 0 a1 a2, ProducerTurn 0 p1 p2, ProducerTurn 0 q1 q2, ProducerTurn 0 e1 e2] s = (os, t)"
  shows "\<not> pl_crashed t"
proof -
  let ?P = "device_ports cv X push tap :: ('f camera_rig, unit, 'k option list, 'r, 'x) pipeline_ports"
  obtain o1 s1 where r1: "pipeline_run ?P [ProducerTurn 0 a1 a2] s = (o1, s1)" by fastforce
  obtain o2 s2 where r2: "pipeline_turn ?P (ProducerTurn 0 p1 p2) s1 = (o2, s2)" by fastforce
  obtain o3 s3 where r3: "pipeline_turn ?P (ProducerTurn 0 q1 q2) s2 = (o3, s3)" by fastforce
  obtain o4 where r4: "pipeline_turn ?P (ProducerTurn 0 e1 e2) s3 = (o4, t)"
    using assms(15) r1 r2 r3 by (auto split: prod.splits)
  have n: "0 < length (pl_producers s)" "0 < length (pl_slots s)" using assms(1,2) by (auto simp: pipeline_shape_def)
  have "s1 = s\<lparr>pl_cameras := (pl_cameras s)[0 := rig], pl_memory := m, pl_producers := (pl_producers s)[0 := PProcess raw]\<rparr>"
    using r1 capture_turn [of s 0 ?P raw m rig a1 a2] assms(4-6) n by (simp add: device_ports_def)
  then have alive1: "\<not> pl_crashed s1" using assms(6) by simp
  note b1 = build_facts [OF run_build [OF r1]] and b2 = build_facts [OF turn_build [OF r2]]
    and b3 = build_facts [OF turn_build [OF r3]]
  note c = captured [OF assms(1,2,4,5,7) r1 _ alive1 assms(10) _ assms(14)]
  have c1: "pl_producers s1 ! 0 = PProcess raw" "tight_nv12 (pl_memory s1) raw" "pl_memory s1 p1 = None"
    "pl_memory s1 p2 = None" using c(1,2) c(4) [OF _ _ assms(11)] c(4) [OF _ _ assms(12)] by (simp_all add: producer_turns_def)
  have "pl_producers s1 \<noteq> []" using n b1(1) by auto
  then obtain bd where s2: "pl_producers s2 ! 0 = PTap bd" "\<not> pl_crashed s2"
    using processed [OF c1(1) _ alive1 c1(2) assms(8,9) c1(3,4) assms(13) r2] by auto
  note s3 = tap_turn [OF s2(1) _ s2(2) r3]
  have "\<not> sl_closed (pl_slots s3 ! 0)" using assms(3) n b1(2,4) b2(2,4) b3(2,4) by simp
  then show ?thesis using push_turn(2) [OF s3(1) _ s3(2) _ _ r4] s3 n b1(1,2) b2(1,2) b3(1,2) by simp
qed

lemma produced:
  defines "s1 \<equiv> snd (pipeline_run work_ports produce_turns at_camera)"
  shows "\<not> pl_crashed s1" "pl_consumer s1 = CPop" "pl_sink s1 = [Some [], None]"
proof -
  obtain rig where got: "rig_capture (pl_memory at_camera) (pl_cameras at_camera ! 0) = (Some first_raw, first_memory, rig)"
    by (rule first_got)
  have run: "pipeline_run work_ports produce_turns at_camera =
      (fst (pipeline_run work_ports produce_turns at_camera), s1)" by (simp add: s1_def)
  show "\<not> pl_crashed s1"
    by (rule produced_alive [OF at_camera_shape _ _ _ got at_camera_state(3) first_raw_usable(1,2) small_cv_documented
        fresh_schedule _ _ _ _ run [unfolded work_ports_def produce_turns_def]])
      (use at_camera_state in \<open>auto simp: own_buffers_def slot_new_def produce_turns_def consume_turns_def\<close>)
  show "pl_consumer s1 = CPop" "pl_sink s1 = [Some [], None]"
    using run_without_consumer [OF run] at_camera_state(2,5)
    by (simp_all add: produce_turns_def consumer_turns_def)
qed

lemma consumed_alive:
  fixes s :: "('f camera_rig, unit, 'k option list, 'r) orchestrator" and X :: "'x double_ops"
  assumes "pl_consumer s = CPop" "sl_slot (pl_slots s ! 0) = Some \<lparr>fb_source = src, fb_ai = ai\<rparr>"
    and "\<not> pl_crashed s" "length (pl_cameras s) = 1"
    and "copied m raw (pl_memory s) b src" "alloc_ok cv raw" "cv_documented cv" "b \<notin> {b1, b2, c1, c2, d1, d2}"
    and "pipeline_run (device_ports cv X push tap)
      [ConsumerTurn w b1 b2 None, ConsumerTurn w c1 c2 None, ConsumerTurn w d1 d2 None,
       ConsumerTurn w e1 e2 None, ConsumerTurn w f1 f2 None, ConsumerTurn w g1 g2 None] s = (os, t)"
  shows "\<not> pl_crashed t"
proof -
  let ?P = "device_ports cv X push tap :: ('f camera_rig, unit, 'k option list, 'r, 'x) pipeline_ports"
  obtain o1 s1 where r1: "pipeline_turn ?P (ConsumerTurn w b1 b2 None) s = (o1, s1)" by fastforce
  obtain o2 s2 where r2: "pipeline_turn ?P (ConsumerTurn w c1 c2 None) s1 = (o2, s2)" by fastforce
  obtain o3 s3 where r3: "pipeline_turn ?P (ConsumerTurn w d1 d2 None) s2 = (o3, s3)" by fastforce
  obtain o4 s4 where r4: "pipeline_turn ?P (ConsumerTurn w e1 e2 None) s3 = (o4, s4)" by fastforce
  obtain o5 s5 where r5: "pipeline_turn ?P (ConsumerTurn w f1 f2 None) s4 = (o5, s5)" by fastforce
  obtain o6 where r6: "pipeline_turn ?P (ConsumerTurn w g1 g2 None) s5 = (o6, t)"
    using assms(9) r1 r2 r3 r4 r5 by (auto split: prod.splits)
  have "pl_cameras s \<noteq> []" using assms(4) by auto
  note k1 = taken [OF assms(1,2,3) this r1]
  note n1 = build_facts(3) [OF turn_build [OF r1]] and n2 = build_facts(3) [OF turn_build [OF r2]]
  obtain l1 where "pl_consumer s1 = CSample 0 (Some \<lparr>fb_source = src, fb_ai = ai\<rparr> # l1)" using k1(5) ..
  from sample_turn [OF this k1(6) r2] n1 assms(4) obtain l2
    where k2: "pl_consumer s2 = CSample 1 (Some \<lparr>fb_source = src, fb_ai = ai\<rparr> # l2)" "\<not> pl_crashed s2" by auto
  from sample_turn [OF this r3] n1 n2 assms(4) obtain l3
    where k3: "pl_consumer s3 = CDecide (Some \<lparr>fb_source = src, fb_ai = ai\<rparr> # l3)" "\<not> pl_crashed s3" by auto
  have alive: "consumer_turn ?P w b1 b2 None s = (o1, s1)" "consumer_turn ?P w c1 c2 None s1 = (o2, s2)"
    "consumer_turn ?P w d1 d2 None s2 = (o3, s3)"
    using r1 r2 r3 assms(3) k1(6) k2(2) by simp_all
  have "pl_memory s3 b = pl_memory s b"
    using device_blocks.consumer_keeps [OF alive(1), of b] device_blocks.consumer_keeps [OF alive(2), of b]
      device_blocks.consumer_keeps [OF alive(3), of b] assms(8) by simp
  then have "copied m raw (pl_memory s3) b src" using assms(5) by (simp add: copied_def)
  from decided [OF k3 this assms(6,7) r4] obtain f where k4: "pl_consumer s4 = CStore f" "\<not> pl_crashed s4" by auto
  note k5 = store_turn [OF k4 r5]
  show ?thesis using deliver_turn [OF _ _ r6, of f] k5 by blast
qed

theorem sensor_to_sink_witness:
  "\<exists>f c1 c2 s1 os' s'.
     pipeline_run work_ports produce_turns at_camera = (fst (pipeline_run work_ports produce_turns at_camera), s1) \<and>
     pipeline_run work_ports consume_turns s1 = (os', s') \<and>
     sink_frame small_cv exact_ops first_memory first_raw c1 c2 None f (pl_memory s') \<and>
     delivered os' = [f] \<and> grab_latest s' = Some f \<and> pl_sink s' = [Some [f], None]"
proof -
  define s1 where "s1 = snd (pipeline_run work_ports produce_turns at_camera)"
  define s' where "s' = snd (pipeline_run work_ports consume_turns s1)"
  obtain rig where got: "rig_capture (pl_memory at_camera) (pl_cameras at_camera ! 0) = (Some first_raw, first_memory, rig)"
    by (rule first_got)
  have run: "pipeline_run work_ports produce_turns at_camera =
      (fst (pipeline_run work_ports produce_turns at_camera), s1)" by (simp add: s1_def)
  obtain os' where run': "pipeline_run work_ports consume_turns s1 = (os', s')"
    by (metis s'_def prod.collapse)
  note p = produced [folded s1_def]
  have pre: "pl_producers at_camera \<noteq> []" "\<not> sl_closed (pl_slots at_camera ! 0)"
    "pl_producers at_camera ! 0 = PCapture" "own_buffers first_raw at_camera"
    using at_camera_state by (auto simp: own_buffers_def slot_new_def)
  have shape: "produce_turns = ProducerTurn 0 1 2 # [ProducerTurn 0 3 4, ProducerTurn 0 5 6] @ [ProducerTurn 0 7 8]"
    by (simp add: produce_turns_def)
  have shape': "consume_turns = ConsumerTurn False 9 10 None # tl consume_turns"
    by (simp add: consume_turns_def)
  have fresh: "fresh_blocks (concat (map turn_blocks (ProducerTurn 0 1 2 # [ProducerTurn 0 3 4, ProducerTurn 0 5 6] @
      [ProducerTurn 0 7 8])) @ concat (map turn_blocks consume_turns)) at_camera"
    using fresh_schedule by (simp add: produce_turns_def)
  obtain b src ai where b: "b \<in> set (concat (map turn_blocks [ProducerTurn 0 3 4, ProducerTurn 0 5 6]))"
    "sl_slot (pl_slots s1 ! 0) = Some \<lparr>fb_source = src, fb_ai = ai\<rparr>"
    "copied first_memory first_raw (pl_memory s1) b src"
    by (rule frame_into_slot [OF at_camera_shape pre(1-3) got first_raw_usable(1,2) small_cv_documented
        run [unfolded work_ports_def shape] _ p(1) fresh pre(4)]) (simp_all add: producer_turns_def)
  have cams: "length (pl_cameras s1) = 1"
    using build_facts(3) [OF run_build [OF run]] at_camera_state(4) by simp
  have alive: "\<not> pl_crashed s'"
    by (rule consumed_alive [OF p(2) b(2) p(1) cams b(3) first_raw_usable(2) small_cv_documented _
        run' [unfolded work_ports_def consume_turns_def]]) (use b(1) in auto)
  have "\<exists>w' c1 c2 overlay f. ConsumerTurn w' c1 c2 overlay \<in> set (tl consume_turns) \<and>
      sink_frame small_cv exact_ops first_memory first_raw c1 c2 overlay f (pl_memory s') \<and>
      delivered os' = [f] \<and> pl_latest s' = Some f \<and>
      pl_sink s' = fan_out_push append_frame f (pl_sink s1)"
    by (rule sensor_to_sink [OF at_camera_shape pre(1-3) got first_raw_usable(1,2) small_cv_documented
        run [unfolded work_ports_def] p(2) shape _ run' [unfolded work_ports_def] alive shape' _ fresh_schedule pre(4)])
      (simp_all add: producer_turns_def consumer_turns_def at_camera_state consume_turns_def del: One_nat_def)
  then obtain c1 c2 f where "sink_frame small_cv exact_ops first_memory first_raw c1 c2 None f (pl_memory s')"
    "delivered os' = [f]" "pl_latest s' = Some f" "pl_sink s' = [Some [f], None]"
    using p(3) by (auto simp: consume_turns_def append_frame_def)
  then show ?thesis using run run' unfolding grab_latest_def by blast
qed

end
