(* ===== verification/Transport.thy ===== *)
theory Transport
  imports Chunks Control
begin

text \<open>
  The BLE transport: \<^verbatim>\<open>adapters/control/ble/bluez/bluez-ble-transport.cpp\<close> over the GATT objects of
  \<^verbatim>\<open>gatt-application.cpp\<close> and the chunk assembler of theory Chunks.

  Serialization is generated code and an argument (\<^verbatim>\<open>wire\<close>); what D-Bus answers is an argument of
  Start and Stop.  The callbacks work on a world of their own, the services behind the dispatcher.
  A write to the command characteristic is the locked part, the callbacks outside the lock, and
  the locked sending of the response.
\<close>

section \<open>Constants\<close>

definition kGattServiceUuid :: string where
  "kGattServiceUuid = ''a1b2c3d4-0001-0000-8000-00805f9b34fb''"

definition kGattCommandCharUuid :: string where
  "kGattCommandCharUuid = ''a1b2c3d4-0011-0000-8000-00805f9b34fb''"

definition kGattResponseCharUuid :: string where
  "kGattResponseCharUuid = ''a1b2c3d4-0012-0000-8000-00805f9b34fb''"

definition kIfaceGattService :: string where "kIfaceGattService = ''org.bluez.GattService1''"
definition kIfaceGattChar :: string where "kIfaceGattChar = ''org.bluez.GattCharacteristic1''"
definition kIfaceLeAdv :: string where "kIfaceLeAdv = ''org.bluez.LEAdvertisement1''"

section \<open>GATT objects\<close>

datatype variant =
    VString string | VBool bool | VPath string | VStrings "string list" | VBytes "u8 list"

text \<open>\<^verbatim>\<open>ga_signals\<close> lists the values sent out with PropertiesChanged.\<close>

record gatt_app =
  ga_root_path :: string
  ga_service_path :: string
  ga_command_path :: string
  ga_response_path :: string
  ga_service_uuid :: string
  ga_command_uuid :: string
  ga_response_uuid :: string
  ga_value :: "u8 list"
  ga_notifying :: bool
  ga_signals :: "u8 list list"

definition gatt_new :: "string \<Rightarrow> string \<Rightarrow> string \<Rightarrow> string \<Rightarrow> gatt_app" where
  "gatt_new root_path service command response =
     \<lparr>ga_root_path = root_path, ga_service_path = root_path @ ''/service0'',
      ga_command_path = root_path @ ''/service0'' @ ''/char0'',
      ga_response_path = root_path @ ''/service0'' @ ''/char1'',
      ga_service_uuid = service, ga_command_uuid = command, ga_response_uuid = response,
      ga_value = [], ga_notifying = False, ga_signals = []\<rparr>"

text \<open>The getters of the three objects by interface and property name.\<close>

definition service_property :: "gatt_app \<Rightarrow> string \<Rightarrow> variant option" where
  "service_property g name =
     (if name = ''UUID'' then Some (VString (ga_service_uuid g))
      else if name = ''Primary'' then Some (VBool True)
      else None)"

definition command_property :: "gatt_app \<Rightarrow> string \<Rightarrow> variant option" where
  "command_property g name =
     (if name = ''UUID'' then Some (VString (ga_command_uuid g))
      else if name = ''Service'' then Some (VPath (ga_service_path g))
      else if name = ''Flags'' then Some (VStrings [''write-without-response''])
      else None)"

definition response_property :: "gatt_app \<Rightarrow> string \<Rightarrow> variant option" where
  "response_property g name =
     (if name = ''UUID'' then Some (VString (ga_response_uuid g))
      else if name = ''Service'' then Some (VPath (ga_service_path g))
      else if name = ''Flags'' then Some (VStrings [''notify''])
      else if name = ''Value'' then Some (VBytes (ga_value g))
      else if name = ''Notifying'' then Some (VBool (ga_notifying g))
      else None)"

text \<open>What BlueZ is told with GetManagedObjects: path, interface, properties.\<close>

definition managed_objects :: "gatt_app \<Rightarrow> (string \<times> string \<times> (string \<times> variant) list) list" where
  "managed_objects g =
     [(ga_service_path g, kIfaceGattService,
        [(''UUID'', VString (ga_service_uuid g)), (''Primary'', VBool True)]),
      (ga_command_path g, kIfaceGattChar,
        [(''UUID'', VString (ga_command_uuid g)), (''Service'', VPath (ga_service_path g)),
         (''Flags'', VStrings [''write-without-response''])]),
      (ga_response_path g, kIfaceGattChar,
        [(''UUID'', VString (ga_response_uuid g)), (''Service'', VPath (ga_service_path g)),
         (''Flags'', VStrings [''notify''])])]"

definition command_read_value :: "gatt_app \<Rightarrow> u8 list" where "command_read_value g = []"
definition response_read_value :: "gatt_app \<Rightarrow> u8 list" where "response_read_value g = ga_value g"

definition start_notify :: "gatt_app \<Rightarrow> gatt_app" where "start_notify g = g\<lparr>ga_notifying := True\<rparr>"
definition stop_notify :: "gatt_app \<Rightarrow> gatt_app" where "stop_notify g = g\<lparr>ga_notifying := False\<rparr>"

definition send_notification :: "u8 list \<Rightarrow> gatt_app \<Rightarrow> gatt_app" where
  "send_notification bytes g = g\<lparr>ga_value := bytes, ga_signals := ga_signals g @ [bytes]\<rparr>"

section \<open>The transport\<close>

record wire =
  wi_parse_chunk :: "u8 list \<Rightarrow> chunked_payload option"
  wi_chunk :: "chunked_payload \<Rightarrow> u8 list"
  wi_ack :: "chunk_ack \<Rightarrow> u8 list"
  wi_parse_command :: "string \<Rightarrow> command option"
  wi_response :: "command_response \<Rightarrow> string"

record 'w transport =
  bt_name :: string
  bt_adapter_path :: string
  bt_app_root :: string
  bt_adv_path :: string
  bt_connection :: bool
  bt_adv_obj :: bool
  bt_gatt :: "gatt_app option"
  bt_on_command :: "(command \<Rightarrow> 'w \<Rightarrow> command_response option \<times> 'w) option"
  bt_on_connect :: "('w \<Rightarrow> 'w) option"
  bt_on_disconnect :: "('w \<Rightarrow> 'w) option"
  bt_central :: bool
  bt_cfg :: chunk_cfg
  bt_assembler :: assembler
  bt_running :: bool
  bt_adv_registered :: bool
  bt_app_registered :: bool

definition transport_new :: "string \<Rightarrow> string \<Rightarrow> 'w transport" where
  "transport_new name adapter =
     \<lparr>bt_name = name, bt_adapter_path = adapter, bt_app_root = ''/com/sst/cam/gatt'',
      bt_adv_path = ''/com/sst/cam/adv'', bt_connection = False, bt_adv_obj = False, bt_gatt = None,
      bt_on_command = None, bt_on_connect = None, bt_on_disconnect = None, bt_central = False,
      bt_cfg = default_chunk_cfg, bt_assembler = assembler_new, bt_running = False,
      bt_adv_registered = False, bt_app_registered = False\<rparr>"

definition set_on_command ::
  "(command \<Rightarrow> 'w \<Rightarrow> command_response option \<times> 'w) \<Rightarrow> 'w transport \<Rightarrow> 'w transport" where
  "set_on_command h t = t\<lparr>bt_on_command := Some h\<rparr>"

definition set_on_connect :: "('w \<Rightarrow> 'w) \<Rightarrow> 'w transport \<Rightarrow> 'w transport" where
  "set_on_connect h t = t\<lparr>bt_on_connect := Some h\<rparr>"

definition set_on_disconnect :: "('w \<Rightarrow> 'w) \<Rightarrow> 'w transport \<Rightarrow> 'w transport" where
  "set_on_disconnect h t = t\<lparr>bt_on_disconnect := Some h\<rparr>"

definition transport_is_running :: "'w transport \<Rightarrow> bool" where
  "transport_is_running t \<longleftrightarrow> bt_running t"

text \<open>The properties of the advertisement object.\<close>

definition adv_property :: "'w transport \<Rightarrow> string \<Rightarrow> variant option" where
  "adv_property t name =
     (if name = ''Type'' then Some (VString ''peripheral'')
      else if name = ''ServiceUUIDs'' then Some (VStrings [kGattServiceUuid])
      else if name = ''LocalName'' then Some (VString (bt_name t))
      else if name = ''Includes'' then Some (VStrings [''tx-power''])
      else None)"

section \<open>Sending\<close>

definition notify :: "u8 list \<Rightarrow> 'w transport \<Rightarrow> 'w transport" where
  "notify bytes t =
     (case bt_gatt t of
        None \<Rightarrow> t
      | Some g \<Rightarrow> t\<lparr>bt_gatt := Some (send_notification bytes g)\<rparr>)"

definition send_inbound_ack :: "wire \<Rightarrow> string \<Rightarrow> u32 \<Rightarrow> 'w transport \<Rightarrow> 'w transport" where
  "send_inbound_ack W corr index t = notify (wi_ack W (build_inbound_ack corr index)) t"

definition send_response :: "wire \<Rightarrow> command_response \<Rightarrow> 'w transport \<Rightarrow> 'w transport option" where
  "send_response W r t =
     (if bt_gatt t = None then Some t
      else
        (case begin_outbound (bt_cfg t) (cr_correlation_id r) (wi_response W r) True (bt_assembler t) of
           None \<Rightarrow> None
         | Some (chunks, count, asm) \<Rightarrow>
             Some (fold (\<lambda>c. notify (wi_chunk W c)) chunks (t\<lparr>bt_assembler := asm\<rparr>))))"

section \<open>Receiving\<close>

text \<open>Under the lock: whether to report a connection, and the command that is now complete.\<close>

definition receive_chunk ::
  "wire \<Rightarrow> chunked_payload \<Rightarrow> 'w transport \<Rightarrow> bool \<times> command option \<times> 'w transport" where
  "receive_chunk W c t =
     (let fresh = \<not> bt_central t; t1 = t\<lparr>bt_central := True\<rparr>
      in if cp_total c = kChunkAckTotalChunks
         then (case on_ack (cp_corr c) (cp_index c) (bt_assembler t1) of
                 (finished, chunks, asm) \<Rightarrow>
                   (fresh, None, fold (\<lambda>c. notify (wi_chunk W c)) chunks (t1\<lparr>bt_assembler := asm\<rparr>)))
         else (case offer_inbound (bt_cfg t1) c (bt_assembler t1) of
                 (r, asm) \<Rightarrow>
                   let t2 = t1\<lparr>bt_assembler := asm\<rparr>;
                       t3 = (if of_accepted r then send_inbound_ack W (cp_corr c) (cp_index c) t2
                             else t2)
                   in (fresh,
                       (case of_payload r of None \<Rightarrow> None | Some payload \<Rightarrow> wi_parse_command W payload),
                       t3)))"

text \<open>The whole write; None is undefined behaviour.\<close>

definition on_raw_command ::
  "wire \<Rightarrow> u8 list \<Rightarrow> 'w transport \<Rightarrow> 'w \<Rightarrow> ('w transport \<times> 'w) option" where
  "on_raw_command W bytes t w =
     (case wi_parse_chunk W bytes of
        None \<Rightarrow> Some (t, w)
      | Some c \<Rightarrow>
          (case receive_chunk W c t of
             (fresh, cmd, t1) \<Rightarrow>
               let w1 = (if fresh then (case bt_on_connect t of None \<Rightarrow> w | Some f \<Rightarrow> f w) else w)
               in (case cmd of
                     None \<Rightarrow> Some (t1, w1)
                   | Some command \<Rightarrow>
                       (case bt_on_command t1 of
                          None \<Rightarrow> Some (t1, w1)
                        | Some h \<Rightarrow>
                            (case h command w1 of
                               (None, w2) \<Rightarrow> None
                             | (Some r, w2) \<Rightarrow>
                                 (case send_response W r t1 of
                                    None \<Rightarrow> None
                                  | Some t2 \<Rightarrow> Some (t2, w2)))))))"

definition write_value ::
  "wire \<Rightarrow> u8 list \<Rightarrow> 'w transport \<Rightarrow> 'w \<Rightarrow> ('w transport \<times> 'w) option" where
  "write_value W bytes t w = on_raw_command W bytes t w"

section \<open>Start and Stop\<close>

record stop_answers =
  xa_proxy :: bool
  xa_unregister_adv :: bool
  xa_unregister_app :: bool

definition transport_stop :: "stop_answers \<Rightarrow> 'w transport \<Rightarrow> 'w \<Rightarrow> 'w transport \<times> 'w" where
  "transport_stop x t w =
     (if \<not> bt_running t \<and> \<not> bt_adv_registered t \<and> \<not> bt_app_registered t \<and> \<not> bt_connection t
      then (t, w)
      else
        let w1 = (if bt_central t
                  then (case bt_on_disconnect t of None \<Rightarrow> w | Some f \<Rightarrow> f w) else w);
            t1 = t\<lparr>bt_central := False\<rparr>;
            t2 = (if bt_connection t1 \<and> (bt_adv_registered t1 \<or> bt_app_registered t1)
                  then if \<not> xa_proxy x then t1
                       else if bt_adv_registered t1 \<and> \<not> xa_unregister_adv x then t1
                       else
                         let t' = t1\<lparr>bt_adv_registered := False\<rparr>
                         in if bt_app_registered t' \<and> \<not> xa_unregister_app x then t'
                            else t'\<lparr>bt_app_registered := False\<rparr>
                  else t1)
        in (t2\<lparr>bt_assembler := assembler_reset (bt_assembler t2), bt_gatt := None,
               bt_adv_obj := False, bt_connection := False, bt_running := False\<rparr>, w1))"

definition transport_destroy :: "stop_answers \<Rightarrow> 'w transport \<Rightarrow> 'w \<Rightarrow> 'w transport \<times> 'w" where
  "transport_destroy x t w = (if bt_running t then transport_stop x t w else (t, w))"

record start_answers =
  ya_connection :: bool
  ya_gatt :: bool
  ya_adv_object :: bool
  ya_advertisement :: bool
  ya_register_adv :: bool
  ya_register_app :: bool
  ya_event_loop :: bool

text \<open>The steps of Start inside its try block; False is an sdbus error.\<close>

definition start_steps :: "start_answers \<Rightarrow> 'w transport \<Rightarrow> bool \<times> 'w transport" where
  "start_steps y t =
     (if \<not> ya_gatt y then (False, t)
      else
        let t1 = t\<lparr>bt_gatt := Some (gatt_new (bt_app_root t) kGattServiceUuid kGattCommandCharUuid
                                   kGattResponseCharUuid)\<rparr>
        in if \<not> ya_adv_object y then (False, t1)
           else if \<not> ya_advertisement y then (False, t1\<lparr>bt_adv_obj := True\<rparr>)
           else
             let t2 = t1\<lparr>bt_adv_obj := True\<rparr>
             in if \<not> ya_register_adv y then (False, t2)
                else
                  let t3 = t2\<lparr>bt_adv_registered := True\<rparr>
                  in if \<not> ya_register_app y then (False, t3)
                     else
                       let t4 = t3\<lparr>bt_app_registered := True\<rparr>
                       in if \<not> ya_event_loop y then (False, t4) else (True, t4\<lparr>bt_running := True\<rparr>))"

definition transport_start ::
  "start_answers \<Rightarrow> stop_answers \<Rightarrow> 'w transport \<Rightarrow> 'w \<Rightarrow> 'w transport \<times> 'w" where
  "transport_start y x t w =
     (if bt_running t then (t, w)
      else if \<not> ya_connection y then (t, w)
      else
        (case start_steps y (t\<lparr>bt_connection := True\<rparr>) of
           (True, t1) \<Rightarrow> (t1, w)
         | (False, t1) \<Rightarrow> transport_stop x t1 w))"

end
