(* ===== verification/TransportProps.thy ===== *)
theory TransportProps
  imports Transport
begin

text \<open>
  The BLE transport over its life: what holds between its calls, how connects and disconnects
  alternate, and the exchange of one command for its response through the chunk framing.
\<close>

section \<open>Notifications\<close>

lemma notify_keeps [simp]:
  "bt_name (notify b t) = bt_name t" "bt_connection (notify b t) = bt_connection t"
  "bt_adv_obj (notify b t) = bt_adv_obj t" "bt_on_command (notify b t) = bt_on_command t"
  "bt_on_connect (notify b t) = bt_on_connect t"
  "bt_on_disconnect (notify b t) = bt_on_disconnect t"
  "bt_central (notify b t) = bt_central t" "bt_cfg (notify b t) = bt_cfg t"
  "bt_assembler (notify b t) = bt_assembler t" "bt_running (notify b t) = bt_running t"
  "bt_adv_registered (notify b t) = bt_adv_registered t"
  "bt_app_registered (notify b t) = bt_app_registered t"
  "bt_gatt (notify b t) = None \<longleftrightarrow> bt_gatt t = None"
  by (simp_all add: notify_def split: option.split)

text \<open>What all calls of the transport but its sends keep, up to the assembler.\<close>

definition same_link_state :: "'w transport \<Rightarrow> 'w transport \<Rightarrow> bool" where
  "same_link_state t u \<longleftrightarrow>
     bt_connection u = bt_connection t \<and> bt_adv_obj u = bt_adv_obj t \<and>
     bt_on_command u = bt_on_command t \<and> bt_on_connect u = bt_on_connect t \<and>
     bt_on_disconnect u = bt_on_disconnect t \<and> bt_cfg u = bt_cfg t \<and>
     bt_running u = bt_running t \<and> bt_adv_registered u = bt_adv_registered t \<and>
     bt_app_registered u = bt_app_registered t \<and> (bt_gatt u = None \<longleftrightarrow> bt_gatt t = None)"

lemma same_link_refl [simp]: "same_link_state t t"
  by (simp add: same_link_state_def)

lemma same_link_trans: "\<lbrakk>same_link_state t u; same_link_state u v\<rbrakk> \<Longrightarrow> same_link_state t v"
  by (simp add: same_link_state_def)

lemma notify_same [simp]: "same_link_state t (notify b u) \<longleftrightarrow> same_link_state t u"
  by (simp add: same_link_state_def)

lemma notify_all_same [simp]:
  "same_link_state t (fold (\<lambda>c. notify (k c)) cs u) \<longleftrightarrow> same_link_state t u"
  "bt_central (fold (\<lambda>c. notify (k c)) cs u) = bt_central u"
  "bt_assembler (fold (\<lambda>c. notify (k c)) cs u) = bt_assembler u"
  by (induction cs arbitrary: u) simp_all

lemma same_link_update [simp]:
  "same_link_state t (u\<lparr>bt_assembler := a\<rparr>) \<longleftrightarrow> same_link_state t u"
  "same_link_state t (u\<lparr>bt_central := b\<rparr>) \<longleftrightarrow> same_link_state t u"
  by (simp_all add: same_link_state_def)

text \<open>The signals a notification adds.\<close>

definition sent_out :: "'w transport \<Rightarrow> u8 list list" where
  "sent_out t = (case bt_gatt t of None \<Rightarrow> [] | Some g \<Rightarrow> ga_signals g)"

lemma sent_notify: "bt_gatt t \<noteq> None \<Longrightarrow> sent_out (notify b t) = sent_out t @ [b]"
  by (auto simp: sent_out_def notify_def send_notification_def)

lemma sent_update [simp]:
  "sent_out (t\<lparr>bt_assembler := a\<rparr>) = sent_out t" "sent_out (t\<lparr>bt_central := c\<rparr>) = sent_out t"
  by (simp_all add: sent_out_def)

section \<open>A write of the central\<close>

lemma receive_chunk_link:
  assumes "receive_chunk W c t = (fresh, cmd, t1)"
  shows "same_link_state t t1 \<and> bt_central t1 \<and> fresh = (\<not> bt_central t) \<and>
    (assembler_inv (bt_cfg t) (bt_assembler t) \<longrightarrow> assembler_inv (bt_cfg t) (bt_assembler t1))"
proof (cases "cp_total c = kChunkAckTotalChunks")
  case True
  obtain d chunks a where A: "on_ack (cp_corr c) (cp_index c) (bt_assembler t) = (d, chunks, a)"
    by (metis prod_cases3)
  then show ?thesis
    using assms True on_ack_inv [of "bt_cfg t" "bt_assembler t" "cp_corr c" "cp_index c"]
    by (auto simp: receive_chunk_def Let_def)
next
  case False
  obtain r a where O: "offer_inbound (bt_cfg t) c (bt_assembler t) = (r, a)" by fastforce
  then show ?thesis
    using assms False offer_inbound_inv [of "bt_cfg t" "bt_assembler t" c]
    by (auto simp: receive_chunk_def Let_def send_inbound_ack_def)
qed

lemma send_response_link:
  assumes "send_response W r t = Some t1"
  shows "same_link_state t t1 \<and> bt_central t1 = bt_central t \<and>
    (assembler_inv (bt_cfg t) (bt_assembler t) \<longrightarrow> assembler_inv (bt_cfg t) (bt_assembler t1))"
proof (cases "bt_gatt t = None")
  case False
  then obtain cs n a where
    "begin_outbound (bt_cfg t) (cr_correlation_id r) (wi_response W r) True (bt_assembler t) = Some (cs, n, a)"
    using assms by (auto simp: send_response_def split: option.splits)
  then show ?thesis
    using assms False begin_outbound_inv by (fastforce simp: send_response_def)
qed (use assms in \<open>simp add: send_response_def\<close>)

text \<open>What one write does to the link and to the world behind the callbacks: a first write
  connects, and a complete command is handled.\<close>

definition world_at :: "'w transport \<Rightarrow> 'w \<Rightarrow> 'w" where
  "world_at t w =
     (if bt_central t then w else (case bt_on_connect t of None \<Rightarrow> w | Some f \<Rightarrow> f w))"

definition on_write_world ::
  "'w transport \<Rightarrow> command option \<Rightarrow> 'w \<Rightarrow> 'w" where
  "on_write_world t cmd w =
     (case (cmd, bt_on_command t) of
        (Some c, Some h) \<Rightarrow> snd (h c (world_at t w))
      | _ \<Rightarrow> world_at t w)"

lemma on_raw_command_link:
  assumes "on_raw_command W bytes t w = Some (t1, w1)" "wi_parse_chunk W bytes = Some c"
  shows "same_link_state t t1 \<and> bt_central t1 \<and>
    (assembler_inv (bt_cfg t) (bt_assembler t) \<longrightarrow> assembler_inv (bt_cfg t) (bt_assembler t1)) \<and>
    w1 = on_write_world t (fst (snd (receive_chunk W c t))) w \<and>
    (\<forall>command h. fst (snd (receive_chunk W c t)) = Some command \<and> bt_on_command t = Some h \<longrightarrow>
       fst (h command (world_at t w)) \<noteq> None)"
proof -
  obtain fresh cmd u where R: "receive_chunk W c t = (fresh, cmd, u)" by (metis prod_cases3)
  note L = receive_chunk_link [OF R]
  have H: "bt_on_command u = bt_on_command t" and C: "bt_cfg u = bt_cfg t"
    using L by (simp_all add: same_link_state_def)
  show ?thesis
  proof (cases "\<exists>command h. cmd = Some command \<and> bt_on_command t = Some h")
    case False
    then show ?thesis
      using assms R L H
      by (auto simp: on_raw_command_def on_write_world_def world_at_def Let_def split: option.splits)
  next
    case True
    then obtain command h where cmd: "cmd = Some command" and h: "bt_on_command t = Some h" by auto
    obtain r w2 where hw: "h command (world_at t w) = (r, w2)" by fastforce
    obtain resp where r: "r = Some resp" and S: "send_response W resp u = Some t1" and w2: "w1 = w2"
      using assms R L H cmd h hw
      by (auto simp: on_raw_command_def world_at_def Let_def split: option.splits if_splits)
    show ?thesis
      using R L C send_response_link [OF S] cmd h hw r w2
      by (auto simp: on_write_world_def intro: same_link_trans)
  qed
qed

lemma on_raw_command_garbage:
  "wi_parse_chunk W bytes = None \<Longrightarrow> on_raw_command W bytes t w = Some (t, w)"
  by (simp add: on_raw_command_def)


section \<open>The life of the transport\<close>

text \<open>What can happen: Start and Stop with what D-Bus answers, and calls of BlueZ, which reach the
  GATT objects only while they exist.\<close>

datatype link_event =
    LinkStart start_answers stop_answers
  | LinkStop stop_answers
  | LinkWrite "u8 list"
  | LinkStartNotify
  | LinkStopNotify

definition on_gatt :: "(gatt_app \<Rightarrow> gatt_app) \<Rightarrow> 'w transport \<Rightarrow> 'w transport" where
  "on_gatt f t = t\<lparr>bt_gatt := map_option f (bt_gatt t)\<rparr>"

fun link_step :: "wire \<Rightarrow> link_event \<Rightarrow> 'w transport \<times> 'w \<Rightarrow> ('w transport \<times> 'w) option" where
  "link_step W (LinkStart y x) (t, w) = Some (transport_start y x t w)"
| "link_step W (LinkStop x) (t, w) = Some (transport_stop x t w)"
| "link_step W (LinkWrite bytes) (t, w) =
     (if bt_gatt t = None then Some (t, w) else write_value W bytes t w)"
| "link_step W LinkStartNotify (t, w) = Some (on_gatt start_notify t, w)"
| "link_step W LinkStopNotify (t, w) = Some (on_gatt stop_notify t, w)"

fun link_run :: "wire \<Rightarrow> link_event list \<Rightarrow> 'w transport \<times> 'w \<Rightarrow> ('w transport \<times> 'w) option" where
  "link_run W [] s = Some s"
| "link_run W (ev # evs) s =
     (case link_step W ev s of None \<Rightarrow> None | Some s1 \<Rightarrow> link_run W evs s1)"

text \<open>Between two calls everything the transport holds of D-Bus exists exactly while it runs.\<close>

definition transport_ok :: "'w transport \<Rightarrow> bool" where
  "transport_ok t \<longleftrightarrow>
     bt_connection t = bt_running t \<and> bt_adv_obj t = bt_running t \<and>
     (bt_gatt t \<noteq> None) = bt_running t \<and>
     (bt_running t \<longrightarrow> bt_adv_registered t \<and> bt_app_registered t) \<and>
     (bt_central t \<longrightarrow> bt_running t) \<and>
     assembler_inv (bt_cfg t) (bt_assembler t) \<and>
     (\<not> bt_running t \<longrightarrow> bt_assembler t = assembler_new)"

lemma reset_is_new [simp]: "assembler_reset a = assembler_new"
  by (simp add: assembler_reset_def assembler_new_def)

lemma new_assembler_inv: "assembler_inv cfg assembler_new"
  using assembler_reset_inv [of cfg assembler_new] by simp

lemma transport_new_ok: "transport_ok (transport_new name adapter)"
  by (simp add: transport_ok_def transport_new_def new_assembler_inv)

text \<open>Stop, from any state that is not already at rest, also in the middle of a failed Start.\<close>

lemma transport_stop_ends:
  assumes "transport_stop x t w = (t1, w1)"
  shows "bt_connection t1 = False \<or> t1 = t \<and> \<not> bt_connection t"
    and "bt_connection t \<Longrightarrow> transport_ok t1 \<and> \<not> bt_running t1"
    and "bt_on_connect t1 = bt_on_connect t" "bt_on_disconnect t1 = bt_on_disconnect t"
    and "bt_on_command t1 = bt_on_command t"
    and "transport_ok t \<Longrightarrow> transport_ok t1 \<and> \<not> bt_running t1 \<and>
      w1 = (if bt_central t then (case bt_on_disconnect t of None \<Rightarrow> w | Some f \<Rightarrow> f w) else w)"
  using assms
  by (auto simp: transport_stop_def transport_ok_def Let_def new_assembler_inv split: if_splits)

lemma start_steps_link:
  assumes "start_steps y t = (ok, t1)" "bt_connection t" "\<not> bt_central t"
    "bt_assembler t = assembler_new"
  shows "bt_connection t1 \<and> \<not> bt_central t1 \<and> (ok \<longrightarrow> transport_ok t1 \<and> bt_running t1) \<and>
    bt_on_connect t1 = bt_on_connect t \<and> bt_on_disconnect t1 = bt_on_disconnect t \<and>
    bt_on_command t1 = bt_on_command t"
  using assms
  by (auto simp: start_steps_def transport_ok_def Let_def new_assembler_inv split: if_splits)

lemma transport_start_ok:
  assumes "transport_ok t" "transport_start y x t w = (t1, w1)"
  shows "transport_ok t1 \<and> w1 = w \<and> bt_central t1 = bt_central t \<and>
    bt_on_connect t1 = bt_on_connect t \<and> bt_on_disconnect t1 = bt_on_disconnect t \<and>
    bt_on_command t1 = bt_on_command t"
proof (cases "bt_running t \<or> \<not> ya_connection y")
  case True
  then show ?thesis using assms by (auto simp: transport_start_def split: if_splits)
next
  case False
  obtain ok u where S: "start_steps y (t\<lparr>bt_connection := True\<rparr>) = (ok, u)" by fastforce
  have idle: "\<not> bt_central t" "bt_assembler t = assembler_new"
    using assms(1) False by (auto simp: transport_ok_def)
  note L = start_steps_link [OF S]
  show ?thesis
  proof (cases ok)
    case True
    then show ?thesis using assms(2) False S L idle by (simp add: transport_start_def)
  next
    case no: False
    then have T: "transport_stop x u w = (t1, w1)"
      using assms(2) False S by (simp add: transport_start_def)
    have "\<not> bt_central t1 \<and> w1 = w"
      using T L idle by (auto simp: transport_stop_def Let_def split: if_splits)
    then show ?thesis using transport_stop_ends [OF T] L idle by simp
  qed
qed

lemma same_link_ok:
  assumes "same_link_state t t1" "transport_ok t" "bt_running t"
    "assembler_inv (bt_cfg t) (bt_assembler t1)"
  shows "transport_ok t1"
  using assms by (simp add: same_link_state_def transport_ok_def)

lemma link_step_ok:
  assumes "transport_ok t" "link_step W ev (t, w) = Some (t1, w1)"
  shows "transport_ok t1 \<and> bt_on_connect t1 = bt_on_connect t \<and>
    bt_on_disconnect t1 = bt_on_disconnect t \<and> bt_on_command t1 = bt_on_command t"
proof (cases ev)
  case (LinkStart y x)
  then show ?thesis using assms transport_start_ok by fastforce
next
  case (LinkStop x)
  then show ?thesis using assms transport_stop_ends by fastforce
next
  case (LinkWrite bytes)
  show ?thesis
  proof (cases "bt_gatt t = None \<or> wi_parse_chunk W bytes = None")
    case True
    then show ?thesis using assms LinkWrite
      by (auto simp: write_value_def on_raw_command_garbage split: if_splits)
  next
    case False
    then obtain c where "on_raw_command W bytes t w = Some (t1, w1)" "wi_parse_chunk W bytes = Some c"
      using assms LinkWrite by (auto simp: write_value_def)
    note L = on_raw_command_link [OF this]
    moreover have "bt_running t" "assembler_inv (bt_cfg t) (bt_assembler t)"
      using assms(1) False by (auto simp: transport_ok_def)
    ultimately show ?thesis using same_link_ok [of t t1] assms(1) by (simp add: same_link_state_def)
  qed
qed (use assms in \<open>auto simp: on_gatt_def transport_ok_def\<close>)


text \<open>The callbacks of a session, logged: True for a connect, False for a disconnect.\<close>

definition logged_transport ::
  "('v \<Rightarrow> 'v) \<Rightarrow> ('v \<Rightarrow> 'v) \<Rightarrow> (command \<Rightarrow> 'v \<Rightarrow> command_response option \<times> 'v) \<Rightarrow>
   string \<Rightarrow> string \<Rightarrow> ('v \<times> bool list) transport" where
  "logged_transport up down h name adapter =
     set_on_disconnect (\<lambda>(v, tr). (down v, tr @ [False]))
       (set_on_connect (\<lambda>(v, tr). (up v, tr @ [True]))
         (set_on_command (\<lambda>c (v, tr). case h c v of (r, v1) \<Rightarrow> (r, v1, tr))
           (transport_new name adapter)))"

definition log_of :: "nat \<Rightarrow> bool \<Rightarrow> bool list" where
  "log_of n up = concat (replicate n [True, False]) @ (if up then [True] else [])"

lemma log_of_steps [simp]:
  "log_of n False @ [True] = log_of n True" "log_of n True @ [False] = log_of (Suc n) False"
proof -
  have "concat (replicate n [True, False]) @ [True, False] = concat (replicate (Suc n) [True, False])"
    using arg_cong [OF replicate_append_same [of n "[True, False]"], of concat] by simp
  then show "log_of n False @ [True] = log_of n True" "log_of n True @ [False] = log_of (Suc n) False"
    by (simp_all add: log_of_def)
qed

definition logged :: "('v \<times> bool list) transport \<Rightarrow> bool" where
  "logged t \<longleftrightarrow>
     (\<exists>up down h. bt_on_connect t = Some (\<lambda>(v, tr). (up v, tr @ [True])) \<and>
        bt_on_disconnect t = Some (\<lambda>(v, tr). (down v, tr @ [False])) \<and>
        bt_on_command t = Some (\<lambda>c (v, tr). case h c v of (r, v1) \<Rightarrow> (r, v1, tr)))"

lemma on_write_log:
  assumes "logged t" "on_write_world t cmd (v, tr) = (v1, tr1)"
  shows "tr1 = (if bt_central t then tr else tr @ [True])"
  using assms by (auto simp: logged_def on_write_world_def world_at_def split: option.splits prod.splits if_splits)

lemma link_step_log:
  assumes "logged t" "transport_ok t" "tr = log_of n (bt_central t)"
    and "link_step W ev (t, v, tr) = Some (t1, v1, tr1)"
  shows "\<exists>m. tr1 = log_of m (bt_central t1)"
proof (cases ev)
  case (LinkStart y x)
  then have "tr1 = tr" "bt_central t1 = bt_central t"
    using assms transport_start_ok [of t y x "(v, tr)" t1 "(v1, tr1)"] by simp_all
  then show ?thesis using assms(3) by auto
next
  case (LinkStop x)
  then have S: "transport_stop x t (v, tr) = (t1, v1, tr1)" using assms(4) by simp
  have "\<not> bt_central t1"
    using transport_stop_ends(6) [OF S] assms(2) by (auto simp: transport_ok_def)
  moreover have "tr1 = (if bt_central t then tr @ [False] else tr)"
    using transport_stop_ends(6) [OF S] assms(1,2) by (auto simp: logged_def)
  ultimately show ?thesis using assms(3) by (cases "bt_central t") auto
next
  case (LinkWrite bytes)
  show ?thesis
  proof (cases "bt_gatt t = None \<or> wi_parse_chunk W bytes = None")
    case True
    then show ?thesis using assms LinkWrite
      by (auto simp: write_value_def on_raw_command_garbage split: if_splits)
  next
    case False
    then obtain c where "on_raw_command W bytes t (v, tr) = Some (t1, v1, tr1)"
      "wi_parse_chunk W bytes = Some c"
      using assms LinkWrite by (auto simp: write_value_def)
    note L = on_raw_command_link [OF this]
    then have "tr1 = (if bt_central t then tr else tr @ [True])"
      using on_write_log [OF assms(1)] by metis
    then show ?thesis using L assms(3) by (cases "bt_central t") auto
  qed
qed (use assms in \<open>auto simp: on_gatt_def\<close>)

lemma link_run_log:
  assumes "logged t" "transport_ok t" "tr = log_of n (bt_central t)"
    and "link_run W evs (t, v, tr) = Some (t1, v1, tr1)"
  shows "transport_ok t1 \<and> (\<exists>m. tr1 = log_of m (bt_central t1))"
  using assms
proof (induction evs arbitrary: t v tr n)
  case (Cons ev evs)
  from Cons.prems(4) obtain u x l where
    S: "link_step W ev (t, v, tr) = Some (u, x, l)" and R: "link_run W evs (u, x, l) = Some (t1, v1, tr1)"
    by (auto split: option.splits)
  have "transport_ok u" "logged u"
    using link_step_ok [OF Cons.prems(2) S] Cons.prems(1) by (auto simp: logged_def)
  moreover obtain m where "l = log_of m (bt_central u)"
    using link_step_log [OF Cons.prems(1,2,3) S] by auto
  ultimately show ?case using Cons.IH R by blast
qed auto

section \<open>One command\<close>

text \<open>An accepted chunk is acknowledged.\<close>

definition acked :: "wire \<Rightarrow> chunked_payload \<Rightarrow> assembler \<Rightarrow> 'w transport \<Rightarrow> 'w transport" where
  "acked W c a t =
     notify (wi_ack W (build_inbound_ack (cp_corr c) (cp_index c)))
       (t\<lparr>bt_central := True, bt_assembler := a\<rparr>)"

lemma acked_sends [simp]:
  "bt_gatt (acked W c a t) = None \<longleftrightarrow> bt_gatt t = None"
  "bt_gatt t \<noteq> None \<Longrightarrow>
    sent_out (acked W c a t) = sent_out t @ [wi_ack W (build_inbound_ack (cp_corr c) (cp_index c))]"
  "bt_central (acked W c a t)" "bt_assembler (acked W c a t) = a" "bt_cfg (acked W c a t) = bt_cfg t"
  "bt_on_command (acked W c a t) = bt_on_command t"
  "same_link_state t (acked W c a t)"
  by (simp_all add: acked_def sent_notify)

lemma receive_offered:
  assumes "cp_total c \<noteq> 0" "bt_gatt t \<noteq> None"
    and "offer_inbound (bt_cfg t) c (bt_assembler t) = (\<lparr>of_accepted = True, of_payload = p\<rparr>, a)"
  shows "receive_chunk W c t =
    (\<not> bt_central t, case p of None \<Rightarrow> None | Some q \<Rightarrow> wi_parse_command W q, acked W c a t)"
  using assms by (simp add: receive_chunk_def kChunkAckTotalChunks_def send_inbound_ack_def acked_def)

lemma write_pending:
  assumes "wi_parse_chunk W (wi_chunk W c) = Some c" "cp_total c \<noteq> 0" "bt_gatt t \<noteq> None"
    and "offer_inbound (bt_cfg t) c (bt_assembler t) = (\<lparr>of_accepted = True, of_payload = None\<rparr>, a)"
  shows "write_value W (wi_chunk W c) t w = Some (acked W c a t, world_at t w)"
  using assms receive_offered [of c t None a W]
  by (simp add: write_value_def on_raw_command_def world_at_def Let_def)

lemma write_complete:
  assumes "wi_parse_chunk W (wi_chunk W c) = Some c" "cp_total c \<noteq> 0" "bt_gatt t \<noteq> None"
    and "offer_inbound (bt_cfg t) c (bt_assembler t) = (\<lparr>of_accepted = True, of_payload = Some q\<rparr>, a)"
    and "wi_parse_command W q = Some cmd" "bt_on_command t = Some h"
    and "h cmd (world_at t w) = (Some r, w1)"
    and "make_chunks (bt_cfg t) (cr_correlation_id r) (wi_response W r) \<noteq> []"
  shows "\<exists>t1. write_value W (wi_chunk W c) t w = Some (t1, w1) \<and> bt_central t1 \<and>
    as_inbound (bt_assembler t1) = as_inbound a \<and>
    sent_out t1 = sent_out t @
      [wi_ack W (build_inbound_ack (cp_corr c) (cp_index c)),
       wi_chunk W (hd (make_chunks (bt_cfg t) (cr_correlation_id r) (wi_response W r)))]"
proof -
  let ?cs = "make_chunks (bt_cfg t) (cr_correlation_id r) (wi_response W r)"
  obtain n a1 where B: "begin_outbound (bt_cfg t) (cr_correlation_id r) (wi_response W r) True a =
      Some ([hd ?cs], n, a1)" and I: "as_inbound a1 = as_inbound a"
    using assms(8) by (cases ?cs) (auto simp: begin_outbound_def)
  have "send_response W r (acked W c a t) =
      Some (notify (wi_chunk W (hd ?cs)) (acked W c a t\<lparr>bt_assembler := a1\<rparr>))"
    using B assms(3) by (simp add: send_response_def del: not_None_eq)
  then have "write_value W (wi_chunk W c) t w =
      Some (notify (wi_chunk W (hd ?cs)) (acked W c a t\<lparr>bt_assembler := a1\<rparr>), w1)"
    using assms receive_offered [OF assms(2-4), of W]
    by (cases "bt_central t") (simp_all add: write_value_def on_raw_command_def world_at_def Let_def)
  moreover have "bt_gatt (acked W c a t\<lparr>bt_assembler := a1\<rparr>) \<noteq> None"
    using assms(3) by simp
  ultimately show ?thesis using assms(3) I by (simp add: sent_notify)
qed

text \<open>The chunks of a row before the last missing one.\<close>

abbreviation write_rows :: "wire \<Rightarrow> chunked_payload list \<Rightarrow> nat list \<Rightarrow> link_event list" where
  "write_rows W cs is \<equiv> map (\<lambda>i. LinkWrite (wi_chunk W (cs ! i))) is"

abbreviation row_acks :: "wire \<Rightarrow> chunked_payload list \<Rightarrow> nat list \<Rightarrow> u8 list list" where
  "row_acks W cs is \<equiv> map (\<lambda>i. wi_ack W (build_inbound_ack (cp_corr (cs ! i)) (cp_index (cs ! i)))) is"

lemma link_run_append:
  "link_run W (xs @ ys) s = (case link_run W xs s of None \<Rightarrow> None | Some s1 \<Rightarrow> link_run W ys s1)"
  by (induction xs arbitrary: s) (auto split: option.split)

lemma row_total_nonzero:
  assumes "chunk_row cfg cs" "i < length cs"
  shows "cp_total (cs ! i) \<noteq> 0"
  using chunk_row_hd(2) [OF assms(1)] chunk_row_hd(5) [OF assms] by auto

lemma link_run_rows:
  assumes "chunk_row (bt_cfg t) cs" "\<forall>c \<in> set cs. wi_parse_chunk W (wi_chunk W c) = Some c"
    and "bt_gatt t \<noteq> None" "awaiting (bt_cfg t) cs K (bt_assembler t)"
    and "set is \<subseteq> {..<length cs}" "K \<union> set is \<noteq> {..<length cs}" "K \<subseteq> {..<length cs}"
  shows "\<exists>t1 w1. link_run W (write_rows W cs is) (t, w) = Some (t1, w1) \<and>
    awaiting (bt_cfg t) cs (K \<union> set is) (bt_assembler t1) \<and> same_link_state t t1 \<and>
    world_at t1 w1 = world_at t w \<and> sent_out t1 = sent_out t @ row_acks W cs is"
  using assms
proof (induction "is" arbitrary: K t w)
  case (Cons i "is")
  let ?c = "cs ! i"
  have i: "i < length cs" and more: "insert i K \<noteq> {..<length cs}" using Cons.prems by auto
  obtain a where O: "offer_inbound (bt_cfg t) ?c (bt_assembler t) =
      (\<lparr>of_accepted = True, of_payload = None\<rparr>, a)" and A: "awaiting (bt_cfg t) cs (insert i K) a"
    using offer_row_step(1) [OF Cons.prems(1,4) i more] by (metis prod.collapse)
  let ?t = "acked W ?c a t"
  have W: "write_value W (wi_chunk W ?c) t w = Some (?t, world_at t w)"
    using Cons.prems(2,3) O i row_total_nonzero [OF Cons.prems(1) i] by (intro write_pending) auto
  have "\<exists>t1 w1. link_run W (write_rows W cs is) (?t, world_at t w) = Some (t1, w1) \<and>
      awaiting (bt_cfg ?t) cs (insert i K \<union> set is) (bt_assembler t1) \<and> same_link_state ?t t1 \<and>
      world_at t1 w1 = world_at ?t (world_at t w) \<and> sent_out t1 = sent_out ?t @ row_acks W cs is"
    using Cons.prems A by (intro Cons.IH) auto
  then obtain t1 w1 where "link_run W (write_rows W cs is) (?t, world_at t w) = Some (t1, w1)"
    "awaiting (bt_cfg t) cs (insert i K \<union> set is) (bt_assembler t1)" "same_link_state ?t t1"
    "world_at t1 w1 = world_at t w" "sent_out t1 = sent_out ?t @ row_acks W cs is"
    by (auto simp: world_at_def [of ?t])
  moreover from this(3) have "same_link_state t t1"
    using same_link_trans [OF acked_sends(7)] by blast
  ultimately show ?case using W Cons.prems(3) by auto
qed simp

text \<open>The last chunk of a command, in a row of several or alone.\<close>

lemma offer_last:
  assumes "chunkable cc data" "max_total_chunks cc \<le> max_total_chunks cfg"
    and "cs = make_chunks cc corr data" "j < length cs" "insert j K = {..<length cs}" "j \<notin> K"
    and "1 < length cs \<Longrightarrow> awaiting cfg cs K s" "map_of (as_inbound s) corr = None \<or> 1 < length cs"
  shows "\<exists>a. offer_inbound cfg (cs ! j) s = (\<lparr>of_accepted = True, of_payload = Some data\<rparr>, a) \<and>
    map_of (as_inbound a) corr = None"
proof (cases "1 < length cs")
  case True
  then have "chunk_row cfg cs" and hd: "cp_corr (hd cs) = corr"
    using make_chunks_row [OF assms(1), of corr] assms(2,3) make_chunks_hd_corr [of cc data corr]
    by (auto simp: chunk_row_def length_make_chunks word_le_nat_alt)
  from offer_row_step(2) [OF this(1) assms(7) assms(4-6)] True hd assms(3)
    concat_make_chunks [OF assms(1), of corr]
  show ?thesis by (metis prod.collapse)
next
  case False
  then have one: "chunk_count cc data = 1"
    using assms(3,4) by (simp add: length_make_chunks)
  have "max_total_chunks cfg \<noteq> 0"
    using assms(1,2) by (auto simp: chunkable_def)
  then have "\<not> max_total_chunks cfg < 1" by (simp add: word_less_nat_alt unat_gt_0 Suc_le_eq not_less)
  then show ?thesis
    using single_chunk [OF assms(1) one, of corr] assms(3,4,8) False
    by (simp add: offer_inbound_def)
qed

section \<open>Properties\<close>

text \<open>Whatever BlueZ answers and whatever is written, between two calls the D-Bus
  connection, the advertisement and the GATT objects exist exactly while the transport runs, a
  central is recorded only then, a transport at rest holds no reassembly and no unacknowledged
  response, and the session sees connect and disconnect strictly in turn, starting with a
  connect, the last connect open exactly while a central is recorded.\<close>

theorem transport_session_alternates:
  assumes "link_run W evs (logged_transport up down h name adapter, v, []) = Some (t, v1, tr)"
  shows "bt_connection t = bt_running t \<and> bt_adv_obj t = bt_running t \<and>
    (bt_gatt t \<noteq> None) = bt_running t \<and> (bt_central t \<longrightarrow> bt_running t) \<and>
    (\<not> bt_running t \<longrightarrow>
       inflight_inbound_count (bt_assembler t) = 0 \<and> pending_outbound_count (bt_assembler t) = 0) \<and>
    (\<exists>n. tr = concat (replicate n [True, False]) @ (if bt_central t then [True] else []))"
proof -
  let ?t = "logged_transport up down h name adapter"
  have "transport_ok ?t" "logged ?t" "\<not> bt_central ?t"
    using transport_new_ok [of name adapter]
    by (auto simp: logged_transport_def set_on_command_def set_on_connect_def set_on_disconnect_def
      transport_ok_def logged_def transport_new_def)
  then have "transport_ok t \<and> (\<exists>m. tr = log_of m (bt_central t))"
    using link_run_log [of ?t "[]" 0, OF _ _ _ assms] by (simp add: log_of_def)
  then show ?thesis
    by (auto simp: transport_ok_def log_of_def inflight_inbound_count_def
      pending_outbound_count_def assembler_new_def)
qed

text \<open>All chunks of a message but one, in whatever order: each is acknowledged, and the transport holds
  them or, when the message is a single chunk, nothing.\<close>

lemma all_but_one:
  assumes "\<forall>c \<in> set cs. wi_parse_chunk W (wi_chunk W c) = Some c" "bt_gatt t \<noteq> None"
    and "map_of (as_inbound (bt_assembler t)) corr = None"
    and "chunkable cc data" "max_total_chunks cc \<le> max_total_chunks (bt_cfg t)"
    and "cs = make_chunks cc corr data" "j < length cs" "insert j (set is) = {..<length cs}" "j \<notin> set is"
  obtains t1 v where "link_run W (write_rows W cs is) (t, w) = Some (t1, v)"
    "same_link_state t t1" "world_at t1 v = world_at t w" "sent_out t1 = sent_out t @ row_acks W cs is"
    "1 < length cs \<Longrightarrow> awaiting (bt_cfg t) cs (set is) (bt_assembler t1)"
    "map_of (as_inbound (bt_assembler t1)) corr = None \<or> 1 < length cs"
proof (cases "1 < length cs")
  case True
  have hd: "cp_corr (hd cs) = corr" and row: "chunk_row (bt_cfg t) cs"
    using make_chunks_row [OF assms(4), of corr] assms(5,6) make_chunks_hd_corr [of cc data corr] True
    by (auto simp: chunk_row_def length_make_chunks word_le_nat_alt)
  have fresh: "awaiting (bt_cfg t) cs {} (bt_assembler t)" using awaiting_fresh [OF row] assms(3) hd by simp
  have part: "set is \<subseteq> {..<length cs}" "{} \<union> set is \<noteq> {..<length cs}"
    using assms(7-9) by auto
  note rows = link_run_rows [OF row assms(1,2) fresh part empty_subsetI, of w, unfolded Un_empty_left]
  from rows obtain t1 v where R: "link_run W (write_rows W cs is) (t, w) = Some (t1, v)"
    "same_link_state t t1" "world_at t1 v = world_at t w" "sent_out t1 = sent_out t @ row_acks W cs is"
    and A: "awaiting (bt_cfg t) cs (set is) (bt_assembler t1)"
    by (elim exE conjE)
  from that [OF R A disjI2 [OF True]] show thesis .
next
  case False
  then have "length cs = Suc 0" using assms(7) by simp
  then have "insert j (set is) = {0}" using assms(8) by (simp add: lessThan_Suc)
  then have "is = []" using assms(9) by (simp add: set_eq_iff) (metis set_empty2 equals0I)
  then show thesis using that [of t w] assms(3) False by simp
qed

text \<open>C5: A command written in chunks, in any order and with any repetitions, is answered in
  full: every chunk is acknowledged as it arrives, the handler runs once, on the command the
  central serialized and after the connect callback if this is the central's first write, and
  its answer's first chunk is notified right behind the last acknowledgement; no other
  notification is sent and no reassembly is left behind.  The central may use a chunk size of
  its own.\<close>

theorem command_exchange:
  assumes "\<forall>c \<in> set cs. wi_parse_chunk W (wi_chunk W c) = Some c" "wi_parse_command W data = Some cmd"
    and "bt_gatt t \<noteq> None" "bt_on_command t = Some h"
    and "map_of (as_inbound (bt_assembler t)) corr = None"
    and "chunkable cc data" "max_total_chunks cc \<le> max_total_chunks (bt_cfg t)"
    and "cs = make_chunks cc corr data" "set is \<union> {j} = {..<length cs}" "j \<notin> set is"
    and "h cmd (world_at t w) = (Some r, w1)"
    and "chunkable (bt_cfg t) (wi_response W r)"
  shows "\<exists>t1. link_run W (map (\<lambda>i. LinkWrite (wi_chunk W (cs ! i))) (is @ [j])) (t, w) = Some (t1, w1) \<and>
    sent_out t1 = sent_out t @
      map (\<lambda>i. wi_ack W (build_inbound_ack (cp_corr (cs ! i)) (cp_index (cs ! i)))) (is @ [j]) @
      [wi_chunk W (hd (make_chunks (bt_cfg t) (cr_correlation_id r) (wi_response W r)))] \<and>
    bt_central t1 \<and> map_of (as_inbound (bt_assembler t1)) corr = None"
proof -
  have j: "j < length cs" "insert j (set is) = {..<length cs}" using assms(9) by auto
  have resp: "make_chunks (bt_cfg t) (cr_correlation_id r) (wi_response W r) \<noteq> []"
    using chunk_count_pos [OF assms(12)] by (metis length_make_chunks list.size(3) less_irrefl)
  obtain t1 v where pre: "link_run W (write_rows W cs is) (t, w) = Some (t1, v)"
    and S: "same_link_state t t1" "world_at t1 v = world_at t w" "sent_out t1 = sent_out t @ row_acks W cs is"
    and A: "1 < length cs \<Longrightarrow> awaiting (bt_cfg t) cs (set is) (bt_assembler t1)"
    and M: "map_of (as_inbound (bt_assembler t1)) corr = None \<or> 1 < length cs"
    by (rule all_but_one [OF assms(1,3,5-8) j assms(10), of w]; rule that; blast)
  obtain a where O: "offer_inbound (bt_cfg t1) (cs ! j) (bt_assembler t1) =
      (\<lparr>of_accepted = True, of_payload = Some data\<rparr>, a)" and clean: "map_of (as_inbound a) corr = None"
    using offer_last [OF assms(6,7,8) j assms(10) A M] S(1) by (auto simp: same_link_state_def)
  have "cp_total (cs ! j) \<noteq> 0"
    using O by (auto simp: offer_inbound_def)
  from write_complete [OF _ this _ O assms(2), of h v r w1] j(1) obtain t2 where
    "write_value W (wi_chunk W (cs ! j)) t1 v = Some (t2, w1)" "bt_central t2"
    "as_inbound (bt_assembler t2) = as_inbound a"
    "sent_out t2 = sent_out t1 @
      [wi_ack W (build_inbound_ack (cp_corr (cs ! j)) (cp_index (cs ! j))),
       wi_chunk W (hd (make_chunks (bt_cfg t) (cr_correlation_id r) (wi_response W r)))]"
    using assms(1,3,4,11) S resp by (auto simp: same_link_state_def)
  moreover have "bt_gatt t1 \<noteq> None" using assms(3) S(1) by (simp add: same_link_state_def)
  ultimately show ?thesis using pre S clean by (simp add: link_run_append)
qed

text \<open>A transport that runs, and a central that sends a command in three chunks.\<close>

definition bus_up :: start_answers where
  "bus_up = \<lparr>ya_connection = True, ya_gatt = True, ya_adv_object = True, ya_advertisement = True,
     ya_register_adv = True, ya_register_app = True, ya_event_loop = True\<rparr>"

definition bus_down :: stop_answers where
  "bus_down = \<lparr>xa_proxy = True, xa_unregister_adv = True, xa_unregister_app = True\<rparr>"

definition hello_wire :: wire where
  "hello_wire =
     \<lparr>wi_parse_chunk = (\<lambda>bytes. case bytes of
        [k, i] \<Rightarrow> if k = 1 \<and> unat i < 3 then Some (make_chunks tiny_chunk_cfg ''id'' ''hello'' ! unat i) else None
      | _ \<Rightarrow> None),
      wi_chunk = (\<lambda>c. [1, ucast (cp_index c)]), wi_ack = (\<lambda>a. [2, ucast (ca_index a)]),
      wi_parse_command = (\<lambda>data. if data = ''hello''
        then Some \<lparr>cm_correlation_id = ''id'', cm_payload = GetDeviceInfo\<rparr> else None),
      wi_response = (\<lambda>r. ''ok'')\<rparr>"

definition counting_transport :: "nat transport" where
  "counting_transport =
     set_on_connect (\<lambda>n. n + 100)
       (set_on_command (\<lambda>c n. (Some (reply_ok NoPayload\<lparr>cr_correlation_id := cm_correlation_id c\<rparr>), n + 1))
         (transport_new ''cam'' ''/org/bluez/hci0''))"

definition hello_link :: "nat transport" where
  "hello_link = fst (transport_start bus_up bus_down counting_transport 0)"

lemma hello_link_state:
  "bt_gatt hello_link \<noteq> None" "\<not> bt_central hello_link" "bt_assembler hello_link = assembler_new"
  "bt_cfg hello_link = default_chunk_cfg" "sent_out hello_link = []"
  "bt_on_command hello_link =
     Some (\<lambda>c n. (Some (reply_ok NoPayload\<lparr>cr_correlation_id := cm_correlation_id c\<rparr>), n + 1))"
  "bt_on_connect hello_link = Some (\<lambda>n. n + 100)"
  by (simp_all add: hello_link_def transport_start_def start_steps_def bus_up_def
    counting_transport_def set_on_command_def set_on_connect_def transport_new_def Let_def
    sent_out_def gatt_new_def)

lemma hello_wire_parses:
  "\<forall>c \<in> set (make_chunks tiny_chunk_cfg ''id'' ''hello'').
     wi_parse_chunk hello_wire (wi_chunk hello_wire c) = Some c"
  by (auto simp: hello_wire_def in_set_conv_nth length_make_chunks tiny_hello make_chunks_map
    make_chunk_def unsigned_ucast_eq take_bit_eq_mod less_Suc_eq numeral_3_eq_3)

theorem command_exchange_witness:
  "\<exists>t1. link_run hello_wire
       (map (\<lambda>i. LinkWrite (wi_chunk hello_wire (make_chunks tiny_chunk_cfg ''id'' ''hello'' ! i)))
         ([2, 0, 2] @ [1])) (hello_link, 0) = Some (t1, 101) \<and>
    sent_out t1 = [[2, 2], [2, 0], [2, 2], [2, 1], [1, 0]]"
proof -
  let ?cs = "make_chunks tiny_chunk_cfg ''id'' ''hello''"
    and ?r = "reply_ok NoPayload\<lparr>cr_correlation_id := ''id''\<rparr>"
  have three: "length ?cs = 3" by (simp add: length_make_chunks tiny_hello)
  have acks: "map (\<lambda>i. wi_ack hello_wire (build_inbound_ack (cp_corr (?cs ! i)) (cp_index (?cs ! i))))
      ([2, 0, 2] @ [1]) = [[2, 2], [2, 0], [2, 2], [2, 1]]"
    by (simp add: make_chunks_map tiny_hello make_chunk_def hello_wire_def build_inbound_ack_def)
  have ok: "chunkable default_chunk_cfg ''ok''" "chunk_count default_chunk_cfg ''ok'' = 1"
    by (simp_all add: chunkable_def chunk_size_of_def default_chunk_cfg_def max_def
      chunk_count_unat [symmetric] total_chunks_of_def word_le_nat_alt)
  have reply: "wi_chunk hello_wire (hd (make_chunks default_chunk_cfg (cr_correlation_id ?r)
      (wi_response hello_wire ?r))) = [1, 0]"
    using single_chunk [OF ok] by (simp add: hello_wire_def)
  have "\<exists>t1. link_run hello_wire
       (map (\<lambda>i. LinkWrite (wi_chunk hello_wire (?cs ! i))) ([2, 0, 2] @ [1])) (hello_link, 0) =
         Some (t1, 101) \<and>
    sent_out t1 = sent_out hello_link @
      map (\<lambda>i. wi_ack hello_wire (build_inbound_ack (cp_corr (?cs ! i)) (cp_index (?cs ! i)))) ([2, 0, 2] @ [1]) @
      [wi_chunk hello_wire (hd (make_chunks (bt_cfg hello_link) (cr_correlation_id ?r)
         (wi_response hello_wire ?r)))] \<and>
    bt_central t1 \<and> map_of (as_inbound (bt_assembler t1)) ''id'' = None"
  proof (rule command_exchange [OF hello_wire_parses _ hello_link_state(1,6) _ tiny_hello(1) _ refl])
    show "wi_parse_command hello_wire ''hello'' =
        Some \<lparr>cm_correlation_id = ''id'', cm_payload = GetDeviceInfo\<rparr>"
      by (simp add: hello_wire_def)
    show "max_total_chunks tiny_chunk_cfg \<le> max_total_chunks (bt_cfg hello_link)"
      by (simp add: hello_link_state tiny_chunk_cfg_def default_chunk_cfg_def)
    show "set [2, 0, 2] \<union> {1} = {..<length ?cs}" unfolding three by auto
    show "chunkable (bt_cfg hello_link) (wi_response hello_wire ?r)"
      using ok by (simp add: hello_link_state hello_wire_def)
  qed (simp_all add: hello_link_state world_at_def assembler_new_def)
  then show ?thesis unfolding acks using reply by (auto simp: hello_link_state)
qed

text \<open>Connected twice over two starts, by acknowledgements of nothing.\<close>

definition ack_wire :: wire where
  "ack_wire = hello_wire\<lparr>wi_parse_chunk := (\<lambda>bytes. if bytes = [7] then None
     else Some \<lparr>cp_corr = ''id'', cp_index = 0, cp_total = 0, cp_data = []\<rparr>)\<rparr>"

definition twice :: "link_event list" where
  "twice = [LinkStart bus_up bus_down, LinkWrite [1, 2], LinkStop bus_down, LinkStart bus_up bus_down,
     LinkWrite [7], LinkWrite [1, 0]]"

lemma twice_runs:
  "\<exists>t v tr. link_run ack_wire twice
      (logged_transport Suc Suc (\<lambda>c v. (None, v)) ''cam'' ''/org/bluez/hci0'', 0, []) = Some (t, v, tr) \<and>
    bt_central t"
  by (simp add: twice_def logged_transport_def set_on_command_def set_on_connect_def
    set_on_disconnect_def transport_new_def transport_start_def start_steps_def bus_up_def Let_def
    transport_stop_def bus_down_def write_value_def on_raw_command_def ack_wire_def
    receive_chunk_def kChunkAckTotalChunks_def on_ack_def assembler_new_def assembler_reset_def)

theorem transport_session_alternates_witness:
  "\<exists>t v n. link_run ack_wire twice
      (logged_transport Suc Suc (\<lambda>c v. (None, v)) ''cam'' ''/org/bluez/hci0'', 0, []) =
        Some (t, v, concat (replicate n [True, False]) @ [True]) \<and> bt_running t"
proof -
  obtain t v tr where R: "link_run ack_wire twice
      (logged_transport Suc Suc (\<lambda>c v. (None, v)) ''cam'' ''/org/bluez/hci0'', 0, []) = Some (t, v, tr)"
    and "bt_central t"
    using twice_runs by blast
  then show ?thesis using transport_session_alternates [OF R] by auto
qed

end
