(* ===== verification/ControlPlane.thy ===== *)
theory ControlPlane
  imports Lifecycle TransportProps Config
begin

text \<open>
  The BLE transport wired to the device as \<^verbatim>\<open>main.cpp\<close> does it: commands go to the dispatcher,
  connects and disconnects to the session manager.  What a history of bus events, camera
  frames, downloads and clock ticks can lead to.
\<close>

section \<open>Wiring\<close>

text \<open>The answers of the environment differ from call to call, so the callbacks are set for each.\<close>

definition wire_link :: "config_data \<Rightarrow> environment \<Rightarrow> device transport \<Rightarrow> device transport" where
  "wire_link cfg e t =
     set_on_disconnect (device_disconnect e)
       (set_on_connect (\<lambda>w. w\<lparr>dv_session := snd (on_connect (dv_session w))\<rparr>)
         (set_on_command (\<lambda>cmd w. dispatch (main_dispatcher cfg) e cmd w) t))"

definition make_transport :: "(nat \<Rightarrow> string) \<Rightarrow> config_data \<Rightarrow> string \<Rightarrow> device transport" where
  "make_transport fmt04 cfg adapter =
     transport_new
       (make_advertised_name fmt04
         (derive_unit_number (value_or (dd_serial_number (cfg_device cfg)) []))) adapter"

text \<open>The callbacks reach the device through the transport only; everything else happens to it
  on other threads.\<close>

fun from_link :: "device_event \<Rightarrow> bool" where
  "from_link Connect = True"
| "from_link (Disconnect e) = True"
| "from_link (Command e cmd) = True"
| "from_link ev = False"

inductive control_reachable ::
  "(nat \<Rightarrow> string) \<Rightarrow> config_data \<Rightarrow> string \<Rightarrow> wire \<Rightarrow> device transport \<Rightarrow> device \<Rightarrow> bool"
  for fmt04 cfg adapter W where
  boot: "control_reachable fmt04 cfg adapter W (make_transport fmt04 cfg adapter) (device_new cfg)"
| bus: "\<lbrakk>control_reachable fmt04 cfg adapter W t w;
    link_step W ev (wire_link cfg e t, w) = Some (t1, w1)\<rbrakk> \<Longrightarrow>
    control_reachable fmt04 cfg adapter W t1 w1"
| own: "\<lbrakk>control_reachable fmt04 cfg adapter W t w; \<not> from_link ev; device_step cfg ev w = Some w1\<rbrakk> \<Longrightarrow>
    control_reachable fmt04 cfg adapter W t w1"

section \<open>The device at rest\<close>

definition at_rest :: "device \<Rightarrow> bool" where
  "at_rest w \<longleftrightarrow>
     dv_session w = session_state_default \<and>
     rs_state (dv_recording w) = RecIdle \<and> \<not> gr_running (rs_recorder (dv_recording w)) \<and>
     st_streams (dv_streaming w) = [] \<and> st_names (dv_streaming w) = [] \<and>
     \<not> rv_running (st_server (dv_streaming w)) \<and>
     ds_pid (dv_dhcp w) \<le> 0 \<and> \<not> wm_sock (dv_wifi w) \<and>
     wifi_state_of (dv_wifi w) = wifi_state_default"

lemma device_new_rest: "at_rest (device_new cfg)"
  by (simp add: at_rest_def device_new_def recording_service_new_def gst_recorder_new_def
    streaming_new_def rtsp_new_def dhcp_new_def wpa_new_def wifi_state_of_def)

lemma disconnect_rest:
  assumes "device_reachable cfg w" "session_open w"
  shows "at_rest (device_disconnect e w)"
  using disconnect_resets_spec [OF assms(1) _ refl, of e] assms(2)
  by (simp add: session_open_def at_rest_def)

lemma at_rest_closed: "at_rest w \<Longrightarrow> \<not> session_open w"
  by (simp add: at_rest_def session_open_def session_state_default_def)

text \<open>The other threads leave a resting device at rest and never open or close a session.\<close>

lemma own_step_open:
  assumes "\<not> from_link ev" "device_step cfg ev w = Some w1"
  shows "session_open w1 = session_open w"
proof (cases ev)
  case (ClockTick e)
  then show ?thesis using assms
    by (auto simp: session_open_def dest!: tick_quiet quiet_keeps(3) split: option.splits prod.splits)
qed (use assms in \<open>auto simp: session_open_def device_final_frame_def\<close>)

lemma own_step_rest:
  assumes "\<not> from_link ev" "device_step cfg ev w = Some w1" "at_rest w"
  shows "at_rest w1"
proof (cases ev)
  case (ClockTick e)
  have "apply_match_update u session_state_default = (False, session_state_default)" for u
    by (simp add: apply_match_update_def session_state_default_def phase_order split: option.split)
  then show ?thesis using assms ClockTick
    by (auto simp: at_rest_def tick_clock_def split: option.splits)
next
  case (FinalFrame e f)
  then show ?thesis using assms
    by (auto simp: at_rest_def device_final_frame_def recording_push_def streaming_push_def rtsp_ops_def)
qed (use assms in \<open>auto simp: at_rest_def\<close>)

section \<open>The invariant\<close>

definition control_ok :: "config_data \<Rightarrow> device transport \<Rightarrow> device \<Rightarrow> bool" where
  "control_ok cfg t w \<longleftrightarrow>
     transport_ok t \<and> device_reachable cfg w \<and> (bt_central t \<longleftrightarrow> session_open w) \<and>
     (\<not> bt_central t \<longrightarrow> at_rest w)"

lemma wire_link_simps [simp]:
  "bt_gatt (wire_link cfg e t) = bt_gatt t" "bt_central (wire_link cfg e t) = bt_central t"
  "bt_running (wire_link cfg e t) = bt_running t"
  "bt_on_connect (wire_link cfg e t) = Some (\<lambda>w. w\<lparr>dv_session := snd (on_connect (dv_session w))\<rparr>)"
  "bt_on_disconnect (wire_link cfg e t) = Some (device_disconnect e)"
  "bt_on_command (wire_link cfg e t) = Some (dispatch (main_dispatcher cfg) e)"
  "transport_ok (wire_link cfg e t) = transport_ok t"
  by (simp_all add: wire_link_def set_on_disconnect_def set_on_connect_def set_on_command_def
    transport_ok_def)

lemma connect_opens:
  assumes "device_reachable cfg w" "bt_central t \<longleftrightarrow> session_open w"
  shows "device_reachable cfg (world_at (wire_link cfg e t) w) \<and>
    session_open (world_at (wire_link cfg e t) w)"
proof (cases "bt_central t")
  case True
  then show ?thesis using assms by (simp add: world_at_def)
next
  case False
  have "device_reachable cfg (w\<lparr>dv_session := snd (on_connect (dv_session w))\<rparr>)"
    using device_reachable.event [OF assms(1), of Connect] by simp
  then show ?thesis using False
    by (simp add: world_at_def session_open_def on_connect_def)
qed

lemma dispatch_reachable:
  assumes "device_reachable cfg w" "fst (dispatch (main_dispatcher cfg) e cmd w) \<noteq> None"
  shows "device_reachable cfg (snd (dispatch (main_dispatcher cfg) e cmd w)) \<and>
    session_open (snd (dispatch (main_dispatcher cfg) e cmd w)) = session_open w"
proof -
  obtain r w1 where D: "dispatch (main_dispatcher cfg) e cmd w = (Some r, w1)"
    using assms(2) by (metis eq_fst_iff not_None_eq)
  then have "device_step cfg (Command e cmd) w = Some w1" by simp
  from device_reachable.event [OF assms(1) this] dispatch_ok(2) [OF reachable_ok [OF assms(1)] D]
  show ?thesis using D by simp
qed

lemma write_keeps:
  assumes "control_ok cfg t w" "on_raw_command W bytes (wire_link cfg e t) w = Some (t1, w1)"
    "bt_gatt t \<noteq> None"
  shows "control_ok cfg t1 w1"
proof (cases "wi_parse_chunk W bytes")
  case None
  then have "t1 = wire_link cfg e t" "w1 = w"
    using assms(2) on_raw_command_garbage [OF None, of "wire_link cfg e t" w] by simp_all
  then show ?thesis using assms(1) by (simp add: control_ok_def)
next
  case (Some c)
  let ?u = "wire_link cfg e t"
  note L = on_raw_command_link [OF assms(2) Some]
  have ok: "transport_ok t" "device_reachable cfg w" "bt_central t \<longleftrightarrow> session_open w"
    using assms(1) by (simp_all add: control_ok_def)
  note C = connect_opens [OF ok(2,3), of e]
  have u: "transport_ok ?u" "bt_gatt ?u \<noteq> None" using ok(1) assms(3) by simp_all
  then have "bt_running ?u" "assembler_inv (bt_cfg ?u) (bt_assembler ?u)"
    unfolding transport_ok_def by blast+
  then have "transport_ok t1" using same_link_ok [of ?u t1] L u(1) by blast
  moreover have "device_reachable cfg w1 \<and> session_open w1"
    using L C dispatch_reachable by (auto simp: on_write_world_def split: option.splits)
  ultimately show ?thesis using L by (simp add: control_ok_def)
qed

lemma on_gatt_keeps:
  "transport_ok (on_gatt f t) = transport_ok t" "bt_central (on_gatt f t) = bt_central t"
  by (simp_all add: on_gatt_def transport_ok_def)

lemma bus_keeps:
  assumes "control_ok cfg t w" "link_step W ev (wire_link cfg e t, w) = Some (t1, w1)"
  shows "control_ok cfg t1 w1"
proof (cases ev)
  case (LinkStart y x)
  then show ?thesis
    using assms transport_start_ok [of "wire_link cfg e t" y x w t1 w1] by (simp add: control_ok_def)
next
  case (LinkStop x)
  then have S: "transport_stop x (wire_link cfg e t) w = (t1, w1)" using assms(2) by simp
  have "transport_ok t1 \<and> \<not> bt_running t1"
    and w1: "w1 = (if bt_central t then device_disconnect e w else w)"
    using transport_stop_ends(6) [OF S] assms(1) by (auto simp: control_ok_def)
  moreover have "device_reachable cfg (device_disconnect e w)"
    using device_reachable.event [of cfg w "Disconnect e"] assms(1) by (simp add: control_ok_def)
  moreover have "at_rest w1" using w1 disconnect_rest assms(1) by (auto simp: control_ok_def)
  ultimately show ?thesis
    using assms(1) at_rest_closed by (auto simp: control_ok_def transport_ok_def)
next
  case (LinkWrite bytes)
  then show ?thesis
    using assms write_keeps [OF assms(1), of W bytes e t1 w1]
    by (auto simp: write_value_def control_ok_def split: if_splits)
next
  case LinkStartNotify
  then have "t1 = on_gatt start_notify (wire_link cfg e t)" "w1 = w" using assms(2) by simp_all
  then show ?thesis using assms(1) by (simp add: on_gatt_keeps control_ok_def)
next
  case LinkStopNotify
  then have "t1 = on_gatt stop_notify (wire_link cfg e t)" "w1 = w" using assms(2) by simp_all
  then show ?thesis using assms(1) by (simp add: on_gatt_keeps control_ok_def)
qed

lemma control_reachable_ok:
  "control_reachable fmt04 cfg adapter W t w \<Longrightarrow> control_ok cfg t w"
proof (induction rule: control_reachable.induct)
  case boot
  have "\<not> bt_central (make_transport fmt04 cfg adapter)"
    by (simp add: make_transport_def transport_new_def)
  then show ?case
    using transport_new_ok device_new_rest [of cfg] at_rest_closed device_reachable.boot
    by (simp add: control_ok_def make_transport_def)
next
  case (bus t w ev e t1 w1)
  then show ?case using bus_keeps by blast
next
  case (own t w ev w1)
  then show ?case
    using own_step_open own_step_rest device_reachable.event by (auto simp: control_ok_def)
qed

section \<open>Properties\<close>

text \<open>C2: Session and link agree through every history of the wired device: the session is open
  exactly while the transport knows a central, which it does only while it runs, and as long as
  it knows none nothing is going on that a central could have started: the session is in its
  initial state, the recorder is off, no platform stream and no preview server runs, there is no
  DHCP server and no WiFi group.  Stopping the transport brings the device there from anywhere,
  whatever D-Bus answers.\<close>

theorem session_follows_link:
  assumes "control_reachable fmt04 cfg adapter W t w"
  shows "(ss_phase (dv_session w) \<noteq> Idle \<longleftrightarrow> bt_central t) \<and> (bt_central t \<longrightarrow> bt_running t) \<and>
    (\<not> bt_central t \<longrightarrow> at_rest w) \<and>
    (case transport_stop x (wire_link cfg e t) w of (t1, w1) \<Rightarrow> \<not> bt_running t1 \<and> at_rest w1)"
proof -
  have ok: "control_ok cfg t w" using assms by (rule control_reachable_ok)
  obtain t1 w1 where S: "transport_stop x (wire_link cfg e t) w = (t1, w1)" by fastforce
  then have "link_step W (LinkStop x) (wire_link cfg e t, w) = Some (t1, w1)" by simp
  from bus_keeps [OF ok this] have "control_ok cfg t1 w1" .
  moreover have "\<not> bt_running t1"
    using transport_stop_ends(6) [OF S] ok by (simp add: control_ok_def)
  ultimately show ?thesis
    using ok S by (auto simp: control_ok_def session_open_def transport_ok_def)
qed

definition greeted_transport :: "device transport" where
  "greeted_transport =
     (let t = fst (transport_start bus_up bus_down
                (wire_link test_config test_env (make_transport (\<lambda>n. ''0000'') test_config ''hci0''))
                (device_new test_config))
      in wire_link test_config test_env t\<lparr>bt_central := True\<rparr>)"

definition greeted_device :: device where
  "greeted_device = device_new test_config\<lparr>dv_session := session_state_default\<lparr>ss_phase := Connected\<rparr>\<rparr>"

lemma greeted_reachable:
  "control_reachable (\<lambda>n. ''0000'') test_config ''hci0'' ack_wire greeted_transport greeted_device"
proof -
  let ?R = "control_reachable (\<lambda>n. ''0000'') test_config ''hci0'' ack_wire"
    and ?w = "device_new test_config"
    and ?link = "wire_link test_config test_env"
  let ?t = "fst (transport_start bus_up bus_down
    (?link (make_transport (\<lambda>n. ''0000'') test_config ''hci0'')) ?w)"
  have "link_step ack_wire (LinkStart bus_up bus_down)
      (?link (make_transport (\<lambda>n. ''0000'') test_config ''hci0''), ?w) = Some (?t, ?w)"
    by (simp add: transport_start_def start_steps_def bus_up_def Let_def)
  from control_reachable.bus [OF control_reachable.boot this] have "?R ?t ?w" .
  moreover have "link_step ack_wire (LinkWrite [1, 0]) (?link ?t, ?w) =
      Some (greeted_transport, greeted_device)"
    by (simp add: transport_start_def start_steps_def bus_up_def Let_def write_value_def
      on_raw_command_def ack_wire_def receive_chunk_def kChunkAckTotalChunks_def on_ack_def
      make_transport_def transport_new_def assembler_new_def greeted_transport_def
      greeted_device_def wire_link_def set_on_command_def set_on_connect_def set_on_disconnect_def
      device_new_def on_connect_def session_state_default_def)
  ultimately show ?thesis by (rule control_reachable.bus)
qed

theorem session_follows_link_witness:
  "bt_central greeted_transport \<and> bt_running greeted_transport \<and>
   (case transport_stop bus_down (wire_link test_config test_env greeted_transport) greeted_device of
      (t1, w1) \<Rightarrow> \<not> bt_running t1 \<and> at_rest w1)"
  using session_follows_link [OF greeted_reachable, of bus_down test_env]
  by (simp add: greeted_device_def)

end
