(* ===== verification/Firmware.thy ===== *)
theory Firmware
  imports ControlPlane PipelineStop
begin

text \<open>
  The program as \<^verbatim>\<open>main.cpp\<close> runs it: start the pipeline, the BLE transport, the download server
  and the clock, wait for the signal, and stop them again.  The pipeline, the transport and the
  device are those of the theories below; a schedule says how the threads take turns while Stop
  waits for them, and None is a join that has not returned by the end of it.
\<close>

section \<open>Start and shutdown\<close>

record ('c, 'd, 'k, 'r) firmware =
  fw_pipeline :: "('c, 'd, 'k, 'r) orchestrator"
  fw_transport :: "device transport"
  fw_device :: device
  fw_http :: http_server
  fw_clock :: bool

text \<open>Stop of the orchestrator as one call.\<close>

definition pipeline_stop ::
  "('c, 'd, 'k, 'r, 'x) pipeline_ports \<Rightarrow> thread_turn list \<Rightarrow> ('c, 'd, 'k, 'r) orchestrator \<Rightarrow>
   ('c, 'd, 'k, 'r) orchestrator option" where
  "pipeline_stop P schedule s =
     (if \<not> pl_running s then Some s
      else stop_finish P (snd (pipeline_run P schedule (stop_signal s))))"

text \<open>The answers main gets: from D-Bus on Start and Stop, from bind, and from sigprocmask.\<close>

record main_answers =
  ma_start :: start_answers
  ma_stop :: stop_answers
  ma_bound :: int
  ma_mask_ok :: bool

definition stop_pipeline_of ::
  "('c, 'd, 'k, 'r, 'x) pipeline_ports \<Rightarrow> thread_turn list \<Rightarrow> ('c, 'd, 'k, 'r) firmware \<Rightarrow>
   ('c, 'd, 'k, 'r) firmware option" where
  "stop_pipeline_of P schedule fw =
     map_option (\<lambda>p. fw\<lparr>fw_pipeline := p\<rparr>) (pipeline_stop P schedule (fw_pipeline fw))"

definition stop_transport_of ::
  "config_data \<Rightarrow> environment \<Rightarrow> stop_answers \<Rightarrow> ('c, 'd, 'k, 'r) firmware \<Rightarrow> ('c, 'd, 'k, 'r) firmware" where
  "stop_transport_of cfg e x fw =
     (case transport_stop x (wire_link cfg e (fw_transport fw)) (fw_device fw) of
        (t, w) \<Rightarrow> fw\<lparr>fw_transport := t, fw_device := w\<rparr>)"

text \<open>What main does after the signal, and when the signals cannot be blocked.\<close>

definition main_shutdown ::
  "('c, 'd, 'k, 'r, 'x) pipeline_ports \<Rightarrow> config_data \<Rightarrow> environment \<Rightarrow> stop_answers \<Rightarrow>
   thread_turn list \<Rightarrow> ('c, 'd, 'k, 'r) firmware \<Rightarrow> ('c, 'd, 'k, 'r) firmware option" where
  "main_shutdown P cfg e x schedule fw =
     (let fw1 = fw\<lparr>fw_clock := False\<rparr>;
          fw2 = fw1\<lparr>fw_http := http_stop (fw_http fw1)\<rparr>
      in stop_pipeline_of P schedule (stop_transport_of cfg e x fw2))"

text \<open>Inl is an exit code with what is left then, Inr a program that waits for its signal.\<close>

definition main_start ::
  "('c, 'd, 'k, 'r, 'x) pipeline_ports \<Rightarrow> config_data \<Rightarrow> environment \<Rightarrow> main_answers \<Rightarrow>
   thread_turn list \<Rightarrow> ('c, 'd, 'k, 'r) firmware \<Rightarrow>
   (int \<times> ('c, 'd, 'k, 'r) firmware + ('c, 'd, 'k, 'r) firmware) option" where
  "main_start P cfg e a schedule fw =
     (case pipeline_start P (fw_pipeline fw) of
        (False, p) \<Rightarrow> Some (Inl (1, fw\<lparr>fw_pipeline := p\<rparr>))
      | (True, p) \<Rightarrow>
          (case transport_start (ma_start a) (ma_stop a) (wire_link cfg e (fw_transport fw)) (fw_device fw) of
             (t, w) \<Rightarrow>
               let fw1 = fw\<lparr>fw_pipeline := p, fw_transport := t, fw_device := w\<rparr>
               in if \<not> transport_is_running t
                  then map_option (\<lambda>fw2. Inl (1, fw2)) (stop_pipeline_of P schedule fw1)
                  else
                    let fw2 = fw1\<lparr>fw_http := snd (http_start (ma_bound a) (fw_http fw1)), fw_clock := True\<rparr>
                    in if \<not> ma_mask_ok a
                       then map_option (\<lambda>fw3. Inl (1, fw3)) (main_shutdown P cfg e (ma_stop a) schedule fw2)
                       else Some (Inr fw2)))"

section \<open>At rest\<close>

definition nothing_runs :: "('c, 'd, 'k, 'r) firmware \<Rightarrow> bool" where
  "nothing_runs fw \<longleftrightarrow>
     \<not> pl_running (fw_pipeline fw) \<and> \<not> transport_is_running (fw_transport fw) \<and>
     at_rest (fw_device fw) \<and> \<not> hs_running (fw_http fw) \<and> \<not> fw_clock fw"

text \<open>The schedule lets every thread reach its end, without a crash on the way.\<close>

definition joins ::
  "('c, 'd, 'k, 'r, 'x) pipeline_ports \<Rightarrow> thread_turn list \<Rightarrow> ('c, 'd, 'k, 'r) orchestrator \<Rightarrow> bool" where
  "joins P schedule s \<longleftrightarrow>
     (\<forall>i < length (pl_cameras s). 5 \<le> producer_turns i schedule) \<and>
     length (pl_cameras s) + 6 \<le> consumer_turns schedule \<and>
     \<not> pl_crashed (snd (pipeline_run P schedule (stop_signal s)))"

lemma pipeline_stop_returns:
  assumes "pipeline_shape s" "pl_running s \<Longrightarrow> joins P schedule s"
  shows "\<exists>s'. pipeline_stop P schedule s = Some s' \<and> \<not> pl_running s'"
proof (cases "pl_running s")
  case True
  obtain os s1 where R: "pipeline_run P schedule (stop_signal s) = (os, s1)" by fastforce
  have "stop_finish P s1 = Some (s1\<lparr>pl_cameras := map (pt_stop P) (pl_cameras s1), pl_producers := []\<rparr>)
      \<and> \<not> pipeline_is_running s1"
    using stop_ends_spec [OF assms(1) True R] assms(2) [OF True] R by (simp add: joins_def)
  then show ?thesis using True R by (simp add: pipeline_stop_def pipeline_is_running_def)
qed (simp add: pipeline_stop_def)

lemma http_stopped [simp]: "\<not> hs_running (http_stop h)"
  by (simp add: http_stop_def)

text \<open>A firmware in a state that a history of its parts can lead to.\<close>

definition firmware_ok :: "config_data \<Rightarrow> ('c, 'd, 'k, 'r) firmware \<Rightarrow> bool" where
  "firmware_ok cfg fw \<longleftrightarrow>
     pipeline_shape (fw_pipeline fw) \<and> control_ok cfg (fw_transport fw) (fw_device fw)"

lemma transport_stopped:
  assumes "control_ok cfg (fw_transport fw) (fw_device fw)"
  shows "fw_pipeline (stop_transport_of cfg e x fw) = fw_pipeline fw"
    "fw_http (stop_transport_of cfg e x fw) = fw_http fw"
    "fw_clock (stop_transport_of cfg e x fw) = fw_clock fw"
    "\<not> transport_is_running (fw_transport (stop_transport_of cfg e x fw))"
    "at_rest (fw_device (stop_transport_of cfg e x fw))"
    "control_ok cfg (fw_transport (stop_transport_of cfg e x fw)) (fw_device (stop_transport_of cfg e x fw))"
proof -
  obtain t w where S: "transport_stop x (wire_link cfg e (fw_transport fw)) (fw_device fw) = (t, w)"
    by fastforce
  then have "link_step W (LinkStop x) (wire_link cfg e (fw_transport fw), fw_device fw) = Some (t, w)" for W
    by simp
  note ok = bus_keeps [OF assms this]
  have "\<not> bt_running t" using transport_stop_ends(6) [OF S] assms by (simp add: control_ok_def)
  then show "\<not> transport_is_running (fw_transport (stop_transport_of cfg e x fw))"
    "at_rest (fw_device (stop_transport_of cfg e x fw))"
    using ok S by (auto simp: stop_transport_of_def transport_is_running_def control_ok_def transport_ok_def)
  show "control_ok cfg (fw_transport (stop_transport_of cfg e x fw)) (fw_device (stop_transport_of cfg e x fw))"
    using ok S by (simp add: stop_transport_of_def)
qed (simp_all add: stop_transport_of_def split: prod.split)

lemma shutdown_leaves_nothing:
  assumes "firmware_ok cfg fw" "pl_running (fw_pipeline fw) \<Longrightarrow> joins P schedule (fw_pipeline fw)"
  shows "\<exists>fw'. main_shutdown P cfg e x schedule fw = Some fw' \<and> nothing_runs fw'"
proof -
  let ?fw = "fw\<lparr>fw_clock := False, fw_http := http_stop (fw_http fw)\<rparr>"
  have "control_ok cfg (fw_transport ?fw) (fw_device ?fw)" using assms(1) by (simp add: firmware_ok_def)
  note T = transport_stopped [OF this, of e x]
  obtain p where "pipeline_stop P schedule (fw_pipeline fw) = Some p" "\<not> pl_running p"
    using pipeline_stop_returns [of "fw_pipeline fw" P schedule] assms by (auto simp: firmware_ok_def)
  then show ?thesis
    using T by (simp add: main_shutdown_def stop_pipeline_of_def nothing_runs_def Let_def)
qed

section \<open>Start\<close>

lemma start_cameras_length:
  "length (snd (start_cameras P started cs)) = length started + length cs"
  by (induction cs arbitrary: started) (auto simp: Let_def)

lemma pipeline_start_shape:
  assumes "pipeline_start P s = (ok, s1)" "pipeline_shape s" "\<not> pl_running s"
  shows "pipeline_shape s1 \<and> pl_running s1 = ok"
proof (cases "pl_cameras s")
  case Nil
  then show ?thesis using assms by (auto simp: pipeline_start_def)
next
  case (Cons c cs)
  obtain b cams where S: "start_cameras P [] (pl_cameras s) = (b, cams)" by fastforce
  then have "length cams = length (pl_cameras s)"
    using start_cameras_length [of P "[]" "pl_cameras s"] by simp
  then show ?thesis using assms S Cons
    by (cases b) (auto simp: pipeline_start_def pipeline_shape_def)
qed

lemma link_started:
  assumes "control_ok cfg t w" "transport_start y x (wire_link cfg e t) w = (t1, w1)"
  shows "control_ok cfg t1 w1" "\<not> transport_is_running t1 \<Longrightarrow> at_rest w1"
proof -
  have "link_step W (LinkStart y x) (wire_link cfg e t, w) = Some (t1, w1)" for W
    using assms(2) by simp
  from bus_keeps [OF assms(1) this] show "control_ok cfg t1 w1" .
  then show "\<not> transport_is_running t1 \<Longrightarrow> at_rest w1"
    by (auto simp: control_ok_def transport_ok_def transport_is_running_def)
qed

text \<open>The state main starts from.\<close>

definition fresh_firmware :: "config_data \<Rightarrow> ('c, 'd, 'k, 'r) firmware \<Rightarrow> bool" where
  "fresh_firmware cfg fw \<longleftrightarrow>
     pipeline_shape (fw_pipeline fw) \<and> control_ok cfg (fw_transport fw) (fw_device fw) \<and> nothing_runs fw"

lemma main_start_result:
  assumes "fresh_firmware cfg fw" "\<And>p. pipeline_start P (fw_pipeline fw) = (True, p) \<Longrightarrow> joins P schedule p"
  shows "case main_start P cfg e a schedule fw of
      None \<Rightarrow> False
    | Some (Inl (code, fw1)) \<Rightarrow> code = 1 \<and> nothing_runs fw1
    | Some (Inr fw1) \<Rightarrow> firmware_ok cfg fw1 \<and> pl_running (fw_pipeline fw1) \<and>
        transport_is_running (fw_transport fw1) \<and> fw_clock fw1"
proof -
  have ok: "pipeline_shape (fw_pipeline fw)" "control_ok cfg (fw_transport fw) (fw_device fw)"
    and idle: "\<not> pl_running (fw_pipeline fw)" "\<not> transport_is_running (fw_transport fw)"
      "at_rest (fw_device fw)" "\<not> hs_running (fw_http fw)" "\<not> fw_clock fw"
    using assms(1) by (simp_all add: fresh_firmware_def nothing_runs_def)
  obtain b p where P: "pipeline_start P (fw_pipeline fw) = (b, p)" by fastforce
  note shape = pipeline_start_shape [OF P ok(1) idle(1)]
  show ?thesis
  proof (cases b)
    case False
    then show ?thesis using P shape idle by (simp add: main_start_def nothing_runs_def)
  next
    case True
    obtain t w where T: "transport_start (ma_start a) (ma_stop a) (wire_link cfg e (fw_transport fw))
        (fw_device fw) = (t, w)" by fastforce
    note link = link_started [OF ok(2) T]
    have J: "joins P schedule p" using assms(2) P True by simp
    show ?thesis
    proof (cases "transport_is_running t")
      case False
      obtain p1 where "pipeline_stop P schedule p = Some p1" "\<not> pl_running p1"
        using pipeline_stop_returns [of p P schedule] shape J by auto
      then show ?thesis
        using P T True False link(2) idle
        by (simp add: main_start_def stop_pipeline_of_def nothing_runs_def Let_def)
    next
      case up: True
      let ?fw = "fw\<lparr>fw_pipeline := p, fw_transport := t, fw_device := w,
        fw_http := snd (http_start (ma_bound a) (fw_http fw)), fw_clock := True\<rparr>"
      have F: "firmware_ok cfg ?fw" using shape link(1) by (simp add: firmware_ok_def)
      show ?thesis
      proof (cases "ma_mask_ok a")
        case True
        then show ?thesis using P T \<open>b\<close> up F shape by (simp add: main_start_def Let_def)
      next
        case False
        obtain fw1 where "main_shutdown P cfg e (ma_stop a) schedule ?fw = Some fw1" "nothing_runs fw1"
          using shutdown_leaves_nothing [OF F, of P schedule e "ma_stop a"] J by auto
        then show ?thesis using P T \<open>b\<close> up False by (simp add: main_start_def Let_def)
      qed
    qed
  qed
qed

section \<open>Properties\<close>

text \<open>C4: Every way out of main leaves nothing behind.  When a camera, the BLE transport or the
  blocking of signals fails, main returns 1, and when it is told to end by a signal it comes to
  its end from any state the program can have reached, provided the threads of the pipeline get
  their turns; each time the pipeline, the transport, the download server and the clock have
  stopped, and the device is at rest, with no recording, no stream and no WiFi group.\<close>

theorem main_exits_clean:
  assumes "fresh_firmware cfg fw" "\<forall>p. pipeline_start P (fw_pipeline fw) = (True, p) \<longrightarrow> joins P schedule p"
    and "control_reachable fmt04 cfg adapter W (fw_transport gw) (fw_device gw)"
    and "pipeline_shape (fw_pipeline gw)" "joins P schedule' (fw_pipeline gw)"
  shows "(case main_start P cfg e a schedule fw of
      None \<Rightarrow> False
    | Some (Inl (code, fw1)) \<Rightarrow> code = 1 \<and> nothing_runs fw1
    | Some (Inr fw1) \<Rightarrow> pl_running (fw_pipeline fw1) \<and> transport_is_running (fw_transport fw1) \<and>
        fw_clock fw1) \<and>
    (case main_shutdown P cfg e' x schedule' gw of None \<Rightarrow> False | Some gw1 \<Rightarrow> nothing_runs gw1)"
proof -
  have "firmware_ok cfg gw"
    using assms(4) control_reachable_ok [OF assms(3)] by (simp add: firmware_ok_def)
  then obtain gw1 where "main_shutdown P cfg e' x schedule' gw = Some gw1" "nothing_runs gw1"
    using shutdown_leaves_nothing assms(5) by blast
  moreover have "joins P schedule p" if "pipeline_start P (fw_pipeline fw) = (True, p)" for p
    using assms(2) that by blast
  note main_start_result [OF assms(1) this, of e a]
  ultimately show ?thesis by (auto split: option.splits sum.splits)
qed

section \<open>A start and a shutdown\<close>

type_synonym work_firmware = "(nat camera_rig, unit, frame list option list, frame list) firmware"

definition http_idle :: http_server where
  "http_idle = \<lparr>hs_running = False, hs_bound_port = 0, hs_thread = False\<rparr>"

definition fresh_work :: work_firmware where
  "fresh_work =
     \<lparr>fw_pipeline = work_pipeline, fw_transport = make_transport (\<lambda>n. ''0000'') test_config ''hci0'',
      fw_device = device_new test_config, fw_http = http_idle, fw_clock = False\<rparr>"

definition running_work :: work_firmware where
  "running_work =
     \<lparr>fw_pipeline = work_started, fw_transport = greeted_transport, fw_device = greeted_device,
      fw_http = snd (http_start 8080 http_idle), fw_clock = True\<rparr>"

definition work_answers :: main_answers where
  "work_answers = \<lparr>ma_start = bus_up, ma_stop = bus_down, ma_bound = 8080, ma_mask_ok = True\<rparr>"

lemma work_joins: "joins work_ports stop_schedule work_started"
  using work_stopped_state
  by (simp add: joins_def work_stopped_def work_started_state stop_schedule_def producer_turns_def
      consumer_turns_def)

lemma fresh_work_ok: "fresh_firmware test_config fresh_work"
proof -
  have T: "control_ok test_config (fw_transport fresh_work) (fw_device fresh_work)"
    by (rule control_reachable_ok [of "\<lambda>n. ''0000''" _ "''hci0''" ack_wire])
      (simp add: fresh_work_def control_reachable.boot)
  have "at_rest (fw_device fresh_work)" by (simp add: fresh_work_def device_new_rest)
  moreover have "\<not> transport_is_running (fw_transport fresh_work)"
    by (simp add: fresh_work_def make_transport_def transport_new_def transport_is_running_def)
  moreover have "pipeline_shape work_pipeline"
    by (simp add: pipeline_shape_def work_pipeline_def orchestrator_new_def)
  ultimately show ?thesis using T work_pipeline_state
    by (simp add: fresh_firmware_def nothing_runs_def fresh_work_def http_idle_def)
qed

theorem main_exits_clean_witness:
  "(case main_start work_ports test_config test_env work_answers stop_schedule fresh_work of
      None \<Rightarrow> False
    | Some (Inl (code, fw1)) \<Rightarrow> code = 1 \<and> nothing_runs fw1
    | Some (Inr fw1) \<Rightarrow> pl_running (fw_pipeline fw1) \<and> transport_is_running (fw_transport fw1) \<and>
        fw_clock fw1) \<and>
   (case main_shutdown work_ports test_config test_env bus_down stop_schedule running_work of
      None \<Rightarrow> False | Some gw1 \<Rightarrow> nothing_runs gw1)"
proof (rule main_exits_clean [OF fresh_work_ok])
  show "\<forall>p. pipeline_start work_ports (fw_pipeline fresh_work) = (True, p) \<longrightarrow>
      joins work_ports stop_schedule p"
    using work_joins work_start by (simp add: fresh_work_def)
  show "control_reachable (\<lambda>n. ''0000'') test_config ''hci0'' ack_wire (fw_transport running_work)
      (fw_device running_work)"
    using greeted_reachable by (simp add: running_work_def)
  show "pipeline_shape (fw_pipeline running_work)"
    using work_started_state(4) by (simp add: running_work_def)
  show "joins work_ports stop_schedule (fw_pipeline running_work)"
    using work_joins by (simp add: running_work_def)
qed

end
