(* ===== verification/Renderer.thy ===== *)
theory Renderer
  imports Compositor
begin

text \<open>
  The overlay renderer \<^verbatim>\<open>adapters/overlay/cairo/cairo-overlay-renderer.cpp\<close>: colours, the calls
  made on Cairo and Pango for a scene, and the conversion of the finished surface to straight
  RGBA bytes.

  Cairo and Pango are not modelled: drawing is the list of the calls made, and the surface that
  comes of a list of calls is an argument.  Floating point arithmetic is an argument too.
  None is undefined behaviour: a conversion to int out of range, or an access outside a buffer.
\<close>

section \<open>Colours\<close>

record rgb_bytes =
  rb_red :: nat
  rb_green :: nat
  rb_blue :: nat

definition kHexDigits :: nat where "kHexDigits = 6"

definition hex_nibble :: "char \<Rightarrow> nat option" where
  "hex_nibble c =
     (let k = of_char c :: nat
      in if 48 \<le> k \<and> k \<le> 57 then Some (k - 48)
         else if 97 \<le> k \<and> k \<le> 102 then Some (k - 97 + 10)
         else if 65 \<le> k \<and> k \<le> 70 then Some (k - 65 + 10)
         else None)"

definition hex_byte :: "string \<Rightarrow> nat \<Rightarrow> nat option" where
  "hex_byte digits off =
     (case (hex_nibble (digits ! off), hex_nibble (digits ! (off + 1))) of
        (Some high, Some low) \<Rightarrow> Some (16 * high + low)
      | _ \<Rightarrow> None)"

text \<open>None is a colour that is not valid; the channels are divided by 255 where they are used.\<close>

definition parse_hex_color :: "string \<Rightarrow> rgb_bytes option" where
  "parse_hex_color hex =
     (let digits = (case hex of c # cs \<Rightarrow> if c = CHR ''#'' then cs else hex | [] \<Rightarrow> hex)
      in if length digits \<noteq> kHexDigits then None
         else case (hex_byte digits 0, hex_byte digits 2, hex_byte digits 4) of
                (Some r, Some g, Some b) \<Rightarrow> Some \<lparr>rb_red = r, rb_green = g, rb_blue = b\<rparr>
              | _ \<Rightarrow> None)"

section \<open>Arithmetic and calls\<close>

record 'd draw_ops =
  do_float_sub :: "fl \<Rightarrow> fl \<Rightarrow> fl"
  do_of_float :: "fl \<Rightarrow> 'd"
  do_of :: "nat \<Rightarrow> 'd"
  do_pi :: 'd
  do_neg :: "'d \<Rightarrow> 'd"
  do_add :: "'d \<Rightarrow> 'd \<Rightarrow> 'd"
  do_sub :: "'d \<Rightarrow> 'd \<Rightarrow> 'd"
  do_mul :: "'d \<Rightarrow> 'd \<Rightarrow> 'd"
  do_div :: "'d \<Rightarrow> 'd \<Rightarrow> 'd"
  do_less :: "'d \<Rightarrow> 'd \<Rightarrow> bool"
  do_leq :: "'d \<Rightarrow> 'd \<Rightarrow> bool"
  do_to_int :: "'d \<Rightarrow> int option"

record 'd text_layout =
  tl_text :: string
  tl_family :: string
  tl_bold :: bool
  tl_size :: "'d option"
  tl_width :: "int option"
  tl_align :: text_align

datatype 'd draw_call =
    Save | Restore | PushGroup | PopGroupToSource | PaintWithAlpha 'd
  | Rectangle 'd 'd 'd 'd | NewSubPath | Arc 'd 'd 'd 'd 'd | ClosePath | MoveTo 'd 'd
  | Clip | Fill | SetSourceRgb 'd 'd 'd | SetSourceRgba 'd 'd 'd 'd
  | Translate 'd 'd | Scale 'd 'd | ShowLayout "'d text_layout"

definition PANGO_SCALE :: nat where "PANGO_SCALE = 1024"

record 'd box_geom =
  bg_pos_x :: 'd
  bg_pos_y :: 'd
  bg_width :: 'd
  bg_height :: 'd

definition box_of :: "'d draw_ops \<Rightarrow> overlay_rect \<Rightarrow> 'd box_geom" where
  "box_of D b =
     \<lparr>bg_pos_x = do_of_float D (or_x1 b), bg_pos_y = do_of_float D (or_y1 b),
      bg_width = do_of_float D (do_float_sub D (or_x2 b) (or_x1 b)),
      bg_height = do_of_float D (do_float_sub D (or_y2 b) (or_y1 b))\<rparr>"

definition positive :: "'d draw_ops \<Rightarrow> 'd \<Rightarrow> bool" where
  "positive D x \<longleftrightarrow> do_less D (do_of D 0) x"

definition channel :: "'d draw_ops \<Rightarrow> nat \<Rightarrow> 'd" where
  "channel D v = do_div D (do_of D v) (do_of D 255)"

definition source_rgb :: "'d draw_ops \<Rightarrow> rgb_bytes \<Rightarrow> 'd draw_call" where
  "source_rgb D c = SetSourceRgb (channel D (rb_red c)) (channel D (rb_green c)) (channel D (rb_blue c))"

definition source_rgba :: "'d draw_ops \<Rightarrow> rgb_bytes \<Rightarrow> 'd \<Rightarrow> 'd draw_call" where
  "source_rgba D c a =
     SetSourceRgba (channel D (rb_red c)) (channel D (rb_green c)) (channel D (rb_blue c)) a"

section \<open>Drawing\<close>

text \<open>\<^verbatim>\<open>std::min\<close> keeps the first of equal or unordered arguments.\<close>

definition do_min :: "'d draw_ops \<Rightarrow> 'd \<Rightarrow> 'd \<Rightarrow> 'd" where
  "do_min D a b = (if do_less D b a then b else a)"

definition rounded_rect_path :: "'d draw_ops \<Rightarrow> 'd box_geom \<Rightarrow> 'd \<Rightarrow> 'd draw_call list" where
  "rounded_rect_path D g radius =
     (let x = bg_pos_x g; y = bg_pos_y g; w = bg_width g; h = bg_height g; two = do_of D 2;
          rad = do_min D (do_min D radius (do_div D w two)) (do_div D h two);
          half_pi = do_div D (do_pi D) two
      in if do_leq D rad (do_of D 0)
         then [Rectangle x y w h]
         else
           [NewSubPath,
            Arc (do_sub D (do_add D x w) rad) (do_add D y rad) rad (do_neg D half_pi) (do_of D 0),
            Arc (do_sub D (do_add D x w) rad) (do_sub D (do_add D y h) rad) rad (do_of D 0) half_pi,
            Arc (do_add D x rad) (do_sub D (do_add D y h) rad) rad half_pi (do_pi D),
            Arc (do_add D x rad) (do_add D y rad) rad (do_pi D) (do_mul D (do_of D 3) half_pi),
            ClosePath])"

definition resolve_font_family :: "string \<Rightarrow> string" where
  "resolve_font_family family = (if family = [] then ''sans-serif'' else family)"

text \<open>What a string is through \<^verbatim>\<open>c_str\<close>.\<close>

definition c_str :: "string \<Rightarrow> string" where
  "c_str s = takeWhile (\<lambda>c. c \<noteq> CHR 0x00) s"

definition text_layout_of ::
  "'d draw_ops \<Rightarrow> render_element \<Rightarrow> 'd box_geom \<Rightarrow> 'd text_layout option" where
  "text_layout_of D e g =
     (let y = re_style e; scaled = do_mul D (bg_width g) (do_of D PANGO_SCALE);
          layout = \<lparr>tl_text = c_str (re_text e), tl_family = c_str (resolve_font_family (oy_font_family y)),
            tl_bold = (oy_font_weight y = WeightBold),
            tl_size = (if fl_less (Fin 0) (oy_font_size y)
                       then Some (do_mul D (do_of_float D (oy_font_size y)) (do_of D PANGO_SCALE))
                       else None),
            tl_width = None, tl_align = oy_text_align y\<rparr>
      in if positive D (bg_width g)
         then map_option (\<lambda>w. layout\<lparr>tl_width := Some w\<rparr>) (do_to_int D scaled)
         else Some layout)"

definition draw_glyphs ::
  "'d draw_ops \<Rightarrow> render_element \<Rightarrow> rgb_bytes \<Rightarrow> 'd box_geom \<Rightarrow> 'd \<Rightarrow> bool \<Rightarrow> 'd draw_call list option" where
  "draw_glyphs D e color g opacity needs_group =
     (let boxed = (positive D (bg_width g) \<and> positive D (bg_height g))
      in map_option (\<lambda>layout.
           (if boxed
            then [Save, Rectangle (bg_pos_x g) (bg_pos_y g) (bg_width g) (bg_height g), Clip] else []) @
           [if needs_group then source_rgb D color else source_rgba D color opacity,
            MoveTo (bg_pos_x g) (bg_pos_y g), ShowLayout layout] @
           (if boxed then [Restore] else []))
         (text_layout_of D e g))"

definition kEps :: "'d draw_ops \<Rightarrow> 'd" where
  "kEps D = do_div D (do_of D 1) (do_of D 512)"

definition draw_text :: "'d draw_ops \<Rightarrow> render_element \<Rightarrow> 'd draw_call list option" where
  "draw_text D e =
     (let y = re_style e; g = box_of D (re_bounds e); opacity = do_of_float D (oy_opacity y);
          text_color = parse_hex_color (oy_text_color y); fill = parse_hex_color (oy_fill_color y);
          have_glyphs = (text_color \<noteq> None \<and> re_text e \<noteq> []);
          needs_group = (do_less D opacity (do_sub D (do_of D 1) (kEps D)) \<or> fill \<noteq> None);
          background =
            (case fill of
               None \<Rightarrow> []
             | Some c \<Rightarrow>
                 if positive D (bg_width g) \<and> positive D (bg_height g)
                 then rounded_rect_path D g (do_of_float D (oy_corner_radius y)) @ [source_rgb D c, Fill]
                 else [])
      in if fill = None \<and> \<not> have_glyphs then Some []
         else
           map_option (\<lambda>glyphs.
             (if needs_group then [PushGroup] else []) @ background @ glyphs @
             (if needs_group then [PopGroupToSource, PaintWithAlpha opacity] else []))
           (if have_glyphs then draw_glyphs D e (the text_color) g opacity needs_group else Some []))"

definition draw_element :: "'d draw_ops \<Rightarrow> render_element \<Rightarrow> 'd draw_call list option" where
  "draw_element D e =
     (let y = re_style e; g = box_of D (re_bounds e); w = bg_width g; h = bg_height g;
          opacity = do_of_float D (oy_opacity y); two = do_of D 2;
          boxed = (positive D w \<and> positive D h)
      in case re_shape e of
           ShapeRect \<Rightarrow>
             (case parse_hex_color (oy_fill_color y) of
                Some c \<Rightarrow>
                  Some (if boxed
                        then rounded_rect_path D g (do_of_float D (oy_corner_radius y)) @
                             [source_rgba D c opacity, Fill]
                        else [])
              | None \<Rightarrow> Some [])
         | ShapeCircle \<Rightarrow>
             (case parse_hex_color (oy_fill_color y) of
                Some c \<Rightarrow>
                  Some (if boxed
                        then [Save, Translate (do_add D (bg_pos_x g) (do_div D w two))
                                (do_add D (bg_pos_y g) (do_div D h two)),
                              Scale (do_div D w two) (do_div D h two),
                              Arc (do_of D 0) (do_of D 0) (do_of D 1) (do_of D 0)
                                (do_mul D two (do_pi D)),
                              Restore, source_rgba D c opacity, Fill]
                        else [])
              | None \<Rightarrow> Some [])
         | ShapeText \<Rightarrow> draw_text D e
         | ShapeUnknown \<Rightarrow> Some [])"

text \<open>The letterbox mapping of the canvas to the output, then the elements in order.\<close>

definition canvas_mapping :: "'d draw_ops \<Rightarrow> render_scene \<Rightarrow> u32 \<Rightarrow> u32 \<Rightarrow> 'd draw_call list" where
  "canvas_mapping D sc out_width out_height =
     (let cw = unat (rsc_canvas_width sc); ch = unat (rsc_canvas_height sc);
          ow = do_of D (unat out_width); oh = do_of D (unat out_height);
          scale_x = (if 0 < cw then do_div D ow (do_of D cw) else do_of D 1);
          scale_y = (if 0 < ch then do_div D oh (do_of D ch) else do_of D 1);
          scale = do_min D scale_x scale_y;
          scaled_w = do_mul D (do_of D cw) scale; scaled_h = do_mul D (do_of D ch) scale
      in [Translate (do_div D (do_sub D ow scaled_w) (do_of D 2))
            (do_div D (do_sub D oh scaled_h) (do_of D 2)),
          Scale scale scale])"

fun draw_elements :: "'d draw_ops \<Rightarrow> render_element list \<Rightarrow> 'd draw_call list option" where
  "draw_elements D [] = Some []"
| "draw_elements D (e # es) =
     (case draw_element D e of
        None \<Rightarrow> None
      | Some calls \<Rightarrow> map_option ((@) calls) (draw_elements D es))"

section \<open>The image\<close>

definition kChannelMax :: nat where "kChannelMax = 255"
definition kRoundHalf :: nat where "kRoundHalf = 2"
definition kBytesPerPixel :: nat where "kBytesPerPixel = 4"

definition unpremul :: "u8 \<Rightarrow> u8 \<Rightarrow> u8" where
  "unpremul alpha val =
     (if alpha = 0 then 0
      else of_nat (min kChannelMax ((unat val * kChannelMax + unat alpha div kRoundHalf) div unat alpha)))"

text \<open>The loops over the columns and rows: from column \<^verbatim>\<open>col\<close>, \<^verbatim>\<open>n\<close> columns are left.  The surface has
  the byte order blue, green, red, alpha.\<close>

fun convert_cols :: "u8 list \<Rightarrow> nat \<Rightarrow> nat \<Rightarrow> nat \<Rightarrow> nat \<Rightarrow> u8 list \<Rightarrow> u8 list option" where
  "convert_cols src in_row out_row col 0 px = Some px"
| "convert_cols src in_row out_row col (Suc n) px =
     (let i = in_row + col * kBytesPerPixel; o' = out_row + col * kBytesPerPixel
      in if i + 3 < length src \<and> o' + 3 < length px
         then
           let b = src ! i; g = src ! (i + 1); r = src ! (i + 2); a = src ! (i + 3)
           in convert_cols src in_row out_row (Suc col) n
                (px[o' := unpremul a r, o' + 1 := unpremul a g, o' + 2 := unpremul a b, o' + 3 := a])
         else None)"

fun convert_rows ::
  "u8 list \<Rightarrow> nat \<Rightarrow> nat \<Rightarrow> nat \<Rightarrow> nat \<Rightarrow> nat \<Rightarrow> u8 list \<Rightarrow> u8 list option" where
  "convert_rows src cairo_stride stride width row 0 px = Some px"
| "convert_rows src cairo_stride stride width row (Suc n) px =
     (case convert_cols src (row * cairo_stride) (row * stride) 0 width px of
        None \<Rightarrow> None
      | Some px1 \<Rightarrow> convert_rows src cairo_stride stride width (Suc row) n px1)"

text \<open>A surface by its width and height: None has no data, else its stride and bytes.\<close>

type_synonym 'd surface = "int \<Rightarrow> int \<Rightarrow> 'd draw_call list \<Rightarrow> (nat \<times> u8 list) option"

definition render ::
  "'d draw_ops \<Rightarrow> 'd surface \<Rightarrow> render_scene \<Rightarrow> u32 \<Rightarrow> u32 \<Rightarrow> rgba_image option" where
  "render D surface sc out_width out_height =
     (let stride = out_width * 4; zeros = replicate (unat stride * unat out_height) 0;
          img = \<lparr>ri_width = out_width, ri_height = out_height, ri_stride = stride, ri_pixels = zeros\<rparr>
      in if out_width = 0 \<or> out_height = 0 then Some img
         else
           case draw_elements D (rsc_elements sc) of
             None \<Rightarrow> None
           | Some calls \<Rightarrow>
               (case surface (sint out_width) (sint out_height)
                       (canvas_mapping D sc out_width out_height @ calls) of
                  None \<Rightarrow> None
                | Some (cairo_stride, src) \<Rightarrow>
                    map_option (\<lambda>px. img\<lparr>ri_pixels := px\<rparr>)
                      (convert_rows src cairo_stride (unat stride) (unat out_width) 0
                         (unat out_height) zeros)))"

section \<open>The overlay as a GStreamer source\<close>

text \<open>\<^verbatim>\<open>adapters/overlay/gstreamer/gst-overlay-compositor.cpp\<close>: the source element and the buffers pushed
  into it, each with the answer of GStreamer.  Making the element, allocating a buffer and the
  flow are answers.\<close>

record gst_overlay =
  go_width :: u32
  go_height :: u32
  go_appsrc :: bool
  go_pushed :: "u8 list list"
  go_ended :: bool

definition gst_overlay_new :: "bool \<Rightarrow> u32 \<Rightarrow> u32 \<Rightarrow> gst_overlay" where
  "gst_overlay_new made width height =
     \<lparr>go_width = width, go_height = height, go_appsrc = made, go_pushed = [], go_ended = False\<rparr>"

definition gst_overlay_destroy :: "gst_overlay \<Rightarrow> gst_overlay" where
  "gst_overlay_destroy g = (if go_appsrc g then g\<lparr>go_ended := True, go_appsrc := False\<rparr> else g)"

definition gst_overlay_push :: "(nat \<Rightarrow> bool) \<Rightarrow> bool \<Rightarrow> rgba_image \<Rightarrow> gst_overlay \<Rightarrow> gst_overlay" where
  "gst_overlay_push alloc flow_ok img g =
     (if \<not> go_appsrc g then g
      else if ri_pixels img = [] then g
      else if \<not> alloc (length (ri_pixels img)) then g
      else if flow_ok then g\<lparr>go_pushed := go_pushed g @ [ri_pixels img]\<rparr> else g)"

section \<open>Drawing leaves the graphics state\<close>

text \<open>
  What a list of calls does to the part of the graphics state that is saved and restored: the
  transformations and clips in force, newest first, below them the levels opened by Save and
  PushGroup with what was in force then.  None when a level is closed by the wrong call.
\<close>

datatype level = SaveLevel | GroupLevel

type_synonym 'd graphics = "'d draw_call list \<times> (level \<times> 'd draw_call list) list"

fun run_call :: "'d draw_call \<Rightarrow> 'd graphics \<Rightarrow> 'd graphics option" where
  "run_call Save (now, ls) = Some (now, (SaveLevel, now) # ls)"
| "run_call PushGroup (now, ls) = Some (now, (GroupLevel, now) # ls)"
| "run_call Restore (now, ls) = (case ls of (SaveLevel, old) # ms \<Rightarrow> Some (old, ms) | _ \<Rightarrow> None)"
| "run_call PopGroupToSource (now, ls) =
     (case ls of (GroupLevel, old) # ms \<Rightarrow> Some (old, ms) | _ \<Rightarrow> None)"
| "run_call (Translate x y) (now, ls) = Some (Translate x y # now, ls)"
| "run_call (Scale x y) (now, ls) = Some (Scale x y # now, ls)"
| "run_call Clip (now, ls) = Some (Clip # now, ls)"
| "run_call _ s = Some s"

fun run_calls :: "'d draw_call list \<Rightarrow> 'd graphics \<Rightarrow> 'd graphics option" where
  "run_calls [] s = Some s"
| "run_calls (c # cs) s = (case run_call c s of None \<Rightarrow> None | Some s1 \<Rightarrow> run_calls cs s1)"

lemma run_calls_append [simp]:
  "run_calls (xs @ ys) s = (case run_calls xs s of None \<Rightarrow> None | Some s1 \<Rightarrow> run_calls ys s1)"
  by (induction xs arbitrary: s) (auto split: option.split)

text \<open>Calls that leave the graphics state as they found it.\<close>

definition neutral :: "'d draw_call list \<Rightarrow> bool" where
  "neutral cs \<longleftrightarrow> (\<forall>s. run_calls cs s = Some s)"

lemma neutral_nil [simp]: "neutral []"
  by (simp add: neutral_def)

lemma neutral_append: "\<lbrakk>neutral xs; neutral ys\<rbrakk> \<Longrightarrow> neutral (xs @ ys)"
  by (simp add: neutral_def)

lemma neutral_colour [simp]:
  "run_call (source_rgb D c) s = Some s" "run_call (source_rgba D c a) s = Some s"
  by (cases s; simp add: source_rgb_def source_rgba_def)+

lemma rounded_rect_neutral: "neutral (rounded_rect_path D g radius)"
  unfolding neutral_def by (auto simp: rounded_rect_path_def Let_def)

lemma neutral_run: "neutral cs \<Longrightarrow> run_calls cs s = Some s"
  unfolding neutral_def by blast

lemmas rounded_rect_run [simp] = neutral_run [OF rounded_rect_neutral]

lemma draw_glyphs_neutral: "draw_glyphs D e c g a b = Some cs \<Longrightarrow> neutral cs"
  by (auto simp: draw_glyphs_def Let_def neutral_def)

lemma draw_text_neutral:
  assumes "draw_text D e = Some cs"
  shows "neutral cs"
proof -
  let ?y = "re_style e" and ?g = "box_of D (re_bounds e)"
  obtain glyphs bg grp op where "neutral glyphs" "neutral bg"
    "cs = [] \<or> cs = (if grp then [PushGroup] else []) @ bg @ glyphs @
       (if grp then [PopGroupToSource, PaintWithAlpha op] else [])"
  proof (cases "parse_hex_color (oy_fill_color ?y) = None \<and>
      \<not> (parse_hex_color (oy_text_color ?y) \<noteq> None \<and> re_text e \<noteq> [])")
    case True
    then show ?thesis using that [of "[]" "[]"] assms by (simp add: draw_text_def Let_def)
  next
    case False
    let ?grp = "do_less D (do_of_float D (oy_opacity ?y)) (do_sub D (do_of D 1) (kEps D)) \<or>
      parse_hex_color (oy_fill_color ?y) \<noteq> None"
    let ?bg = "case parse_hex_color (oy_fill_color ?y) of None \<Rightarrow> []
      | Some c \<Rightarrow> if positive D (bg_width ?g) \<and> positive D (bg_height ?g)
          then rounded_rect_path D ?g (do_of_float D (oy_corner_radius ?y)) @ [source_rgb D c, Fill]
          else []"
    have bg: "neutral ?bg" by (auto simp: neutral_def split: option.split)
    obtain glyphs where G: "(if parse_hex_color (oy_text_color ?y) \<noteq> None \<and> re_text e \<noteq> []
        then draw_glyphs D e (the (parse_hex_color (oy_text_color ?y))) ?g
               (do_of_float D (oy_opacity ?y)) ?grp else Some []) = Some glyphs"
      and cs: "cs = (if ?grp then [PushGroup] else []) @ ?bg @ glyphs @
        (if ?grp then [PopGroupToSource, PaintWithAlpha (do_of_float D (oy_opacity ?y))] else [])"
      using assms False unfolding draw_text_def Let_def by (auto simp only: if_False map_option_eq_Some)
    have "neutral glyphs" using G draw_glyphs_neutral by (auto split: if_splits)
    then show ?thesis using that [OF _ bg] cs by blast
  qed
  then show ?thesis by (auto simp: neutral_def)
qed

lemma draw_element_neutral:
  assumes "draw_element D e = Some cs"
  shows "neutral cs"
  using assms draw_text_neutral [of D e cs]
  by (auto simp: draw_element_def Let_def neutral_def [of cs] dest: neutral_run split: overlay_shape.splits option.splits if_splits)

lemma draw_elements_split:
  assumes "draw_elements D es = Some cs"
  shows "neutral cs \<and>
    (\<forall>i < length es. \<exists>pre calls post. cs = pre @ calls @ post \<and>
       draw_elements D (take i es) = Some pre \<and> draw_element D (es ! i) = Some calls \<and> neutral pre)"
  using assms
proof (induction es arbitrary: cs)
  case (Cons e es)
  then obtain c rest where D: "draw_element D e = Some c" "draw_elements D es = Some rest" "cs = c @ rest"
    by (auto split: option.splits)
  note c = draw_element_neutral [OF D(1)] and IH = Cons.IH [OF D(2)]
  have "\<exists>pre calls post. cs = pre @ calls @ post \<and> draw_elements D (take i (e # es)) = Some pre \<and>
      draw_element D ((e # es) ! i) = Some calls \<and> neutral pre" if "i < length (e # es)" for i
  proof (cases i)
    case 0
    then show ?thesis using D by (auto intro!: exI [of _ "[]"])
  next
    case (Suc j)
    have "j < length es" using Suc that by simp
    then obtain pre calls post where "rest = pre @ calls @ post" "draw_elements D (take j es) = Some pre"
      "draw_element D (es ! j) = Some calls" "neutral pre"
      using IH by blast
    then show ?thesis using Suc D c by (auto intro!: exI [of _ "c @ pre"] neutral_append)
  qed
  then show ?case using c IH D(3) by (simp add: neutral_append)
qed simp

section \<open>The conversion loops\<close>

text \<open>The channels red, green, blue and alpha of the surface pixel at offset \<^verbatim>\<open>i\<close>, unmultiplied.\<close>

definition straight :: "u8 list \<Rightarrow> nat \<Rightarrow> nat \<Rightarrow> u8" where
  "straight src i ch =
     (if ch < 3 then unpremul (src ! (i + 3)) (src ! (i + (2 - ch))) else src ! (i + 3))"

lemma four_channels: "ch < (4 :: nat) \<longleftrightarrow> ch = 0 \<or> ch = 1 \<or> ch = 2 \<or> ch = 3"
  by auto

lemma convert_cols_spec:
  assumes "in_row + (col + n) * 4 \<le> length src" "out_row + (col + n) * 4 \<le> length px"
  shows "\<exists>px1. convert_cols src in_row out_row col n px = Some px1 \<and> length px1 = length px \<and>
    (\<forall>c ch. col \<le> c \<longrightarrow> c < col + n \<longrightarrow> ch < 4 \<longrightarrow>
       px1 ! (out_row + c * 4 + ch) = straight src (in_row + c * 4) ch) \<and>
    (\<forall>k. k < out_row + col * 4 \<or> out_row + (col + n) * 4 \<le> k \<longrightarrow> px1 ! k = px ! k)"
  using assms
proof (induction n arbitrary: col px)
  case (Suc n)
  let ?i = "in_row + col * 4" and ?o = "out_row + col * 4"
  let ?a = "src ! (?i + 3)"
  let ?px = "px[?o := unpremul ?a (src ! (?i + 2)), ?o + 1 := unpremul ?a (src ! (?i + 1)),
    ?o + 2 := unpremul ?a (src ! ?i), ?o + 3 := ?a]"
  have step: "convert_cols src in_row out_row col (Suc n) px = convert_cols src in_row out_row (Suc col) n ?px"
    using Suc.prems by (simp add: kBytesPerPixel_def Let_def)
  have here: "?px ! (?o + ch) = straight src ?i ch" if "ch < 4" for ch
    using that Suc.prems by (auto simp: four_channels straight_def nth_list_update)
  have there: "?px ! k = px ! k" if "k < ?o \<or> ?o + 4 \<le> k" for k
    using that by (auto simp: nth_list_update)
  have "in_row + (Suc col + n) * 4 \<le> length src" "out_row + (Suc col + n) * 4 \<le> length ?px"
    using Suc.prems by simp_all
  from Suc.IH [OF this]
  obtain px1 where R: "convert_cols src in_row out_row (Suc col) n ?px = Some px1" "length px1 = length ?px"
    "\<And>c ch. \<lbrakk>Suc col \<le> c; c < Suc col + n; ch < 4\<rbrakk> \<Longrightarrow>
       px1 ! (out_row + c * 4 + ch) = straight src (in_row + c * 4) ch"
    "\<And>k. k < out_row + Suc col * 4 \<or> out_row + (Suc col + n) * 4 \<le> k \<Longrightarrow> px1 ! k = ?px ! k"
    by blast
  have "px1 ! (out_row + c * 4 + ch) = straight src (in_row + c * 4) ch"
    if "col \<le> c" "c < col + Suc n" "ch < 4" for c ch
  proof (cases "c = col")
    case True
    then show ?thesis using R(4) [of "?o + ch"] here that by simp
  next
    case False
    then show ?thesis using R(3) that by simp
  qed
  moreover have "px1 ! k = px ! k" if "k < ?o \<or> out_row + (col + Suc n) * 4 \<le> k" for k
    using R(4) [of k] there [of k] that by auto
  ultimately show ?case using step R(1,2) by auto
qed simp

lemma convert_rows_spec:
  assumes "\<And>r. r < row + n \<Longrightarrow> r * cs + width * 4 \<le> length src"
    and "(row + n) * (width * 4) \<le> length px"
  shows "\<exists>px1. convert_rows src cs (width * 4) width row n px = Some px1 \<and> length px1 = length px \<and>
    (\<forall>x y ch. row \<le> y \<longrightarrow> y < row + n \<longrightarrow> x < width \<longrightarrow> ch < 4 \<longrightarrow>
       px1 ! (y * (width * 4) + x * 4 + ch) = straight src (y * cs + x * 4) ch) \<and>
    (\<forall>k. k < row * (width * 4) \<longrightarrow> px1 ! k = px ! k)"
  using assms
proof (induction n arbitrary: row px)
  case (Suc n)
  let ?st = "width * 4"
  have fit: "row * cs + width * 4 \<le> length src" "row * ?st + (0 + width) * 4 \<le> length px"
    using Suc.prems(1) [of row] Suc.prems(2) by (simp_all add: algebra_simps)
  obtain px1 where C: "convert_cols src (row * cs) (row * ?st) 0 width px = Some px1"
    "length px1 = length px"
    "\<And>c ch. \<lbrakk>c < width; ch < 4\<rbrakk> \<Longrightarrow> px1 ! (row * ?st + c * 4 + ch) = straight src (row * cs + c * 4) ch"
    "\<And>k. k < row * ?st \<Longrightarrow> px1 ! k = px ! k"
    using convert_cols_spec [of "row * cs" 0 width src "row * ?st" px] fit by auto
  have "\<And>r. r < Suc row + n \<Longrightarrow> r * cs + width * 4 \<le> length src" "(Suc row + n) * ?st \<le> length px1"
    using Suc.prems C(2) by simp_all
  from Suc.IH [OF this]
  obtain px2 where R: "convert_rows src cs ?st width (Suc row) n px1 = Some px2" "length px2 = length px1"
    "\<And>x y ch. \<lbrakk>Suc row \<le> y; y < Suc row + n; x < width; ch < 4\<rbrakk> \<Longrightarrow>
       px2 ! (y * ?st + x * 4 + ch) = straight src (y * cs + x * 4) ch"
    "\<And>k. k < Suc row * ?st \<Longrightarrow> px2 ! k = px1 ! k"
    by blast
  have "px2 ! (y * ?st + x * 4 + ch) = straight src (y * cs + x * 4) ch"
    if "row \<le> y" "y < row + Suc n" "x < width" "ch < 4" for x y ch
  proof (cases "y = row")
    case True
    have "row * ?st + x * 4 + ch < Suc row * ?st" using that(3,4) by simp
    then show ?thesis using R(4) C(3) [OF that(3,4)] True by simp
  next
    case False
    then show ?thesis using R(3) that by simp
  qed
  moreover have "px2 ! k = px ! k" if "k < row * ?st" for k
    using R(4) [of k] C(4) [of k] that by simp
  ultimately show ?case using C R by auto
qed simp

section \<open>Colours against a printer\<close>

definition hex_digit :: "nat \<Rightarrow> char" where
  "hex_digit n = char_of (if n < 10 then 48 + n else 87 + n)"

definition print_hex :: "rgb_bytes \<Rightarrow> string" where
  "print_hex c =
     [hex_digit (rb_red c div 16), hex_digit (rb_red c mod 16), hex_digit (rb_green c div 16),
      hex_digit (rb_green c mod 16), hex_digit (rb_blue c div 16), hex_digit (rb_blue c mod 16)]"

definition lower_char :: "char \<Rightarrow> char" where
  "lower_char c =
     (let k = of_char c :: nat in if 65 \<le> k \<and> k \<le> 90 then char_of (k + 32) else c)"

definition strip_hash :: "string \<Rightarrow> string" where
  "strip_hash s = (case s of c # cs \<Rightarrow> if c = CHR ''#'' then cs else s | [] \<Rightarrow> s)"

lemma of_char_eq: "c = d \<longleftrightarrow> (of_char c :: nat) = of_char d"
  by simp

lemma hex_nibble_digit: "hex_nibble c = Some n \<longleftrightarrow> n < 16 \<and> lower_char c = hex_digit n"
proof -
  have b: "(of_char c :: nat) < 256" by simp
  have l: "(of_char (lower_char c) :: nat) =
      (if 65 \<le> (of_char c :: nat) \<and> (of_char c :: nat) \<le> 90 then of_char c + 32 else of_char c)"
    using b by (auto simp: lower_char_def Let_def)
  have d: "(of_char (hex_digit n) :: nat) = (if n < 10 then 48 + n else 87 + n)" if "n < 16"
    using that by (auto simp: hex_digit_def)
  show ?thesis
    unfolding of_char_eq [of "lower_char c"] using l d b
    by (auto simp: hex_nibble_def Let_def split: if_splits)
qed

lemma hex_byte_digits:
  "(case (hex_nibble x, hex_nibble y) of (Some h, Some l) \<Rightarrow> Some (16 * h + l) | _ \<Rightarrow> None) = Some n \<longleftrightarrow>
   n < 256 \<and> lower_char x = hex_digit (n div 16) \<and> lower_char y = hex_digit (n mod 16)"
proof
  assume "n < 256 \<and> lower_char x = hex_digit (n div 16) \<and> lower_char y = hex_digit (n mod 16)"
  then have "hex_nibble x = Some (n div 16)" "hex_nibble y = Some (n mod 16)"
    using less_mult_imp_div_less [of n 16 16] by (simp_all add: hex_nibble_digit)
  then show "(case (hex_nibble x, hex_nibble y) of (Some h, Some l) \<Rightarrow> Some (16 * h + l) | _ \<Rightarrow> None) = Some n"
    by simp
qed (auto simp: hex_nibble_digit split: option.splits)

lemma six_chars: "length ds = 6 \<longleftrightarrow> (\<exists>a b c d e f. ds = [a, b, c, d, e, f])"
  by (auto simp: numeral_eq_Suc length_Suc_conv)

lemma parse_hex_color_spec:
  "parse_hex_color s = Some c \<longleftrightarrow>
     rb_red c < 256 \<and> rb_green c < 256 \<and> rb_blue c < 256 \<and> map lower_char (strip_hash s) = print_hex c"
proof (cases "length (strip_hash s) = 6")
  case False
  have "length (map lower_char (strip_hash s)) \<noteq> length (print_hex c)"
    using False by (simp add: print_hex_def)
  then have "map lower_char (strip_hash s) \<noteq> print_hex c" by metis
  then show ?thesis
    using False by (simp add: parse_hex_color_def strip_hash_def [symmetric] kHexDigits_def Let_def)
next
  case True
  then obtain r1 r2 g1 g2 b1 b2 where D: "strip_hash s = [r1, r2, g1, g2, b1, b2]"
    by (auto simp: six_chars)
  let ?hb = "\<lambda>x y. case (hex_nibble x, hex_nibble y) of (Some h, Some l) \<Rightarrow> Some (16 * h + l) | _ \<Rightarrow> None"
  have parse: "parse_hex_color s = (case (?hb r1 r2, ?hb g1 g2, ?hb b1 b2) of
      (Some r, Some g, Some b) \<Rightarrow> Some \<lparr>rb_red = r, rb_green = g, rb_blue = b\<rparr> | _ \<Rightarrow> None)"
    using D by (simp add: parse_hex_color_def strip_hash_def [symmetric] kHexDigits_def hex_byte_def Let_def)
  have three: "(case (p, q, t) of (Some r, Some g, Some b) \<Rightarrow> Some \<lparr>rb_red = r, rb_green = g, rb_blue = b\<rparr>
      | _ \<Rightarrow> None) = Some c \<longleftrightarrow> p = Some (rb_red c) \<and> q = Some (rb_green c) \<and> t = Some (rb_blue c)"
    for p q t :: "nat option"
    by (cases c; auto split: option.split)
  show ?thesis unfolding parse three hex_byte_digits D by (auto simp: print_hex_def)
qed

section \<open>The finished image\<close>

lemma rendered_image_spec:
  assumes "draw_elements D (rsc_elements sc) = Some calls"
    and "surface (sint w) (sint h) (canvas_mapping D sc w h @ calls) = Some (cs, src)"
    and "0 < w" "0 < h" "unat w * 4 < 2 ^ 32" "unat w * 4 \<le> cs" "length src = cs * unat h"
  shows "\<exists>img. render D surface sc w h = Some img \<and> ri_width img = w \<and> ri_height img = h \<and>
    valid_overlay img \<and>
    (\<forall>x < unat w. \<forall>y < unat h. read_rgba img x y =
       Some (straight src (y * cs + x * 4) 0, straight src (y * cs + x * 4) 1,
             straight src (y * cs + x * 4) 2, straight src (y * cs + x * 4) 3))"
proof -
  have st: "unat (w * 4) = unat w * 4"
    using assms(5) by (simp add: unat_mult_lem [THEN iffD1])
  let ?zeros = "replicate (unat w * 4 * unat h) (0 :: u8)"
  have pos: "0 < unat w" "0 < unat h" using assms(3,4) by (simp_all add: unat_gt_0 word_gt_0)
  have "r * cs + unat w * 4 \<le> length src" if "r < 0 + unat h" for r
  proof -
    have "r * cs + cs \<le> unat h * cs" using that mult_le_mono1 [of "Suc r" "unat h" cs] by simp
    then show ?thesis using assms(6,7) by (simp add: mult.commute)
  qed
  moreover have "(0 + unat h) * (unat w * 4) \<le> length ?zeros" by (simp add: mult.commute)
  ultimately obtain px where C: "convert_rows src cs (unat w * 4) (unat w) 0 (unat h) ?zeros = Some px"
    "length px = length ?zeros"
    "\<And>x y ch. \<lbrakk>y < unat h; x < unat w; ch < 4\<rbrakk> \<Longrightarrow>
       px ! (y * (unat w * 4) + x * 4 + ch) = straight src (y * cs + x * 4) ch"
    using convert_rows_spec [of 0 "unat h" cs "unat w" src ?zeros] by auto
  let ?img = "\<lparr>ri_width = w, ri_height = h, ri_stride = w * 4, ri_pixels = px\<rparr>"
  have "render D surface sc w h = Some ?img"
    using assms(1-4) C(1) st by (auto simp: render_def Let_def)
  moreover have "px \<noteq> []" using C(2) pos by auto
  then have "valid_overlay ?img"
    using assms(3,4) C(2) st by (simp add: valid_overlay_def)
  moreover have "read_rgba ?img x y = Some (straight src (y * cs + x * 4) 0,
      straight src (y * cs + x * 4) 1, straight src (y * cs + x * 4) 2, straight src (y * cs + x * 4) 3)"
    if "x < unat w" "y < unat h" for x y
  proof -
    let ?off = "y * (unat w * 4) + x * 4"
    have "y * (unat w * 4) + unat w * 4 \<le> unat h * (unat w * 4)"
      using that(2) mult_le_mono1 [of "Suc y" "unat h" "unat w * 4"] by simp
    then have "?off + 3 < length px" using that(1) C(2) by (simp add: mult.commute mult.left_commute)
    then show ?thesis
      using C(3) [OF that(2,1), of 0] C(3) [OF that(2,1), of 1] C(3) [OF that(2,1), of 2]
        C(3) [OF that(2,1), of 3] st
      by (simp add: read_rgba_def kRgbaBytesPerPixel_def Let_def)
  qed
  ultimately show ?thesis by auto
qed

section \<open>Properties\<close>

text \<open>C29: The renderer's image is exact and always acceptable.  When drawing has no undefined
  conversion and Cairo has a surface of the requested size, the result has that size, every
  pixel holds the unmultiplied red, green and blue of the surface pixel at its place and its
  alpha, and the image passes all checks of the compositor.\<close>

theorem rendered_image:
  assumes "draw_elements D (rsc_elements sc) = Some calls"
    and "surface (sint w) (sint h) (canvas_mapping D sc w h @ calls) = Some (cs, src)"
    and "0 < w" "0 < h" "unat w * 4 < 2 ^ 32" "unat w * 4 \<le> cs" "length src = cs * unat h"
  shows "\<exists>img. render D surface sc w h = Some img \<and> ri_width img = w \<and> ri_height img = h \<and>
    valid_overlay img \<and>
    (\<forall>x < unat w. \<forall>y < unat h. read_rgba img x y =
       Some (straight src (y * cs + x * 4) 0, straight src (y * cs + x * 4) 1,
             straight src (y * cs + x * 4) 2, straight src (y * cs + x * 4) 3))"
  using assms by (rule rendered_image_spec)

lemma nearest_int:
  fixes p v a :: nat
  assumes "2 * p \<le> 2 * (v * 255) + a" "2 * (v * 255) \<le> 2 * p + a"
  shows "2 * \<bar>int p - 255 * int v\<bar> \<le> int a"
proof -
  have "2 * int p \<le> 2 * (int v * 255) + int a" "2 * (int v * 255) \<le> 2 * int p + int a"
    using assms by linarith+
  then show ?thesis by (simp add: abs_if)
qed

lemma unpremul_quotient:
  assumes "0 < a" "v \<le> a"
  shows "unat (unpremul a v) = (unat v * 255 + unat a div 2) div unat a"
proof -
  let ?q = "(unat v * 255 + unat a div 2) div unat a"
  have a: "0 < unat a" and va: "unat v \<le> unat a"
    using assms by (simp_all add: word_le_nat_alt unat_gt_0 word_gt_0)
  have "unat v * 255 + unat a div 2 < 256 * unat a" using a va by linarith
  then have q: "?q < 256" by (simp add: div_less_iff_less_mult [OF a])
  then have "min 255 ?q = ?q" by (intro min_absorb2) linarith
  then have "unpremul a v = of_nat ?q" using assms(1)
    unfolding unpremul_def kChannelMax_def kRoundHalf_def by simp
  then show ?thesis using q by (simp add: unat_word_of_nat)
qed

text \<open>Unmultiplying rounds to the nearest: for a premultiplied channel, which is at most its
  alpha, the result times alpha is within half an alpha of 255 times the channel; opaque pixels
  keep their colour and transparent ones become black.\<close>

theorem unpremul_nearest:
  "(0 < a \<and> v \<le> a \<longrightarrow>
      2 * \<bar>int (unat (unpremul a v)) * int (unat a) - 255 * int (unat v)\<bar> \<le> int (unat a)) \<and>
   unpremul 255 v = v \<and> unpremul 0 v = 0"
proof -
  have nearest: "2 * \<bar>int (unat (unpremul a v)) * int (unat a) - 255 * int (unat v)\<bar> \<le> int (unat a)"
    if "0 < a" "v \<le> a"
  proof -
    let ?n = "unat v * 255 + unat a div 2"
    have a: "0 < unat a" using that(1) by (simp add: unat_gt_0 word_gt_0)
    have "?n div unat a * unat a \<le> ?n" "?n < ?n div unat a * unat a + unat a"
      using mod_less_divisor [OF a, of ?n] div_mult_mod_eq [of ?n "unat a"] by linarith+
    then have "unat (unpremul a v) * unat a \<le> ?n" "?n < unat (unpremul a v) * unat a + unat a"
      unfolding unpremul_quotient [OF that] by simp_all
    then have "2 * (unat (unpremul a v) * unat a) \<le> 2 * (unat v * 255) + unat a"
      "2 * (unat v * 255) \<le> 2 * (unat (unpremul a v) * unat a) + unat a"
      by linarith+
    from nearest_int [OF this] show ?thesis by (simp only: of_nat_mult)
  qed
  have "v \<le> 255" using unsigned_less [of v, where 'a = nat] by (simp add: word_le_nat_alt)
  then have "unat (unpremul 255 v) = unat v" using unpremul_quotient [of 255 v] by simp
  then show ?thesis using nearest by (simp add: word_unat_eq_iff unpremul_def)
qed

text \<open>C32: The colour parser accepts exactly the colours a printer of two-digit hexadecimal bytes
  writes, with or without the leading hash sign and in upper or lower case, and reads the bytes
  that were printed.\<close>

theorem hex_colors_exact:
  "parse_hex_color s = Some c \<longleftrightarrow>
     rb_red c < 256 \<and> rb_green c < 256 \<and> rb_blue c < 256 \<and> map lower_char (strip_hash s) = print_hex c"
  by (rule parse_hex_color_spec)

text \<open>C30: Every element is drawn under exactly the letterbox mapping of the canvas: whatever the
  elements before it did with clips, transformations, saves and groups has been undone when its
  own calls begin, and all levels are closed, each by the call that belongs to it, when the scene
  is done.\<close>

theorem elements_isolated:
  assumes "draw_elements D (rsc_elements sc) = Some calls"
  shows "run_calls (canvas_mapping D sc w h @ calls) ([], []) = Some (rev (canvas_mapping D sc w h), []) \<and>
    (\<forall>i < length (rsc_elements sc). \<exists>pre own post. calls = pre @ own @ post \<and>
       draw_elements D (take i (rsc_elements sc)) = Some pre \<and>
       draw_element D (rsc_elements sc ! i) = Some own \<and>
       run_calls (canvas_mapping D sc w h @ pre) ([], []) = Some (rev (canvas_mapping D sc w h), []))"
proof -
  have map: "run_calls (canvas_mapping D sc w h) ([], []) = Some (rev (canvas_mapping D sc w h), [])"
    by (simp add: canvas_mapping_def Let_def)
  show ?thesis
    using draw_elements_split [OF assms] map by (fastforce simp: neutral_run)
qed

text \<open>The width of a text box comes from the app unchecked and is multiplied by 1024 and converted
  to int: where that conversion is out of range, rendering is undefined.\<close>

lemma wide_text_undefined:
  assumes "rsc_elements sc = [e]" "re_shape e = ShapeText" "re_text e \<noteq> []"
    and "parse_hex_color (oy_text_color (re_style e)) \<noteq> None"
    and "positive D (bg_width (box_of D (re_bounds e)))"
    and "do_to_int D (do_mul D (bg_width (box_of D (re_bounds e))) (do_of D PANGO_SCALE)) = None"
    and "w \<noteq> 0" "h \<noteq> 0"
  shows "render D surface sc w h = None"
  using assms
  by (auto simp: render_def draw_element_def draw_text_def draw_glyphs_def text_layout_of_def Let_def)

section \<open>A small scene\<close>

text \<open>Exact arithmetic on rationals, and a surface that is one pixel of half transparent red.\<close>

fun fl_value :: "fl \<Rightarrow> rat" where
  "fl_value (Fin q) = q"
| "fl_value _ = 0"

definition rat_ops :: "rat draw_ops" where
  "rat_ops =
     \<lparr>do_float_sub = (\<lambda>a b. Fin (fl_value a - fl_value b)), do_of_float = fl_value, do_of = of_nat,
      do_pi = 22 / 7, do_neg = uminus, do_add = (+), do_sub = (-), do_mul = (*), do_div = (/),
      do_less = (<), do_leq = (\<le>), do_to_int = (\<lambda>q. fl_to_int (Fin q))\<rparr>"

definition red_style :: overlay_style where
  "red_style =
     \<lparr>oy_fill_color = ''#fF0000'', oy_text_color = ''ffffff'', oy_opacity = Fin (1 / 2),
      oy_corner_radius = Fin 0, oy_font_family = [], oy_font_size = Fin 12,
      oy_text_align = AlignCenter, oy_font_weight = WeightBold, oy_static_text = []\<rparr>"

definition unit_box :: overlay_rect where
  "unit_box = \<lparr>or_x1 = Fin 0, or_y1 = Fin 0, or_x2 = Fin 1, or_y2 = Fin 1, or_z = 0\<rparr>"

definition red_scene :: render_scene where
  "red_scene =
     \<lparr>rsc_canvas_width = 1, rsc_canvas_height = 1,
      rsc_elements =
        [\<lparr>re_shape = ShapeCircle, re_bounds = unit_box, re_style = red_style, re_text = []\<rparr>,
         \<lparr>re_shape = ShapeText, re_bounds = unit_box, re_style = red_style, re_text = ''1''\<rparr>]\<rparr>"

definition red_surface :: "rat surface" where
  "red_surface w h calls = (if w = 1 \<and> h = 1 then Some (4, [0, 0, 128, 128]) else None)"

lemma red_hex: "parse_hex_color ''#fF0000'' = Some \<lparr>rb_red = 255, rb_green = 0, rb_blue = 0\<rparr>"
  "parse_hex_color ''ffffff'' = Some \<lparr>rb_red = 255, rb_green = 255, rb_blue = 255\<rparr>"
  by code_simp+

lemma red_scene_drawn: "\<exists>calls. draw_elements rat_ops (rsc_elements red_scene) = Some calls"
  by (simp add: red_scene_def draw_element_def draw_text_def draw_glyphs_def text_layout_of_def
    red_style_def unit_box_def red_hex rat_ops_def box_of_def positive_def PANGO_SCALE_def Let_def)

lemma red_pixel:
  "straight [0, 0, 128, 128] 0 0 = 255" "straight [0, 0, 128, 128] 0 (Suc 0) = 0"
  "straight [0, 0, 128, 128] 0 2 = 0" "straight [0, 0, 128, 128] 0 3 = 128"
  by (simp_all add: straight_def unpremul_def kChannelMax_def kRoundHalf_def)

theorem rendered_image_witness:
  "\<exists>img. render rat_ops red_surface red_scene 1 1 = Some img \<and> read_rgba img 0 0 = Some (255, 0, 0, 128)"
proof -
  obtain calls where C: "draw_elements rat_ops (rsc_elements red_scene) = Some calls"
    using red_scene_drawn by blast
  have S: "red_surface (sint (1 :: u32)) (sint (1 :: u32)) (canvas_mapping rat_ops red_scene 1 1 @ calls) =
      Some (4, [0, 0, 128, 128])"
    by (simp add: red_surface_def)
  show ?thesis
    using rendered_image [of rat_ops red_scene calls red_surface 1 1, OF C S]
    by (auto simp: red_pixel)
qed

theorem elements_isolated_witness:
  "\<exists>calls. draw_elements rat_ops (rsc_elements red_scene) = Some calls \<and>
     run_calls (canvas_mapping rat_ops red_scene 1280 720 @ calls) ([], []) =
       Some (rev (canvas_mapping rat_ops red_scene 1280 720), [])"
proof -
  obtain calls where C: "draw_elements rat_ops (rsc_elements red_scene) = Some calls"
    using red_scene_drawn by blast
  then show ?thesis using elements_isolated [OF C] by blast
qed

theorem unpremul_nearest_witness:
  "2 * \<bar>int (unat (unpremul 3 2)) * int (unat (3 :: u8)) - 255 * int (unat (2 :: u8))\<bar> \<le> 3"
  using unpremul_nearest [of 3 2] by simp

end
