(* ===== verification/OverlayFlow.thy ===== *)
theory OverlayFlow
  imports Lifecycle PipelineFlow Renderer
begin

text \<open>
  The way of the overlay through the device: what the controller needs from a renderer, the size
  of the image that is waiting for the pipeline after any history of the device, and the frame
  the consumer makes with it.
\<close>

section \<open>The renderer as the controller uses it\<close>

text \<open>An image of a size: four bytes a pixel, rows without padding.\<close>

definition image_of_size :: "u32 \<Rightarrow> u32 \<Rightarrow> rgba_image \<Rightarrow> bool" where
  "image_of_size w h img \<longleftrightarrow>
     ri_width img = w \<and> ri_height img = h \<and> ri_stride img = w * 4 \<and>
     length (ri_pixels img) = unat (w * 4) * unat h"

text \<open>The image waiting in the sink of a controller, when there is one, has the controller's size.\<close>

definition sink_sized :: "output_size \<Rightarrow> overlay_controller \<Rightarrow> bool" where
  "sink_sized sz c \<longleftrightarrow>
     oc_out_size c = sz \<and>
     (case oc_sink c of None \<Rightarrow> True | Some img \<Rightarrow> image_of_size (osz_width sz) (osz_height sz) img)"

lemma sink_sized_updates [simp]:
  "sink_sized sz (controller_set_layout l c) = sink_sized sz c"
  "sink_sized sz (controller_set_binding_data d c) = sink_sized sz c"
  "sink_sized sz (snd (controller_activate_banner i ps dur now c)) = sink_sized sz c"
  "sink_sized sz (overlay_controller_new sz)"
  by (simp_all add: sink_sized_def controller_set_layout_def controller_set_binding_data_def
    controller_activate_banner_def overlay_controller_new_def split: prod.split)

locale overlay_renderer =
  fixes render :: renderer
  assumes sized: "render sc w h = Some img \<Longrightarrow> image_of_size w h img"
begin

lemma refresh_sized:
  "\<lbrakk>controller_refresh F render now c = Some (b, c1); sink_sized sz c\<rbrakk> \<Longrightarrow> sink_sized sz c1"
  by (auto simp: controller_refresh_def sink_sized_def Let_def caching_push_frame_def
    split: prod.splits option.splits if_splits dest: sized)

lemma sync_sized:
  "\<lbrakk>sync_overlay F render now s c = Some (b, c1); sink_sized sz c\<rbrakk> \<Longrightarrow> sink_sized sz c1"
  by (auto simp: sync_overlay_def dest: refresh_sized)

lemma after_update_sized:
  "\<lbrakk>after_update F render now s c = (r, s1, c1); sink_sized sz c\<rbrakk> \<Longrightarrow> sink_sized sz c1"
  by (auto simp: after_update_def dest: sync_sized split: option.splits prod.splits)

lemma overlay_handle_sized:
  "\<lbrakk>overlay_handle F render now pb (s, c) = (r, s1, c1); sink_sized sz c\<rbrakk> \<Longrightarrow> sink_sized sz c1"
  by (auto simp: overlay_handle_def Let_def dest: sync_sized
    split: prod.splits bool.splits option.splits)

lemma match_handle_sized:
  "\<lbrakk>match_handle F render now p (s, c) = (r, s1, c1); sink_sized sz c\<rbrakk> \<Longrightarrow> sink_sized sz c1"
  by (auto simp: match_handle_def handle_score_update_def handle_match_control_def
    handle_banner_event_def Let_def dest: after_update_sized refresh_sized
    split: command_payload.splits prod.splits bool.splits option.splits if_splits)

lemma tick_sized:
  "\<lbrakk>tick_clock F render now (s, c) = Some (s1, c1); sink_sized sz c\<rbrakk> \<Longrightarrow> sink_sized sz c1"
  by (auto simp: tick_clock_def dest: sync_sized split: prod.splits bool.splits option.splits)

end

section \<open>The renderer of the device\<close>

lemma convert_cols_length: "convert_cols src i j col n px = Some px1 \<Longrightarrow> length px1 = length px"
  by (induction src i j col n px rule: convert_cols.induct) (auto simp: Let_def split: if_splits)

lemma convert_rows_length: "convert_rows src cs st w row n px = Some px1 \<Longrightarrow> length px1 = length px"
  by (induction src cs st w row n px rule: convert_rows.induct)
     (auto dest: convert_cols_length split: option.splits)

interpretation cairo: overlay_renderer "render D surface" for D surface
  by unfold_locales
     (auto simp: render_def image_of_size_def Let_def dest: convert_rows_length
       split: if_splits option.splits prod.splits)

text \<open>An event whose environment draws with that renderer, on whatever surface.\<close>

fun draws_with :: "'d draw_ops \<Rightarrow> device_event \<Rightarrow> bool" where
  "draws_with D (Command e _) \<longleftrightarrow> (\<exists>surface. en_render e = render D surface)"
| "draws_with D (ClockTick e) \<longleftrightarrow> (\<exists>surface. en_render e = render D surface)"
| "draws_with D _ \<longleftrightarrow> True"

definition overlay_kept :: "device_handler \<Rightarrow> bool" where
  "overlay_kept h \<longleftrightarrow> (\<forall>e p w. dv_overlay (snd (ha_handle h e p w)) = dv_overlay w)"

lemma handlers_overlay_kept:
  "overlay_kept (device_handler cfg)" "overlay_kept session_handler" "overlay_kept wifi_handler"
  "overlay_kept match_state_handler" "overlay_kept (recording_handler cfg)"
  "overlay_kept streaming_handler" "overlay_kept download_handler"
  "overlay_kept raw_capture_handler" "overlay_kept thumbnail_handler"
  by (auto simp: overlay_kept_def device_handlers split: prod.split command_payload.split)

lemma handlers_overlay_sized:
  assumes "en_render e = render D surface" "sink_sized sz (dv_overlay w)"
  shows "sink_sized sz (dv_overlay (snd (ha_handle overlay_handler e p w)))"
    "sink_sized sz (dv_overlay (snd (ha_handle match_handler e p w)))"
  using assms
  by (auto simp: overlay_handler_def match_handler_def
    dest: cairo.overlay_handle_sized cairo.match_handle_sized split: prod.split command_payload.split)

lemma dispatch_sized:
  assumes "dispatch (main_dispatcher cfg) e cmd w = (r, w1)"
    and "en_render e = render D surface" "sink_sized sz (dv_overlay w)"
  shows "sink_sized sz (dv_overlay w1)"
proof (cases "map_of (main_dispatcher cfg) (payload_case_of (cm_payload cmd))")
  case None
  then show ?thesis using assms by (auto simp: dispatch_def split: if_splits)
next
  case (Some h)
  then have "h \<in> snd ` set (main_dispatcher cfg)" by (metis map_of_SomeD imageI snd_conv)
  then have "overlay_kept h \<or> h = overlay_handler \<or> h = match_handler"
    by (auto simp: main_dispatcher_list handlers_overlay_kept)
  then have "sink_sized sz (dv_overlay (snd (ha_handle h e (cm_payload cmd) w)))"
    using assms(2,3) handlers_overlay_sized by (auto simp: overlay_kept_def)
  then show ?thesis
    using assms(1,3) Some by (auto simp: dispatch_def split: if_splits prod.splits handle_result.splits)
qed

lemma device_step_sized:
  assumes "device_step cfg ev w = Some w1" "draws_with D ev" "sink_sized sz (dv_overlay w)"
  shows "sink_sized sz (dv_overlay w1)"
  using assms
proof (cases ev)
  case (Command e cmd)
  then show ?thesis using assms by (auto dest: dispatch_sized split: prod.splits option.splits)
next
  case (ClockTick e)
  then show ?thesis using assms by (auto dest: cairo.tick_sized split: prod.splits option.splits)
qed (auto simp: device_disconnect_eq device_final_frame_def)

lemma run_events_sized:
  "\<lbrakk>run_events cfg evs w = Some w1; \<forall>ev \<in> set evs. draws_with D ev; sink_sized sz (dv_overlay w)\<rbrakk> \<Longrightarrow>
   sink_sized sz (dv_overlay w1)"
  by (induction evs arbitrary: w) (auto dest: device_step_sized split: option.splits)


lemma device_overlay_sized:
  assumes "run_events cfg evs (device_new cfg) = Some w" "\<forall>ev \<in> set evs. draws_with D ev"
  shows "sink_sized \<lparr>osz_width = kOverlayWidth, osz_height = kOverlayHeight\<rparr> (dv_overlay w)"
  using assms(1,2) by (rule run_events_sized) (simp add: device_new_def)

section \<open>The overlay in the picture\<close>

lemma sized_overlay_valid:
  assumes "image_of_size 1280 720 img"
  shows "valid_overlay img"
proof -
  have "length (ri_pixels img) = 3686400" using assms by (simp add: image_of_size_def)
  then have "ri_pixels img \<noteq> []" by auto
  then show ?thesis using assms by (simp add: image_of_size_def valid_overlay_def)
qed

text \<open>The frame of the postprocessor, as compositing needs it.\<close>

lemma picture_bytes: "mat_shape x 720 1280 3 \<Longrightarrow> length (concat (mt_data x)) = 2764800"
  using length_concat_same [of "mt_data x" 3840] by (simp add: mat_shape_def)

lemma owned_frame_readable:
  assumes "mat_shape x 720 1280 3"
  shows "fr_geometry (owned_frame b x fmt i t) = \<lparr>fg_width = 1280, fg_height = 720\<rparr>"
    "fr_planes (owned_frame b x fmt i t) = [\<lparr>fp_stride = 3840, fp_data = Some (b, 0), fp_size = 2764800\<rparr>]"
    "read_bytes (m(b \<mapsto> concat (mt_data x))) (Some (b, 0)) 2764800 = Some (concat (mt_data x))"
  using picture_bytes [OF assms] assms
  by (simp_all add: read_bytes_def owned_frame_def mat_shape_def)

text \<open>A picture of the postprocessor with an image of its size over it.\<close>

lemma blended_over:
  assumes "mat_shape x 720 1280 3" "image_of_size 1280 720 img" "double_units X"
  shows "\<exists>out f. composite_overlay X b2 (owned_frame b1 x BGR8 i t) img (m(b1 \<mapsto> concat (mt_data x))) =
      Some (Some f, m(b1 \<mapsto> concat (mt_data x), b2 \<mapsto> out)) \<and>
    fr_id f = i \<and> fr_captured_at f = t \<and> fr_format f = BGR8 \<and>
    fr_geometry f = \<lparr>fg_width = 1280, fg_height = 720\<rparr> \<and>
    fr_planes f = [\<lparr>fp_stride = 3840, fp_data = Some (b2, 0), fp_size = 2764800\<rparr>] \<and>
    length out = 2764800 \<and>
    (\<forall>x' < 1280. \<forall>y < 720. \<exists>rgba. read_rgba img x' y = Some rgba \<and>
       (\<forall>ch < 3. out ! byte_at 3840 x' y ch =
          blend_channel (concat (mt_data x) ! byte_at 3840 x' y ch) (bgr_channel rgba ch) (alpha_of rgba)))"
proof -
  let ?p = "\<lparr>fp_stride = 3840, fp_data = Some (b1, 0), fp_size = 2764800\<rparr>"
  let ?f = "owned_frame b1 x BGR8 i t"
  note own = owned_frame_readable(1,2) [OF assms(1), of b1 BGR8 i t] owned_frame_readable(3) [OF assms(1), of m b1]
  note len = picture_bytes [OF assms(1)]
  have dims: "ri_width img = 1280" "ri_height img = 720" using assms(2) by (simp_all add: image_of_size_def)
  have form: "fr_format ?f = BGR8" "fr_id ?f = i" "fr_captured_at ?f = t"
    by (simp_all add: owned_frame_def)
  have fits: "read_bytes (m(b1 \<mapsto> concat (mt_data x))) (fp_data ?p)
      (unat (fp_stride ?p) * unat (fg_height (fr_geometry ?f))) = Some (concat (mt_data x))"
    "unat (fg_width (fr_geometry ?f)) * 3 \<le> unat (fp_stride ?p)"
    "ri_width img = fg_width (fr_geometry ?f)" "ri_height img = fg_height (fr_geometry ?f)"
    using own(3) by (simp_all add: own(1) dims del: fun_upd_apply)
  from composite_unscaled [OF form(1) own(2) fits(1,2) sized_overlay_valid [OF assms(2)] fits(3,4) assms(3), of b2]
  show ?thesis by (simp add: form own(1) dims len del: fun_upd_apply)
qed


lemma overlaid_picture:
  assumes "mat_shape x 720 1280 3" "double_units X"
    and "case overlay of None \<Rightarrow> True | Some img \<Rightarrow> image_of_size 1280 720 img"
  shows "\<exists>f m2. finished X b2 overlay (picture_of b1 x chosen) (m(b1 \<mapsto> concat (mt_data x))) = Some (f, m2) \<and>
    fr_id f = fr_id (fb_source chosen) \<and> fr_captured_at f = fr_captured_at (fb_source chosen) \<and>
    fr_format f = BGR8 \<and> fr_geometry f = \<lparr>fg_width = 1280, fg_height = 720\<rparr> \<and>
    (\<exists>b out. fr_planes f = [\<lparr>fp_stride = 3840, fp_data = Some (b, 0), fp_size = 2764800\<rparr>] \<and>
       m2 b = Some out \<and> length out = 2764800 \<and>
       (case overlay of
          None \<Rightarrow> out = concat (mt_data x)
        | Some img \<Rightarrow>
            \<forall>i < 1280. \<forall>j < 720. \<exists>rgba. read_rgba img i j = Some rgba \<and>
              (\<forall>ch < 3. out ! byte_at 3840 i j ch =
                 blend_channel (concat (mt_data x) ! byte_at 3840 i j ch) (bgr_channel rgba ch)
                   (alpha_of rgba))))"
proof (cases overlay)
  case None
  then show ?thesis
    using owned_frame_readable(1,2) [OF assms(1)] picture_bytes [OF assms(1)]
    by (simp add: picture_of_def finished_def) (simp add: owned_frame_def)
next
  case (Some img)
  then have "image_of_size 1280 720 img" using assms(3) by simp
  from blended_over [OF assms(1) this assms(2), of b2 b1 "fr_id (fb_source chosen)"
      "fr_captured_at (fb_source chosen)" m, folded picture_of_def]
  obtain out f where f: "composite_overlay X b2 (picture_of b1 x chosen) img (m(b1 \<mapsto> concat (mt_data x))) =
      Some (Some f, m(b1 \<mapsto> concat (mt_data x), b2 \<mapsto> out))"
    and same: "fr_id f = fr_id (fb_source chosen)" "fr_captured_at f = fr_captured_at (fb_source chosen)"
    "fr_format f = BGR8" "fr_geometry f = \<lparr>fg_width = 1280, fg_height = 720\<rparr>"
    "fr_planes f = [\<lparr>fp_stride = 3840, fp_data = Some (b2, 0), fp_size = 2764800\<rparr>]"
    "length out = 2764800"
    and px: "\<forall>x' < 1280. \<forall>y < 720. \<exists>rgba. read_rgba img x' y = Some rgba \<and>
       (\<forall>ch < 3. out ! byte_at 3840 x' y ch =
          blend_channel (concat (mt_data x) ! byte_at 3840 x' y ch) (bgr_channel rgba ch) (alpha_of rgba))"
    by (elim exE conjE)
  show ?thesis
    by (rule exI [of _ f], rule exI [of _ "m(b1 \<mapsto> concat (mt_data x), b2 \<mapsto> out)"], intro conjI exI [of _ b2] exI [of _ out])
       (use f same px Some in \<open>simp_all add: finished_def\<close>)
qed

section \<open>A device with an overlay\<close>

definition blank_surface :: "rat surface" where
  "blank_surface w h calls = Some (nat w * 4, replicate (nat w * 4 * nat h) 0)"

lemma blank_rendered:
  assumes "rsc_elements sc = []"
  shows "\<exists>img. render rat_ops blank_surface sc 1280 720 = Some img"
proof -
  have "draw_elements rat_ops (rsc_elements sc) = Some []" by (simp add: assms)
  from rendered_image_spec [OF this, of blank_surface 1280 720] show ?thesis
    by (auto simp: blank_surface_def)
qed

definition drawing_env :: environment where
  "drawing_env = test_env\<lparr>en_render := render rat_ops blank_surface\<rparr>"

lemma drawing_env_calm: "calm_env drawing_env"
  using test_env_calm blank_rendered by (auto simp: calm_env_def drawing_env_def)

lemma setup_draws: "\<forall>ev \<in> set (setup_events drawing_env). draws_with rat_ops ev"
  by (auto simp: setup_events_def send_in_def drawing_env_def)

section \<open>Properties\<close>

text \<open>C27: Whatever happens to the device, the overlay waiting for the pipeline, when there is one, is
  an image of the size the postprocessor produces, 1280 by 720, with rows of four bytes a pixel
  and exactly as many bytes as that takes; so the compositor never refuses it.\<close>

theorem overlay_image_typed:
  assumes "run_events cfg evs (device_new cfg) = Some w" "\<forall>ev \<in> set evs. draws_with D ev"
  shows "case oc_sink (dv_overlay w) of
     None \<Rightarrow> True
   | Some img \<Rightarrow>
       ri_width img = qc_width default_postprocess_config \<and>
       ri_height img = qc_height default_postprocess_config \<and>
       ri_stride img = 5120 \<and> length (ri_pixels img) = 3686400 \<and> valid_overlay img"
  using device_overlay_sized [OF assms]
  by (auto simp: sink_sized_def kOverlayWidth_def kOverlayHeight_def default_postprocess_config_def
    image_of_size_def sized_overlay_valid split: option.splits)

theorem overlay_image_typed_witness:
  "\<exists>w img. run_events test_config (setup_events drawing_env) (device_new test_config) = Some w \<and>
     oc_sink (dv_overlay w) = Some img \<and> ri_width img = 1280 \<and> ri_height img = 720 \<and>
     length (ri_pixels img) = 3686400"
proof -
  obtain w img where w: "run_events test_config (setup_events drawing_env) (device_new test_config) = Some w"
    "oc_sink (dv_overlay w) = Some img" by (rule setup_run [OF drawing_env_calm])
  show ?thesis
    using overlay_image_typed [OF w(1) setup_draws] w by (auto simp: default_postprocess_config_def)
qed

text \<open>C8: The overlay is in every picture.  After any history of the device, the turn of the consumer
  that decides on a usable frame of camera 0 takes the picture x: the one the postprocessor makes
  of that frame with the crop StaticDecision chooses, OpenCV's BGR image of the frame's rows,
  whole, scaled to 1280 by 720.  It shows one frame with the number and time of the camera's:
  without an overlay x itself, else x with every pixel blended with the overlay's pixel at the
  same place; the compositor neither skips the overlay nor scales or moves it.\<close>

theorem overlay_in_every_picture:
  fixes s :: "('f camera_rig, unit, 'k option list, 'r) orchestrator"
  assumes "run_events cfg evs (device_new cfg) = Some w" "\<forall>ev \<in> set evs. draws_with D ev"
    and "cv_documented cv" "alloc_ok cv (fb_source chosen)" "nv12_ok (pl_memory s) (fb_source chosen) ys uvs"
    and "pl_consumer s = CDecide (Some chosen # others)" "double_units X"
  shows "\<exists>x choice f m2. picture_from cv (fb_source chosen) ys uvs x \<and> mat_shape x 720 1280 3 \<and>
    static_decide (Some chosen # others) = Some choice \<and>
    postprocess cv default_postprocess_config b1 (pl_memory s) (fb_source chosen) (ch_crop choice) =
      Got (picture_of b1 x chosen, (pl_memory s)(b1 \<mapsto> concat (mt_data x))) \<and>
    consumer_turn (device_ports cv X push raw) timed_out b1 b2
        (caching_latest_overlay (oc_sink (dv_overlay w))) s =
      ([Shown 0 chosen f], s\<lparr>pl_memory := m2, pl_consumer := CStore f\<rparr>) \<and>
    fr_id f = fr_id (fb_source chosen) \<and> fr_captured_at f = fr_captured_at (fb_source chosen) \<and>
    fr_format f = BGR8 \<and> fr_geometry f = \<lparr>fg_width = 1280, fg_height = 720\<rparr> \<and>
    (\<exists>b out. fr_planes f = [\<lparr>fp_stride = 3840, fp_data = Some (b, 0), fp_size = 2764800\<rparr>] \<and>
       m2 b = Some out \<and> length out = 2764800 \<and>
       (case oc_sink (dv_overlay w) of
          None \<Rightarrow> out = concat (mt_data x)
        | Some img \<Rightarrow>
            \<forall>i < 1280. \<forall>j < 720. \<exists>rgba. read_rgba img i j = Some rgba \<and>
              (\<forall>ch < 3. out ! byte_at 3840 i j ch =
                 blend_channel (concat (mt_data x) ! byte_at 3840 i j ch) (bgr_channel rgba ch)
                   (alpha_of rgba))))"
proof -
  obtain x choice where x: "picture_from cv (fb_source chosen) ys uvs x" "mat_shape x 720 1280 3"
    "static_decide (Some chosen # others) = Some choice"
    "postprocess cv default_postprocess_config b1 (pl_memory s) (fb_source chosen) (ch_crop choice) =
       Got (picture_of b1 x chosen, (pl_memory s)(b1 \<mapsto> concat (mt_data x)))"
    and turn: "\<And>overlay. consumer_turn (device_ports cv X push raw) timed_out b1 b2 overlay s =
       (case finished X b2 overlay (picture_of b1 x chosen) ((pl_memory s)(b1 \<mapsto> concat (mt_data x))) of
          None \<Rightarrow> ([], s\<lparr>pl_crashed := True\<rparr>)
        | Some (f, m2) \<Rightarrow> ([Shown 0 chosen f], s\<lparr>pl_memory := m2, pl_consumer := CStore f\<rparr>))"
    by (rule chosen_turn [OF assms(3-6), where X = X and ?b1.0 = b1 and ?b2.0 = b2 and push = push
        and raw = raw and timed_out = timed_out]) (rule that; assumption)
  have "case oc_sink (dv_overlay w) of None \<Rightarrow> True | Some img \<Rightarrow> image_of_size 1280 720 img"
    using device_overlay_sized [OF assms(1,2)]
    by (simp add: sink_sized_def kOverlayWidth_def kOverlayHeight_def split: option.splits)
  from overlaid_picture [OF x(2) assms(7) this, of b2 b1 chosen "pl_memory s"] obtain f m2 where
    f: "finished X b2 (oc_sink (dv_overlay w)) (picture_of b1 x chosen)
      ((pl_memory s)(b1 \<mapsto> concat (mt_data x))) = Some (f, m2)"
    and rest: "fr_id f = fr_id (fb_source chosen)" "fr_captured_at f = fr_captured_at (fb_source chosen)"
    "fr_format f = BGR8" "fr_geometry f = \<lparr>fg_width = 1280, fg_height = 720\<rparr>"
    "\<exists>b out. fr_planes f = [\<lparr>fp_stride = 3840, fp_data = Some (b, 0), fp_size = 2764800\<rparr>] \<and>
       m2 b = Some out \<and> length out = 2764800 \<and>
       (case oc_sink (dv_overlay w) of
          None \<Rightarrow> out = concat (mt_data x)
        | Some img \<Rightarrow>
            \<forall>i < 1280. \<forall>j < 720. \<exists>rgba. read_rgba img i j = Some rgba \<and>
              (\<forall>ch < 3. out ! byte_at 3840 i j ch =
                 blend_channel (concat (mt_data x) ! byte_at 3840 i j ch) (bgr_channel rgba ch)
                   (alpha_of rgba)))"
    by blast
  show ?thesis
    by (rule exI [of _ x], rule exI [of _ choice], rule exI [of _ f], rule exI [of _ m2])
      (use x rest turn [of "oc_sink (dv_overlay w)"] f in
        \<open>simp add: caching_latest_overlay_def del: fun_upd_apply\<close>)
qed

lemma top_u32: "\<lbrakk>4294967295 \<le> n; n < 4294967296\<rbrakk> \<Longrightarrow> of_nat n = (4294967295 :: u32)"
proof -
  assume "4294967295 \<le> n" "n < 4294967296"
  then have "n = 4294967295" by linarith
  then show ?thesis by simp
qed

lemma exact_units: "double_units exact_ops"
  by (auto simp: double_units_def exact_ops_def min_def top_u32)

text \<open>A consumer about to decide on the small frame of camera 0.\<close>

definition small_bundle :: frame_bundle where
  "small_bundle = \<lparr>fb_source = small_nv12, fb_ai = small_nv12\<rparr>"

definition deciding :: "(unit camera_rig, unit, frame list option list, unit) orchestrator" where
  "deciding =
     (orchestrator_new [] () [] () small_memory)\<lparr>pl_consumer := CDecide [Some small_bundle, None]\<rparr>"

theorem overlay_in_every_picture_witness:
  "\<exists>w img x f m2 b out.
     run_events test_config (setup_events drawing_env) (device_new test_config) = Some w \<and>
     picture_from small_cv small_nv12 [[10, 20], [30, 40]] [[50, 60]] x \<and>
     oc_sink (dv_overlay w) = Some img \<and>
     consumer_turn (device_ports small_cv exact_ops (#) (\<lambda>_ _ r. r)) False 1 2
         (caching_latest_overlay (oc_sink (dv_overlay w))) deciding =
       ([Shown 0 small_bundle f], deciding\<lparr>pl_memory := m2, pl_consumer := CStore f\<rparr>) \<and>
     m2 b = Some out \<and>
     (\<exists>rgba. read_rgba img 1279 719 = Some rgba \<and>
        out ! byte_at 3840 1279 719 0 =
          blend_channel (concat (mt_data x) ! byte_at 3840 1279 719 0) (bgr_channel rgba 0) (alpha_of rgba))"
proof -
  obtain w img where w: "run_events test_config (setup_events drawing_env) (device_new test_config) = Some w"
    "oc_sink (dv_overlay w) = Some img" by (rule setup_run [OF drawing_env_calm])
  have d: "alloc_ok small_cv (fb_source small_bundle)" "pl_consumer deciding = CDecide (Some small_bundle # [None])"
    "nv12_ok (pl_memory deciding) (fb_source small_bundle) [[10, 20], [30, 40]] [[50, 60]]"
    using small_nv12_ok by (simp_all add: small_bundle_def deciding_def orchestrator_new_def alloc_ok_def small_cv_def)
  from overlay_in_every_picture [OF w(1) setup_draws small_cv_documented d(1,3,2) exact_units,
      where push = "(#)" and raw = "\<lambda>_ _ r. r" and timed_out = False and ?b1.0 = 1 and ?b2.0 = 2]
  obtain x f m2 b out where r:
    "picture_from small_cv (fb_source small_bundle) [[10, 20], [30, 40]] [[50, 60]] x"
    "consumer_turn (device_ports small_cv exact_ops (#) (\<lambda>_ _ r. r)) False 1 2
         (caching_latest_overlay (Some img)) deciding =
       ([Shown 0 small_bundle f], deciding\<lparr>pl_memory := m2, pl_consumer := CStore f\<rparr>)"
    "m2 b = Some out" "\<forall>i < 1280. \<forall>j < 720. \<exists>rgba. read_rgba img i j = Some rgba \<and>
       (\<forall>ch < 3. out ! byte_at 3840 i j ch =
          blend_channel (concat (mt_data x) ! byte_at 3840 i j ch) (bgr_channel rgba ch) (alpha_of rgba))"
    unfolding w(2) option.case by (elim exE conjE) (rule that; assumption)
  from r(4) [rule_format, of 1279 719] obtain rgba where px: "read_rgba img 1279 719 = Some rgba"
    "out ! byte_at 3840 1279 719 0 =
       blend_channel (concat (mt_data x) ! byte_at 3840 1279 719 0) (bgr_channel rgba 0) (alpha_of rgba)"
    by auto
  show ?thesis
    using w r(1) [unfolded small_bundle_def] r(2) [folded w(2)] r(3) px by (simp del: split_paired_Ex) blast
qed

end
