(* ===== verification/StillImages.thy ===== *)
theory StillImages
  imports Processing
begin

text \<open>
  Still images: \<^verbatim>\<open>adapters/storage/opencv/opencv-jpeg-encoder.cpp\<close> and
  \<^verbatim>\<open>opencv-thumbnail-writer.cpp\<close>.  As in theory Processing the calls on OpenCV are an argument,
  each of which may throw; an exception and undefined behaviour are Crash, std::nullopt and the
  empty matrix are Nothing.
\<close>

record still_ops =
  sl_view :: "memory \<Rightarrow> int \<Rightarrow> int \<Rightarrow> nat \<Rightarrow> address \<Rightarrow> nat \<Rightarrow> mat option"
  sl_clone :: "mat \<Rightarrow> mat option"
  sl_rgb_to_bgr :: "mat \<Rightarrow> mat option"
  sl_bgra_to_bgr :: "mat \<Rightarrow> mat option"
  sl_rgba_to_bgr :: "mat \<Rightarrow> mat option"
  sl_gray_to_bgr :: "mat \<Rightarrow> mat option"
  sl_resize_area :: "int \<Rightarrow> int \<Rightarrow> mat \<Rightarrow> mat option"
  sl_imencode :: "mat \<Rightarrow> int option \<Rightarrow> (bool \<times> u8 list) option"
  sl_imwrite :: "string \<Rightarrow> mat \<Rightarrow> bool option"

section \<open>JPEG encoder\<close>

fun to_bgr :: "still_ops \<Rightarrow> memory \<Rightarrow> frame \<Rightarrow> mat outcome" where
  "to_bgr sl m f =
     (case fr_planes f of
        [] \<Rightarrow> Nothing
      | plane # _ \<Rightarrow>
          let width = sint (fg_width (fr_geometry f)); height = sint (fg_height (fr_geometry f));
              view = (\<lambda>ch. sl_view sl m height width ch (fp_data plane) (unat (fp_stride plane)))
          in if fp_data plane = None \<or> width \<le> 0 \<or> height \<le> 0 then Nothing
             else (case fr_format f of
                     BGR8 \<Rightarrow> or_crash (view 3) (\<lambda>x. or_crash (sl_clone sl x) Got)
                   | RGB8 \<Rightarrow> or_crash (view 3) (\<lambda>x. or_crash (sl_rgb_to_bgr sl x) Got)
                   | BGRA8 \<Rightarrow> or_crash (view 4) (\<lambda>x. or_crash (sl_bgra_to_bgr sl x) Got)
                   | RGBA8 \<Rightarrow> or_crash (view 4) (\<lambda>x. or_crash (sl_rgba_to_bgr sl x) Got)
                   | GRAY8 \<Rightarrow> or_crash (view 1) (\<lambda>x. or_crash (sl_gray_to_bgr sl x) Got)
                   | _ \<Rightarrow> Nothing))"

definition kMaxQuality :: u32 where "kMaxQuality = 100"

definition mat_empty :: "mat \<Rightarrow> bool" where
  "mat_empty x \<longleftrightarrow> mt_rows x = 0 \<or> mt_cols x = 0"

definition fit_size :: "still_ops \<Rightarrow> u32 \<Rightarrow> u32 \<Rightarrow> mat \<Rightarrow> mat outcome" where
  "fit_size sl width height bgr =
     (if 0 < width \<and> 0 < height \<and> (sint width \<noteq> mt_cols bgr \<or> sint height \<noteq> mt_rows bgr)
      then or_crash (sl_resize_area sl (sint width) (sint height) bgr) Got
      else Got bgr)"

definition jpeg_params :: "u32 \<Rightarrow> int option" where
  "jpeg_params quality = (if 0 < quality then Some (sint (min quality kMaxQuality)) else None)"

definition jpeg_encode ::
  "still_ops \<Rightarrow> memory \<Rightarrow> frame \<Rightarrow> u32 \<Rightarrow> u32 \<Rightarrow> u32 \<Rightarrow> u8 list outcome" where
  "jpeg_encode sl m f width height quality =
     on_value (to_bgr sl m f) (\<lambda>bgr.
       if mat_empty bgr then Nothing
       else
         on_value (fit_size sl width height bgr) (\<lambda>x.
           or_crash (sl_imencode sl x (jpeg_params quality)) (\<lambda>(ok, out).
             if \<not> ok \<or> out = [] then Nothing else Got out)))"

section \<open>Thumbnail writer\<close>

fun thumbnail_image :: "still_ops \<Rightarrow> memory \<Rightarrow> frame \<Rightarrow> frame_plane \<Rightarrow> mat outcome" where
  "thumbnail_image sl m f plane =
     (let width = sint (fg_width (fr_geometry f)); height = sint (fg_height (fr_geometry f));
          view = (\<lambda>ch. sl_view sl m height width ch (fp_data plane) (unat (fp_stride plane)))
      in case fr_format f of
           BGR8 \<Rightarrow> or_crash (view 3) Got
         | RGB8 \<Rightarrow> or_crash (view 3) (\<lambda>x. or_crash (sl_rgb_to_bgr sl x) Got)
         | BGRA8 \<Rightarrow> or_crash (view 4) (\<lambda>x. or_crash (sl_bgra_to_bgr sl x) Got)
         | RGBA8 \<Rightarrow> or_crash (view 4) (\<lambda>x. or_crash (sl_rgba_to_bgr sl x) Got)
         | GRAY8 \<Rightarrow> or_crash (view 1) (\<lambda>x. or_crash (sl_gray_to_bgr sl x) Got)
         | _ \<Rightarrow> Nothing)"

text \<open>The answer and the directories asked for, whose creation may fail unnoticed.\<close>

fun write_thumbnail ::
  "still_ops \<Rightarrow> memory \<Rightarrow> frame \<Rightarrow> string \<Rightarrow> (bool \<times> string list) outcome" where
  "write_thumbnail sl m f path =
     (case fr_planes f of
        [] \<Rightarrow> Got (False, [])
      | plane # _ \<Rightarrow>
          if fp_data plane = None \<or> sint (fg_width (fr_geometry f)) \<le> 0 \<or>
             sint (fg_height (fr_geometry f)) \<le> 0
          then Got (False, [])
          else (case thumbnail_image sl m f plane of
                  Crash \<Rightarrow> Crash
                | Nothing \<Rightarrow> Got (False, [])
                | Got bgr \<Rightarrow>
                    let dirs = (if parent_path path = [] then [] else [parent_path path])
                    in or_crash (sl_imwrite sl path bgr) (\<lambda>ok. Got (ok, dirs))))"

section \<open>What OpenCV documents\<close>

text \<open>A view needs the bytes of its rows; conversions keep the size and give three channels,
  resizing gives the requested size.  Nothing is assumed of imencode, which may throw, fail (JPEG has
  a size limit) or give no bytes.\<close>

definition still_documented :: "still_ops \<Rightarrow> bool" where
  "still_documented sl \<longleftrightarrow>
     (\<forall>m rows cols ch a step xss. 0 < rows \<and> 0 < cols \<and> 0 < ch \<and> nat cols * ch \<le> step \<and>
        read_rows m a step (nat cols * ch) (nat rows) = Some xss \<longrightarrow>
        sl_view sl m rows cols ch a step =
          Some \<lparr>mt_rows = rows, mt_cols = cols, mt_channels = ch, mt_data = xss\<rparr>) \<and>
     (\<forall>x r c. 0 < r \<and> 0 < c \<and> mat_shape x r c 3 \<longrightarrow>
        sl_clone sl x = Some x \<and> reshapes (sl_rgb_to_bgr sl) x r c 3) \<and>
     (\<forall>x r c. 0 < r \<and> 0 < c \<and> mat_shape x r c 4 \<longrightarrow>
        reshapes (sl_bgra_to_bgr sl) x r c 3 \<and> reshapes (sl_rgba_to_bgr sl) x r c 3) \<and>
     (\<forall>x r c. 0 < r \<and> 0 < c \<and> mat_shape x r c 1 \<longrightarrow> reshapes (sl_gray_to_bgr sl) x r c 3) \<and>
     (\<forall>x r c w h. 0 < r \<and> 0 < c \<and> 0 < w \<and> 0 < h \<and> mat_shape x r c 3 \<longrightarrow>
        reshapes (sl_resize_area sl w h) x h w 3)"

fun still_channels :: "pixel_format \<Rightarrow> nat" where
  "still_channels BGR8 = 3" | "still_channels RGB8 = 3" | "still_channels BGRA8 = 4"
| "still_channels RGBA8 = 4" | "still_channels GRAY8 = 1" | "still_channels _ = 0"

text \<open>A frame with pixels of a supported format that are all readable.\<close>

definition still_ok :: "memory \<Rightarrow> frame \<Rightarrow> bool" where
  "still_ok m f \<longleftrightarrow>
     (case fr_planes f of
        [] \<Rightarrow> False
      | p # _ \<Rightarrow>
          let w = unat (fg_width (fr_geometry f)); h = unat (fg_height (fr_geometry f));
              ch = still_channels (fr_format f)
          in 0 < ch \<and> 0 < w \<and> w < 2 ^ 31 \<and> 0 < h \<and> h < 2 ^ 31 \<and> w * ch \<le> unat (fp_stride p) \<and>
             fp_data p \<noteq> None \<and> read_rows m (fp_data p) (unat (fp_stride p)) (w * ch) h \<noteq> None)"

lemma sl_view_rows:
  "\<lbrakk>still_documented sl; 0 < rows; 0 < cols; 0 < ch; nat cols * ch \<le> step;
    read_rows m a step (nat cols * ch) (nat rows) = Some xss\<rbrakk> \<Longrightarrow>
   sl_view sl m rows cols ch a step =
     Some \<lparr>mt_rows = rows, mt_cols = cols, mt_channels = ch, mt_data = xss\<rparr>"
  by (simp add: still_documented_def)

lemma sl_converts:
  assumes "still_documented sl"
  shows "\<And>x r c. \<lbrakk>0 < r; 0 < c; mat_shape x r c 3\<rbrakk> \<Longrightarrow> sl_clone sl x = Some x"
    "\<And>x r c. \<lbrakk>0 < r; 0 < c; mat_shape x r c 3\<rbrakk> \<Longrightarrow> reshapes (sl_rgb_to_bgr sl) x r c 3"
    "\<And>x r c. \<lbrakk>0 < r; 0 < c; mat_shape x r c 4\<rbrakk> \<Longrightarrow> reshapes (sl_bgra_to_bgr sl) x r c 3"
    "\<And>x r c. \<lbrakk>0 < r; 0 < c; mat_shape x r c 4\<rbrakk> \<Longrightarrow> reshapes (sl_rgba_to_bgr sl) x r c 3"
    "\<And>x r c. \<lbrakk>0 < r; 0 < c; mat_shape x r c 1\<rbrakk> \<Longrightarrow> reshapes (sl_gray_to_bgr sl) x r c 3"
    "\<And>x r c w h. \<lbrakk>0 < r; 0 < c; 0 < w; 0 < h; mat_shape x r c 3\<rbrakk> \<Longrightarrow>
      reshapes (sl_resize_area sl w h) x h w 3"
  using assms unfolding still_documented_def by meson+

lemma still_ok_facts:
  assumes "still_ok m f"
  obtains p ps xss where "fr_planes f = p # ps" "fp_data p \<noteq> None"
    "sint (fg_width (fr_geometry f)) = int (unat (fg_width (fr_geometry f)))"
    "sint (fg_height (fr_geometry f)) = int (unat (fg_height (fr_geometry f)))"
    "0 < sint (fg_width (fr_geometry f))" "0 < sint (fg_height (fr_geometry f))"
    "0 < still_channels (fr_format f)"
    "unat (fg_width (fr_geometry f)) * still_channels (fr_format f) \<le> unat (fp_stride p)"
    "read_rows m (fp_data p) (unat (fp_stride p))
       (unat (fg_width (fr_geometry f)) * still_channels (fr_format f))
       (unat (fg_height (fr_geometry f))) = Some xss"
proof -
  let ?w = "fg_width (fr_geometry f)" and ?h = "fg_height (fr_geometry f)"
  obtain p ps where P: "fr_planes f = p # ps" using assms by (auto simp: still_ok_def split: list.splits)
  have k: "0 < unat ?w" "unat ?w < 2 ^ 31" "0 < unat ?h" "unat ?h < 2 ^ 31"
    and r: "0 < still_channels (fr_format f)" "unat ?w * still_channels (fr_format f) \<le> unat (fp_stride p)"
      "fp_data p \<noteq> None" "read_rows m (fp_data p) (unat (fp_stride p))
        (unat ?w * still_channels (fr_format f)) (unat ?h) \<noteq> None"
    using assms P unfolding still_ok_def Let_def by simp_all
  have "0 < int (unat ?w)" "0 < int (unat ?h)" using k(1,3) by (simp_all only: of_nat_0_less_iff)
  then show ?thesis
    using that [OF P r(3) sint_small [OF k(2)] sint_small [OF k(4)] _ _ r(1,2)] r(4)
      sint_small [OF k(2)] sint_small [OF k(4)] by (metis option.exhaust)
qed

lemma still_view:
  assumes "still_documented sl" "still_ok m f" "fr_planes f = p # ps"
  shows "\<exists>x. sl_view sl m (sint (fg_height (fr_geometry f))) (sint (fg_width (fr_geometry f)))
      (still_channels (fr_format f)) (fp_data p) (unat (fp_stride p)) = Some x \<and>
    mat_shape x (sint (fg_height (fr_geometry f))) (sint (fg_width (fr_geometry f)))
      (still_channels (fr_format f))"
  using assms(2)
proof (rule still_ok_facts)
  let ?w = "fg_width (fr_geometry f)" and ?h = "fg_height (fr_geometry f)"
    and ?ch = "still_channels (fr_format f)"
  fix p' ps' xss
  assume k: "fr_planes f = p' # ps'" "sint ?w = int (unat ?w)" "sint ?h = int (unat ?h)"
    "0 < sint ?w" "0 < sint ?h" "0 < ?ch" "unat ?w * ?ch \<le> unat (fp_stride p')"
    "read_rows m (fp_data p') (unat (fp_stride p')) (unat ?w * ?ch) (unat ?h) = Some xss"
  have n: "nat (sint ?w) = unat ?w" "nat (sint ?h) = unat ?h" using k(2,3) by (metis nat_int)+
  have p: "p' = p" using k(1) assms(3) by simp
  have "sl_view sl m (sint ?h) (sint ?w) ?ch (fp_data p) (unat (fp_stride p)) =
      Some \<lparr>mt_rows = sint ?h, mt_cols = sint ?w, mt_channels = ?ch, mt_data = xss\<rparr>"
    using k(7,8) unfolding p by (intro sl_view_rows [OF assms(1) k(5,4,6)]) (simp_all only: n)
  then show ?thesis
    using read_rows_shape [OF k(8)] by (simp add: mat_shape_def n)
qed

lemma to_bgr_shape:
  assumes "still_documented sl" "still_ok m f"
  shows "\<exists>x. to_bgr sl m f = Got x \<and>
    mat_shape x (sint (fg_height (fr_geometry f))) (sint (fg_width (fr_geometry f))) 3"
  using assms(2)
proof (rule still_ok_facts)
  let ?w = "fg_width (fr_geometry f)" and ?h = "fg_height (fr_geometry f)"
  fix p ps xss
  assume k: "fr_planes f = p # ps" "fp_data p \<noteq> None" "0 < sint ?w" "0 < sint ?h"
    "0 < still_channels (fr_format f)"
  obtain v where V: "sl_view sl m (sint ?h) (sint ?w) (still_channels (fr_format f)) (fp_data p)
      (unat (fp_stride p)) = Some v"
    and S: "mat_shape v (sint ?h) (sint ?w) (still_channels (fr_format f))"
    using still_view [OF assms k(1)] by blast
  note c = sl_converts [OF assms(1) k(4,3)]
  have "to_bgr sl m f = (case fr_format f of
      BGR8 \<Rightarrow> or_crash (Some v) (\<lambda>x. or_crash (sl_clone sl x) Got)
    | RGB8 \<Rightarrow> or_crash (Some v) (\<lambda>x. or_crash (sl_rgb_to_bgr sl x) Got)
    | BGRA8 \<Rightarrow> or_crash (Some v) (\<lambda>x. or_crash (sl_bgra_to_bgr sl x) Got)
    | RGBA8 \<Rightarrow> or_crash (Some v) (\<lambda>x. or_crash (sl_rgba_to_bgr sl x) Got)
    | GRAY8 \<Rightarrow> or_crash (Some v) (\<lambda>x. or_crash (sl_gray_to_bgr sl x) Got)
    | _ \<Rightarrow> Nothing)"
    using k V by (cases "fr_format f") (auto simp: Let_def)
  then show ?thesis
    using c(1-5) [of v] S k(5) unfolding reshapes_def by (cases "fr_format f") auto
qed

lemma fit_size_shape:
  assumes "still_documented sl" "mat_shape bgr h w 3" "0 < h" "0 < w"
    and "unat width < 2 ^ 31" "unat height < 2 ^ 31"
  shows "\<exists>x r c. fit_size sl width height bgr = Got x \<and> mat_shape x r c 3 \<and> 0 < r \<and> 0 < c \<and>
    (r, c) = (if 0 < width \<and> 0 < height then (sint height, sint width) else (h, w))"
proof (cases "0 < width \<and> 0 < height")
  case True
  then have "0 < unat width" "0 < unat height" by (simp_all add: unat_gt_0 word_gt_0)
  then have pos: "0 < sint width" "0 < sint height"
    unfolding sint_small [OF assms(5)] sint_small [OF assms(6)] by (simp_all only: of_nat_0_less_iff)
  from sl_converts(6) [OF assms(1,3,4) this assms(2)]
  obtain y where Y: "sl_resize_area sl (sint width) (sint height) bgr = Some y"
    "mat_shape y (sint height) (sint width) 3"
    unfolding reshapes_def by blast
  have "mat_shape bgr (sint height) (sint width) 3" if "sint width = mt_cols bgr" "sint height = mt_rows bgr"
    using assms(2) that unfolding mat_shape_def by metis
  then show ?thesis
    using True pos Y by (cases "sint width = mt_cols bgr \<and> sint height = mt_rows bgr")
      (auto simp: fit_size_def)
qed (use assms(2-4) in \<open>auto simp: fit_size_def\<close>)

lemma jpeg_quality:
  "jpeg_params quality = (if quality = 0 then None else Some (int (min (unat quality) 100)))"
proof (cases "quality = 0")
  case False
  have "unat (min quality kMaxQuality) = min (unat quality) 100"
    by (simp add: kMaxQuality_def min_def word_le_nat_alt)
  moreover from this have "sint (min quality kMaxQuality) = int (unat (min quality kMaxQuality))"
    by (intro sint_small) simp
  ultimately show ?thesis using False by (simp add: jpeg_params_def word_gt_0)
qed (simp add: jpeg_params_def)

text \<open>What comes of an image handed to imencode with the clamped quality.\<close>

definition encoded :: "still_ops \<Rightarrow> mat \<Rightarrow> u32 \<Rightarrow> u8 list outcome" where
  "encoded sl x quality =
     (case sl_imencode sl x (if quality = 0 then None else Some (int (min (unat quality) 100))) of
        None \<Rightarrow> Crash
      | Some (ok, jpeg) \<Rightarrow> if ok \<and> jpeg \<noteq> [] then Got jpeg else Nothing)"

text \<open>Every frame of a supported format whose pixels are readable reaches imencode: as it is, or at the
  requested size when both dimensions are given.\<close>

lemma jpeg_of_frame:
  assumes "still_documented sl" "still_ok m f" "unat width < 2 ^ 31" "unat height < 2 ^ 31"
  shows "\<exists>y x. to_bgr sl m f = Got y \<and>
    mat_shape y (sint (fg_height (fr_geometry f))) (sint (fg_width (fr_geometry f))) 3 \<and>
    fit_size sl width height y = Got x \<and>
    (if 0 < width \<and> 0 < height then mat_shape x (sint height) (sint width) 3
     else mat_shape x (sint (fg_height (fr_geometry f))) (sint (fg_width (fr_geometry f))) 3) \<and>
    jpeg_encode sl m f width height quality = encoded sl x quality"
  using assms(2)
proof (rule still_ok_facts)
  let ?w = "fg_width (fr_geometry f)" and ?h = "fg_height (fr_geometry f)"
  fix p ps xss
  assume k: "0 < sint ?w" "0 < sint ?h"
  obtain y where y: "to_bgr sl m f = Got y" "mat_shape y (sint ?h) (sint ?w) 3"
    using to_bgr_shape [OF assms(1,2)] by blast
  obtain x r c where x: "fit_size sl width height y = Got x" "mat_shape x r c 3" "0 < r" "0 < c"
    "(r, c) = (if 0 < width \<and> 0 < height then (sint height, sint width) else (sint ?h, sint ?w))"
    using fit_size_shape [OF assms(1) y(2) k(2,1) assms(3,4)] by blast
  have "\<not> mat_empty y" using y(2) k by (auto simp: mat_empty_def mat_shape_def)
  then have "jpeg_encode sl m f width height quality = encoded sl x quality"
    using y(1) x(1) jpeg_quality [of quality]
    by (cases "sl_imencode sl x (jpeg_params quality)") (auto simp: jpeg_encode_def encoded_def)
  then show ?thesis using y x by (auto split: if_splits)
qed

section \<open>A small encoder\<close>

definition grey_image :: "int \<Rightarrow> int \<Rightarrow> mat" where
  "grey_image r c =
     \<lparr>mt_rows = r, mt_cols = c, mt_channels = 3, mt_data = replicate (nat r) (replicate (nat c * 3) 7)\<rparr>"

definition small_still :: still_ops where
  "small_still =
     \<lparr>sl_view = (\<lambda>m rows cols ch a step.
        map_option (\<lambda>xss. \<lparr>mt_rows = rows, mt_cols = cols, mt_channels = ch, mt_data = xss\<rparr>)
          (read_rows m a step (nat cols * ch) (nat rows))),
      sl_clone = Some,
      sl_rgb_to_bgr = (\<lambda>x. Some (grey_image (mt_rows x) (mt_cols x))),
      sl_bgra_to_bgr = (\<lambda>x. Some (grey_image (mt_rows x) (mt_cols x))),
      sl_rgba_to_bgr = (\<lambda>x. Some (grey_image (mt_rows x) (mt_cols x))),
      sl_gray_to_bgr = (\<lambda>x. Some (grey_image (mt_rows x) (mt_cols x))),
      sl_resize_area = (\<lambda>w h x. Some (grey_image h w)),
      sl_imencode = (\<lambda>x q. Some (True, [of_int (mt_cols x), case q of None \<Rightarrow> 0 | Some n \<Rightarrow> of_int n])),
      sl_imwrite = (\<lambda>path x. Some True)\<rparr>"

lemma grey_image_shape: "mat_shape (grey_image r c) r c 3"
  by (simp add: grey_image_def mat_shape_def)

lemma small_still_documented: "still_documented small_still"
  using grey_image_shape
  by (auto simp: still_documented_def small_still_def reshapes_def mat_shape_def)

section \<open>Frames of the pipeline\<close>

text \<open>The rows of a BGR frame of 1280 by 720 pixels, as the encoder sees them.\<close>

definition bgr_picture :: "u8 list \<Rightarrow> mat" where
  "bgr_picture out =
     \<lparr>mt_rows = 720, mt_cols = 1280, mt_channels = 3,
      mt_data = map (\<lambda>r. take 3840 (drop (r * 3840) out)) [0..<720]\<rparr>"

lemma those_Some_map: "those (map (\<lambda>x. Some (f x)) xs) = Some (map f xs)"
  by (induction xs) auto

lemma bgr_frame_rows:
  assumes "m b = Some out" "length out = 2764800"
  shows "read_rows m (Some (b, 0)) 3840 3840 720 = Some (mt_data (bgr_picture out))"
proof -
  have "read_bytes m (addr_plus (Some (b, 0)) (i * 3840)) 3840 = Some (take 3840 (drop (i * 3840) out))"
    if "i \<in> set [0..<720]" for i
    using assms that by (simp add: read_bytes_def addr_plus_def)
  then have "map (\<lambda>i. read_bytes m (addr_plus (Some (b, 0)) (i * 3840)) 3840) [0..<720] =
      map (\<lambda>i. Some (take 3840 (drop (i * 3840) out))) [0..<720]"
    by (rule map_cong [OF refl])
  then show ?thesis by (simp only: read_rows_def those_Some_map bgr_picture_def mat.select_convs)
qed

lemma bgr_frame_jpeg:
  assumes "still_documented sl" "unat width < 2 ^ 31" "unat height < 2 ^ 31"
    and f: "fr_format f = BGR8" "fr_geometry f = \<lparr>fg_width = 1280, fg_height = 720\<rparr>"
      "fr_planes f = [\<lparr>fp_stride = 3840, fp_data = Some (b, 0), fp_size = 2764800\<rparr>]"
    and out: "m b = Some out" "length out = 2764800"
  shows "\<exists>x. (if 0 < width \<and> 0 < height \<and> (width, height) \<noteq> (1280, 720)
      then sl_resize_area sl (sint width) (sint height) (bgr_picture out) = Some x \<and>
        mat_shape x (sint height) (sint width) 3
      else x = bgr_picture out) \<and>
    jpeg_encode sl m f width height quality = encoded sl x quality"
proof -
  define y where "y = bgr_picture out"
  have rows: "read_rows m (Some (b, 0)) 3840 3840 720 = Some (mt_data y)"
    unfolding y_def using out by (rule bgr_frame_rows)
  have yf: "y = \<lparr>mt_rows = 720, mt_cols = 1280, mt_channels = 3, mt_data = mt_data y\<rparr>"
    by (simp add: y_def bgr_picture_def)
  have ok: "still_ok m f" using rows by (simp add: still_ok_def f)
  have "sl_view sl m 720 1280 3 (Some (b, 0)) 3840 = Some y"
    by (subst yf, rule sl_view_rows [OF assms(1)]) (simp_all add: rows)
  moreover have "mat_shape y 720 1280 3"
    using read_rows_shape [OF rows] by (subst yf) (simp add: mat_shape_def)
  then have "sl_clone sl y = Some y" by (intro sl_converts(1) [OF assms(1)]) simp_all
  ultimately have y: "to_bgr sl m f = Got y" by (simp add: f)
  obtain x where x: "fit_size sl width height y = Got x"
    "0 < width \<and> 0 < height \<longrightarrow> mat_shape x (sint height) (sint width) 3"
    "jpeg_encode sl m f width height quality = encoded sl x quality"
    using jpeg_of_frame [OF assms(1) ok assms(2,3), of quality] y by (auto split: if_splits)
  have "sint width = 1280 \<longleftrightarrow> width = 1280" "sint height = 720 \<longleftrightarrow> height = 720"
    unfolding sint_small [OF assms(2)] sint_small [OF assms(3)] by (simp_all add: word_uint_eq_iff)
  moreover have "mt_cols y = 1280" "mt_rows y = 720" by (simp_all add: y_def bgr_picture_def)
  ultimately show ?thesis
    using x unfolding y_def [symmetric]
    by (cases "sl_resize_area sl (sint width) (sint height) y") (auto simp: fit_size_def split: if_splits)
qed

end
