(* ===== verification/Snapshots.thy ===== *)
theory Snapshots
  imports OverlayFlow StillImages
begin

text \<open>
  A thumbnail of what the sinks see: the frame the consumer finishes, with or without an overlay,
  is the one GrabLatest hands to the ThumbnailHandler, and the JPEG encoder reads it out of the
  frame's own block.
\<close>

text \<open>C31: A thumbnail of every final frame.  When the consumer decides on a usable frame of camera 0,
  with no overlay or with one of the size the device renders, it finishes a frame whose bytes lie
  in one block, and after its next turn GrabLatest answers that frame.  As long as the block is kept,
  which the frame's owner does, the encoder hands imencode exactly the finished picture: the
  blended bytes with an overlay, else the postprocessor's, scaled to the requested size when
  both dimensions are given and differ from its own, with a quality of at most 100 or none; and
  the answer is what imencode makes of it: its bytes, nothing when it fails or gives none, the
  exception when it throws.\<close>

theorem snapshot_jpeg:
  fixes s :: "('f camera_rig, unit, 'k option list, 'r) orchestrator" and X :: "'x double_ops"
  assumes "cv_documented cv" "alloc_ok cv (fb_source chosen)" "nv12_ok (pl_memory s) (fb_source chosen) ys uvs"
    and "pl_consumer s = CDecide (Some chosen # others)" "double_units X"
    and "case overlay of None \<Rightarrow> True | Some img \<Rightarrow> image_of_size 1280 720 img"
    and "still_documented sl" "unat width < 2 ^ 31" "unat height < 2 ^ 31"
  shows "\<exists>x f m b out.
    consumer_turn (device_ports cv X push raw) timed_out b1 b2 overlay s =
      ([Shown 0 chosen f], s\<lparr>pl_memory := m, pl_consumer := CStore f\<rparr>) \<and>
    grab_latest (snd (consumer_turn (device_ports cv X push raw) timed_out' b3 b4 overlay'
      (s\<lparr>pl_memory := m, pl_consumer := CStore f\<rparr>))) = Some f \<and>
    picture_from cv (fb_source chosen) ys uvs x \<and> m b = Some out \<and> length out = 2764800 \<and>
    (case overlay of
       None \<Rightarrow> out = concat (mt_data x)
     | Some img \<Rightarrow>
         \<forall>i < 1280. \<forall>j < 720. \<exists>rgba. read_rgba img i j = Some rgba \<and>
           (\<forall>ch < 3. out ! byte_at 3840 i j ch =
              blend_channel (concat (mt_data x) ! byte_at 3840 i j ch) (bgr_channel rgba ch) (alpha_of rgba))) \<and>
    (\<forall>mt. mt b = m b \<longrightarrow>
       (\<exists>y. (if 0 < width \<and> 0 < height \<and> (width, height) \<noteq> (1280, 720)
             then sl_resize_area sl (sint width) (sint height) (bgr_picture out) = Some y \<and>
               mat_shape y (sint height) (sint width) 3
             else y = bgr_picture out) \<and>
          jpeg_encode sl mt f width height quality =
            (case sl_imencode sl y (if quality = 0 then None else Some (int (min (unat quality) 100))) of
               None \<Rightarrow> Crash
             | Some (ok, jpeg) \<Rightarrow> if ok \<and> jpeg \<noteq> [] then Got jpeg else Nothing)))"
proof -
  obtain x where x: "picture_from cv (fb_source chosen) ys uvs x" "mat_shape x 720 1280 3"
    and turn: "\<And>overlay. consumer_turn (device_ports cv X push raw) timed_out b1 b2 overlay s =
       (case finished X b2 overlay (picture_of b1 x chosen) ((pl_memory s)(b1 \<mapsto> concat (mt_data x))) of
          None \<Rightarrow> ([], s\<lparr>pl_crashed := True\<rparr>)
        | Some (f, m2) \<Rightarrow> ([Shown 0 chosen f], s\<lparr>pl_memory := m2, pl_consumer := CStore f\<rparr>))"
    by (rule chosen_turn [OF assms(1-4), where X = X and ?b1.0 = b1 and ?b2.0 = b2 and push = push
        and raw = raw and timed_out = timed_out]) (rule that; assumption)
  from overlaid_picture [OF x(2) assms(5,6), of b2 b1 chosen "pl_memory s"] obtain f m b out where
    f: "finished X b2 overlay (picture_of b1 x chosen) ((pl_memory s)(b1 \<mapsto> concat (mt_data x))) = Some (f, m)"
    "fr_format f = BGR8" "fr_geometry f = \<lparr>fg_width = 1280, fg_height = 720\<rparr>"
    "fr_planes f = [\<lparr>fp_stride = 3840, fp_data = Some (b, 0), fp_size = 2764800\<rparr>]"
    and out: "m b = Some out" "length out = 2764800" "case overlay of
       None \<Rightarrow> out = concat (mt_data x)
     | Some img \<Rightarrow>
         \<forall>i < 1280. \<forall>j < 720. \<exists>rgba. read_rgba img i j = Some rgba \<and>
           (\<forall>ch < 3. out ! byte_at 3840 i j ch =
              blend_channel (concat (mt_data x) ! byte_at 3840 i j ch) (bgr_channel rgba ch) (alpha_of rgba))"
    by (elim exE conjE)
  have jpeg: "\<exists>y. (if 0 < width \<and> 0 < height \<and> (width, height) \<noteq> (1280, 720)
        then sl_resize_area sl (sint width) (sint height) (bgr_picture out) = Some y \<and>
          mat_shape y (sint height) (sint width) 3
        else y = bgr_picture out) \<and>
      jpeg_encode sl mt f width height quality = encoded sl y quality" if "mt b = m b" for mt
    by (rule bgr_frame_jpeg [OF assms(7-9) f(2-4) _ out(2)]) (use that out(1) in simp)
  have "grab_latest (snd (consumer_turn (device_ports cv X push raw) timed_out' b3 b4 overlay'
      (s\<lparr>pl_memory := m, pl_consumer := CStore f\<rparr>))) = Some f"
    by (simp add: consumer_turn_def grab_latest_def)
  then show ?thesis
    by (intro exI [of _ x] exI [of _ f] exI [of _ m] exI [of _ b] exI [of _ out] conjI)
      (use turn [of overlay] f(1) x(1) out jpeg in \<open>auto simp: encoded_def simp del: fun_upd_apply\<close>)
qed

text \<open>The small frame with a blank overlay, as a thumbnail of 320 by 180 pixels.\<close>

definition blank_overlay :: rgba_image where
  "blank_overlay =
     \<lparr>ri_width = 1280, ri_height = 720, ri_stride = 5120, ri_pixels = replicate 3686400 0\<rparr>"

theorem snapshot_jpeg_witness:
  "\<exists>f m jpeg.
     consumer_turn (device_ports small_cv exact_ops (#) (\<lambda>_ _ r. r)) False 1 2 (Some blank_overlay) deciding =
       ([Shown 0 small_bundle f], deciding\<lparr>pl_memory := m, pl_consumer := CStore f\<rparr>) \<and>
     jpeg_encode small_still m f 320 180 85 = Got jpeg \<and> jpeg \<noteq> []"
proof -
  have d: "alloc_ok small_cv (fb_source small_bundle)" "pl_consumer deciding = CDecide (Some small_bundle # [None])"
    "nv12_ok (pl_memory deciding) (fb_source small_bundle) [[10, 20], [30, 40]] [[50, 60]]"
    using small_nv12_ok by (simp_all add: small_bundle_def deciding_def orchestrator_new_def alloc_ok_def small_cv_def)
  have o: "case Some blank_overlay of None \<Rightarrow> True | Some img \<Rightarrow> image_of_size 1280 720 img"
    by (simp add: image_of_size_def blank_overlay_def)
  have sizes: "unat (320 :: u32) < 2 ^ 31" "unat (180 :: u32) < 2 ^ 31" by simp_all
  from snapshot_jpeg [OF small_cv_documented d(1,3,2) exact_units o small_still_documented sizes,
      where quality = 85 and push = "(#)" and raw = "\<lambda>_ _ r. r" and timed_out = False and ?b1.0 = 1
      and ?b2.0 = 2 and timed_out' = False and ?b3.0 = 3 and ?b4.0 = 4 and overlay' = None]
  obtain f m b out where t: "consumer_turn (device_ports small_cv exact_ops (#) (\<lambda>_ _ r. r)) False 1 2 (Some blank_overlay) deciding =
       ([Shown 0 small_bundle f], deciding\<lparr>pl_memory := m, pl_consumer := CStore f\<rparr>)"
    and j: "\<forall>mt. mt b = m b \<longrightarrow>
       (\<exists>y. (if 0 < (320 :: u32) \<and> 0 < (180 :: u32) \<and> (320 :: u32, 180 :: u32) \<noteq> (1280, 720)
             then sl_resize_area small_still (sint (320 :: u32)) (sint (180 :: u32)) (bgr_picture out) = Some y \<and>
               mat_shape y (sint (180 :: u32)) (sint (320 :: u32)) 3
             else y = bgr_picture out) \<and>
          jpeg_encode small_still mt f 320 180 85 =
            (case sl_imencode small_still y (if (85 :: u32) = 0 then None else Some (int (min (unat (85 :: u32)) 100))) of
               None \<Rightarrow> Crash
             | Some (ok, jpeg) \<Rightarrow> if ok \<and> jpeg \<noteq> [] then Got jpeg else Nothing))"
    by (elim exE conjE) (rule that; assumption)
  show ?thesis using t j [THEN spec [of _ m], THEN mp, OF refl] by (auto simp: small_still_def)
qed

end
