(* ===== verification/ProcStats.thy ===== *)
theory ProcStats
  imports Control
begin

text \<open>
  The system statistics \<^verbatim>\<open>adapters/control/system/proc-system-stats.cpp\<close>.  The answers of the
  file system, of sysinfo and of the files under /proc and /sys are an argument, so is double
  precision arithmetic.
\<close>

record 'd stats_arith =
  sa_of :: "int \<Rightarrow> 'd"
  sa_div :: "'d \<Rightarrow> 'd \<Rightarrow> 'd"
  sa_mul :: "'d \<Rightarrow> 'd \<Rightarrow> 'd"
  sa_less :: "'d \<Rightarrow> 'd \<Rightarrow> bool"
  sa_to_float :: "'d \<Rightarrow> fl"

record 'd stats_os =
  so_space :: "(u64 \<times> u64) option"
  so_sysinfo :: "(u64 \<times> u64 \<times> u64 \<times> u32) option"
  so_concurrency :: u32
  so_loadavg :: "'d option"
  so_thermal_millis :: "int option"

definition kPercentMax :: int where "kPercentMax = 100"
definition kMilliDegreePerDegree :: int where "kMilliDegreePerDegree = 1000"

definition read_thermal_celsius :: "'d stats_arith \<Rightarrow> 'd stats_os \<Rightarrow> fl" where
  "read_thermal_celsius A os =
     (case so_thermal_millis os of
        None \<Rightarrow> Fin 0
      | Some milli \<Rightarrow> sa_to_float A (sa_div A (sa_of A milli) (sa_of A kMilliDegreePerDegree)))"

definition read_load_avg_first :: "'d stats_arith \<Rightarrow> 'd stats_os \<Rightarrow> 'd" where
  "read_load_avg_first A os = (case so_loadavg os of None \<Rightarrow> sa_of A 0 | Some one_min \<Rightarrow> one_min)"

text \<open>Uptime and share of memory in use; both stay zero when sysinfo fails.\<close>

definition memory_stats :: "'d stats_arith \<Rightarrow> 'd stats_os \<Rightarrow> u64 \<times> fl" where
  "memory_stats A os =
     (case so_sysinfo os of
        None \<Rightarrow> (0, Fin 0)
      | Some (uptime, totalram, freeram, unit) \<Rightarrow>
          let total = totalram * ucast unit; freer = freeram * ucast unit
          in (uptime,
              if 0 < total
              then sa_to_float A (sa_mul A
                     (sa_div A (sa_of A (uint (total - freer))) (sa_of A (uint total)))
                     (sa_of A kPercentMax))
              else Fin 0))"

definition cpu_percent :: "'d stats_arith \<Rightarrow> 'd stats_os \<Rightarrow> 'd" where
  "cpu_percent A os =
     (let cores = max 1 (so_concurrency os);
          load_pct = sa_mul A (sa_div A (read_load_avg_first A os) (sa_of A (uint cores)))
                       (sa_of A kPercentMax)
      in if sa_less A (sa_of A kPercentMax) load_pct then sa_of A kPercentMax else load_pct)"

definition proc_stats_read :: "'d stats_arith \<Rightarrow> 'd stats_os \<Rightarrow> system_stats" where
  "proc_stats_read A os =
     (let (free, total) = (case so_space os of None \<Rightarrow> (0, 0) | Some s \<Rightarrow> s);
          (uptime, ram) = memory_stats A os
      in \<lparr>sy_storage_free_bytes = free, sy_storage_total_bytes = total,
          sy_temp_celsius = read_thermal_celsius A os, sy_ram_used_pct = ram,
          sy_cpu_used_pct = sa_to_float A (cpu_percent A os), sy_uptime_seconds = uptime,
          sy_battery_level_pct = 0\<rparr>)"

text \<open>The load never shows more than 100 percent, on machines with any number of cores, and a
  telemetry of zeros is all there is when nothing can be read.\<close>

lemma cpu_percent_bounded:
  "\<not> sa_less A (sa_of A kPercentMax) (sa_of A kPercentMax) \<Longrightarrow>
   \<not> sa_less A (sa_of A kPercentMax) (cpu_percent A os)"
  by (simp add: cpu_percent_def Let_def)

lemma nothing_readable:
  assumes "so_space os = None" "so_sysinfo os = None" "so_thermal_millis os = None" "so_loadavg os = None"
    and "sa_mul A (sa_div A (sa_of A 0) (sa_of A (uint (max 1 (so_concurrency os))))) (sa_of A 100) = sa_of A 0"
    and "\<not> sa_less A (sa_of A 100) (sa_of A 0)" "sa_to_float A (sa_of A 0) = Fin 0"
  shows "proc_stats_read A os =
    \<lparr>sy_storage_free_bytes = 0, sy_storage_total_bytes = 0, sy_temp_celsius = Fin 0,
     sy_ram_used_pct = Fin 0, sy_cpu_used_pct = Fin 0, sy_uptime_seconds = 0, sy_battery_level_pct = 0\<rparr>"
  using assms
  by (simp add: proc_stats_read_def memory_stats_def read_thermal_celsius_def cpu_percent_def
    read_load_avg_first_def kPercentMax_def Let_def)

end
