(* ===== verification/Formatters.thy ===== *)
theory Formatters
  imports Config Session Streaming Download Overlay Wifi Pipeline Recording Control Buffers
begin

text \<open>
  The text the log shows for the values of the program (domain/**/models/formatter).  The fmt
  library is an argument \<^verbatim>\<open>F\<close>: a format string and its arguments to the text.  Every formatter is a
  definition that hands it the format string of the source and the fields in their order.
\<close>

section \<open>The library\<close>

text \<open>An argument: an integer, a floating point number, a string, a value whose own formatter wrote
  the given text, or \<^verbatim>\<open>fmt::join\<close> of a range.  A bool is its own kind.\<close>

datatype fmt_arg =
    FInt int
  | FBool bool
  | FFloat fl
  | FStr string
  | FObj string
  | FJoin "fmt_arg list" string

type_synonym fmt_call = "string \<Rightarrow> fmt_arg list \<Rightarrow> string"

definition fword :: "'w::len word \<Rightarrow> fmt_arg" where "fword w = FInt (uint w)"
definition fsigned :: "'w::len word \<Rightarrow> fmt_arg" where "fsigned w = FInt (sint w)"
definition fsize :: "'a list \<Rightarrow> fmt_arg" where "fsize xs = FInt (int (length xs))"

definition newline :: char where "newline = CHR 0x0A"

fun text_lines :: "string list \<Rightarrow> string" where
  "text_lines [] = []"
| "text_lines [l] = l"
| "text_lines (l # ls) = l @ newline # text_lines ls"

text \<open>What the library promises for \<^verbatim>\<open>{}\<close> fields without a format specification; None where this
  says nothing, as for floating point numbers.\<close>

definition show_int :: "int \<Rightarrow> string" where
  "show_int i = (if i < 0 then CHR ''-'' # show_nat (nat (- i)) else show_nat (nat i))"

fun join_texts :: "string \<Rightarrow> string list \<Rightarrow> string" where
  "join_texts sep [] = []"
| "join_texts sep [s] = s"
| "join_texts sep (s # ss) = s @ sep @ join_texts sep ss"

fun arg_text :: "fmt_arg \<Rightarrow> string option" where
  "arg_text (FInt i) = Some (show_int i)"
| "arg_text (FBool b) = Some (if b then ''true'' else ''false'')"
| "arg_text (FFloat x) = None"
| "arg_text (FStr s) = Some s"
| "arg_text (FObj s) = Some s"
| "arg_text (FJoin xs sep) = map_option (join_texts sep) (those (map arg_text xs))"

fun expand :: "string \<Rightarrow> fmt_arg list \<Rightarrow> string option" where
  "expand [] xs = Some []"
| "expand [c] xs = (if c = CHR ''{'' \<or> c = CHR ''}'' then None else Some [c])"
| "expand (c # d # t) xs =
     (if c = CHR ''{'' \<and> d = CHR ''{'' \<or> c = CHR ''}'' \<and> d = CHR ''}''
      then map_option (Cons c) (expand t xs)
      else if c = CHR ''{'' \<and> d = CHR ''}''
      then (case xs of
              [] \<Rightarrow> None
            | x # xs' \<Rightarrow>
                Option.bind (arg_text x) (\<lambda>s. map_option ((@) s) (expand t xs')))
      else if c = CHR ''{'' \<or> c = CHR ''}'' then None
      else map_option (Cons c) (expand (d # t) xs))"

definition fmt_documented :: "fmt_call \<Rightarrow> bool" where
  "fmt_documented F \<longleftrightarrow> (\<forall>t xs s. expand t xs = Some s \<longrightarrow> F t xs = s)"

lemma fmt_text: "fmt_documented F \<Longrightarrow> expand t xs = Some s \<Longrightarrow> F t xs = s"
  by (simp add: fmt_documented_def)

section \<open>Optional values\<close>

definition bool_opt_to_str :: "bool option \<Rightarrow> string" where
  "bool_opt_to_str v =
     (case v of None \<Rightarrow> ''null'' | Some b \<Rightarrow> if b then ''true'' else ''false'')"

definition str_opt_to_str :: "fmt_call \<Rightarrow> string option \<Rightarrow> string" where
  "str_opt_to_str F v =
     (case v of None \<Rightarrow> ''null'' | Some s \<Rightarrow> F [CHR 0x22, CHR ''{'', CHR ''}'', CHR 0x22] [FStr s])"

definition num_opt_to_str :: "fmt_call \<Rightarrow> ('n \<Rightarrow> fmt_arg) \<Rightarrow> 'n option \<Rightarrow> string" where
  "num_opt_to_str F arg v = (case v of None \<Rightarrow> ''null'' | Some n \<Rightarrow> F ''{}'' [arg n])"

definition arr_opt_to_str :: "fmt_call \<Rightarrow> ('n \<Rightarrow> fmt_arg) \<Rightarrow> 'n list option \<Rightarrow> string" where
  "arr_opt_to_str F arg v =
     (case v of None \<Rightarrow> ''null'' | Some ns \<Rightarrow> F ''[{}]'' [FJoin (map arg ns) '','']) "

definition vec_opt_to_str :: "fmt_call \<Rightarrow> ('n \<Rightarrow> string) \<Rightarrow> 'n list option \<Rightarrow> string" where
  "vec_opt_to_str F show v =
     (case v of None \<Rightarrow> ''null'' | Some ns \<Rightarrow> F ''[{}]'' [FJoin (map (\<lambda>n. FObj (show n)) ns) '',''])"

definition obj_opt_to_str :: "fmt_call \<Rightarrow> ('n \<Rightarrow> string) \<Rightarrow> 'n option \<Rightarrow> string" where
  "obj_opt_to_str F show v = (case v of None \<Rightarrow> ''null'' | Some n \<Rightarrow> F ''{}'' [FObj (show n)])"

text \<open>std::to_string of an optional unsigned number.\<close>

definition to_string_opt :: "'w::len word option \<Rightarrow> string" where
  "to_string_opt v = (case v of None \<Rightarrow> ''null'' | Some w \<Rightarrow> show_nat (unat w))"

section \<open>Configuration\<close>

definition format_static_ip :: "fmt_call \<Rightarrow> device_static_ip_data \<Rightarrow> string" where
  "format_static_ip F d =
     F (text_lines [''DeviceStaticIpData{{'', ''  enabled={},'', ''  ip_address={},'',
          ''  subnet_mask={},'', ''  gateway={}'', ''}}''])
       [FStr (bool_opt_to_str (si_enabled d)), FStr (str_opt_to_str F (si_ip_address d)),
        FStr (str_opt_to_str F (si_subnet_mask d)), FStr (str_opt_to_str F (si_gateway d))]"

definition format_device_wifi_direct :: "fmt_call \<Rightarrow> device_wifi_direct_data \<Rightarrow> string" where
  "format_device_wifi_direct F d =
     F (text_lines [''DeviceConnectivityWifiDirectData{{'', ''  enabled={},'', ''  ssid={},'',
          ''  passphrase={},'', ''  channel={},'', ''  ip_address={}'', ''}}''])
       [FStr (bool_opt_to_str (dw_enabled d)), FStr (str_opt_to_str F (dw_ssid d)),
        FStr (str_opt_to_str F (dw_passphrase d)), FStr (to_string_opt (dw_channel d)),
        FStr (str_opt_to_str F (dw_ip_address d))]"

definition format_ethernet :: "fmt_call \<Rightarrow> device_ethernet_data \<Rightarrow> string" where
  "format_ethernet F d =
     F (text_lines [''DeviceConnectivityEthernetData{{'', ''  enabled={},'', ''  static_ip={}'', ''}}''])
       [FStr (bool_opt_to_str (de_enabled d)),
        FStr (obj_opt_to_str F (format_static_ip F) (de_static_ip d))]"

definition format_bluetooth :: "fmt_call \<Rightarrow> device_bluetooth_data \<Rightarrow> string" where
  "format_bluetooth F d =
     F (text_lines [''DeviceConnectivityBluetoothData{{'', ''  enabled={},'', ''  name={},'',
          ''  password={}'', ''}}''])
       [FStr (bool_opt_to_str (db_enabled d)), FStr (str_opt_to_str F (db_name d)),
        FStr (str_opt_to_str F (db_password d))]"

definition format_connectivity :: "fmt_call \<Rightarrow> device_connectivity_data \<Rightarrow> string" where
  "format_connectivity F d =
     F (text_lines [''DeviceConnectivityData{{'', ''  wifi_direct={},'', ''  ethernet={},'',
          ''  bluetooth={}'', ''}}''])
       [FStr (obj_opt_to_str F (format_device_wifi_direct F) (dc_wifi_direct d)),
        FStr (obj_opt_to_str F (format_ethernet F) (dc_ethernet d)),
        FStr (obj_opt_to_str F (format_bluetooth F) (dc_bluetooth d))]"

definition format_device :: "fmt_call \<Rightarrow> device_data \<Rightarrow> string" where
  "format_device F d =
     F (text_lines [''DeviceData{{'', ''  name={},'', ''  model={},'', ''  version={},'',
          ''  serial_number={},'', ''  manufacturer={},'', ''  timezone={},'', ''  timestamp={},'',
          ''  connectivity={}'', ''}}''])
       [FStr (str_opt_to_str F (dd_name d)), FStr (str_opt_to_str F (dd_model d)),
        FStr (str_opt_to_str F (dd_version d)), FStr (str_opt_to_str F (dd_serial_number d)),
        FStr (str_opt_to_str F (dd_manufacturer d)), FStr (str_opt_to_str F (dd_timezone d)),
        FStr (str_opt_to_str F (dd_timestamp d)),
        FStr (obj_opt_to_str F (format_connectivity F) (dd_connectivity d))]"

definition format_storage :: "fmt_call \<Rightarrow> storage_data \<Rightarrow> string" where
  "format_storage F d =
     F (text_lines [''StorageData{{'', ''  log={},'', ''  video={},'', ''  snapshots={},'',
          ''  thumbnails={},'', ''  min_free_bytes={}'', ''}}''])
       [FStr (str_opt_to_str F (sd_log d)), FStr (str_opt_to_str F (sd_video d)),
        FStr (str_opt_to_str F (sd_snapshots d)), FStr (str_opt_to_str F (sd_thumbnails d)),
        FStr (to_string_opt (sd_min_free_bytes d))]"

definition format_wifi_direct :: "fmt_call \<Rightarrow> wifi_direct_data \<Rightarrow> string" where
  "format_wifi_direct F d =
     F (text_lines [''WifiDirectData{{'', ''  enabled={},'', ''  ssid={},'', ''  passphrase={},'',
          ''  channel={},'', ''  ip_address={}'', ''}}''])
       [FStr (bool_opt_to_str (wd_enabled d)), FStr (str_opt_to_str F (wd_ssid d)),
        FStr (str_opt_to_str F (wd_passphrase d)), FStr (to_string_opt (wd_channel d)),
        FStr (str_opt_to_str F (wd_ip_address d))]"

definition format_camera_device :: "fmt_call \<Rightarrow> calibration_camera_device_data \<Rightarrow> string" where
  "format_camera_device F d =
     F (text_lines [''CalibrationCameraDeviceData{{'', ''  id={},'', ''  intrinsic_matrix={},'',
          ''  distortion_coefficients={},'', ''  last_calibration_date={}'', ''}}''])
       [FStr (num_opt_to_str F fword (cd_id d)),
        FStr (arr_opt_to_str F FFloat (cd_intrinsic_matrix d)),
        FStr (arr_opt_to_str F FFloat (cd_distortion_coefficients d)),
        FStr (str_opt_to_str F (cd_last_calibration_date d))]"

definition format_cameras :: "fmt_call \<Rightarrow> calibration_cameras_data \<Rightarrow> string" where
  "format_cameras F d =
     F (text_lines [''CalibrationCamerasData{{'', ''  exposure={},'', ''  gain={},'',
          ''  white_balance={},'', ''  focus={},'', ''  width={},'', ''  height={},'',
          ''  format={},'', ''  fps={},'', ''  device={}'', ''}}''])
       [FStr (num_opt_to_str F fword (calibration_cameras_data.cc_exposure d)), FStr (num_opt_to_str F FFloat (calibration_cameras_data.cc_gain d)),
        FStr (num_opt_to_str F fword (calibration_cameras_data.cc_white_balance d)), FStr (num_opt_to_str F fword (calibration_cameras_data.cc_focus d)),
        FStr (num_opt_to_str F fword (calibration_cameras_data.cc_width d)), FStr (num_opt_to_str F fword (calibration_cameras_data.cc_height d)),
        FStr (num_opt_to_str F fword (calibration_cameras_data.cc_format d)),
        FStr (num_opt_to_str F fword (calibration_cameras_data.cc_fps d)),
        FStr (vec_opt_to_str F (format_camera_device F) (calibration_cameras_data.cc_device d))]"

definition format_microphone_device :: "fmt_call \<Rightarrow> calibration_microphone_device_data \<Rightarrow> string" where
  "format_microphone_device F d =
     F (text_lines [''CalibrationMicrophoneDeviceData{{'', ''  id={},'', ''  sensitivity={},'',
          ''  last_calibration_date={}'', ''}}''])
       [FStr (num_opt_to_str F fword (md_id d)), FStr (num_opt_to_str F FFloat (md_sensitivity d)),
        FStr (str_opt_to_str F (md_last_calibration_date d))]"

definition format_microphones :: "fmt_call \<Rightarrow> calibration_microphones_data \<Rightarrow> string" where
  "format_microphones F d =
     F (text_lines [''CalibrationMicrophonesData{{'', ''  noise_reduction={},'', ''  device={}'', ''}}''])
       [FStr (bool_opt_to_str (mc_noise_reduction d)),
        FStr (vec_opt_to_str F (format_microphone_device F) (mc_device d))]"

definition format_calibration :: "fmt_call \<Rightarrow> calibration_data \<Rightarrow> string" where
  "format_calibration F d =
     F (text_lines [''CalibrationData{{'', ''  cameras={},'', ''  microphones={}'', ''}}''])
       [FStr (obj_opt_to_str F (format_cameras F) (cal_cameras d)),
        FStr (obj_opt_to_str F (format_microphones F) (cal_microphones d))]"

definition format_config :: "fmt_call \<Rightarrow> config_data \<Rightarrow> string" where
  "format_config F d =
     F (text_lines [''ConfigData{{'', ''  calibration={},'', ''  device={},'', ''  storage={},'',
          ''  wifi_direct={}'', ''}}''])
       [FObj (format_calibration F (cfg_calibration d)), FObj (format_device F (cfg_device d)),
        FObj (format_storage F (cfg_storage d)), FObj (format_wifi_direct F (cfg_wifi_direct d))]"

section \<open>Session and recording\<close>

definition format_live_match :: "fmt_call \<Rightarrow> live_match \<Rightarrow> string" where
  "format_live_match F m =
     F ''LiveMatch{{score={}-{}, period={}, clock={}s, running={}, segment={}}}''
       [fword (lm_score_a m), fword (lm_score_b m), fword (lm_period m), fword (lm_clock_seconds m),
        FBool (lm_clock_running m),
        FInt (case lm_segment m of InPlay \<Rightarrow> 0 | HalfTime \<Rightarrow> 1 | FullTime \<Rightarrow> 2)]"

definition format_session_config :: "fmt_call \<Rightarrow> session_config \<Rightarrow> string" where
  "format_session_config F c =
     F (''SessionConfig{{match={}, user={}, sport={}, periods={}x{}s, '' @
        ''teams=[{}|{} vs {}|{}], video={}, thumb={}}}'')
       [FStr (sc_match_uuid c), FStr (sc_user_uuid c), FStr (sc_sport c), fsigned (sc_num_periods c),
        fsigned (sc_period_length_seconds c), FStr (sc_team_a_name c), FStr (sc_team_a_id c),
        FStr (sc_team_b_name c), FStr (sc_team_b_id c), FStr (sc_video_output_path c),
        FStr (sc_thumbnail_output_path c)]"

fun session_phase_name :: "session_phase \<Rightarrow> string" where
  "session_phase_name Idle = ''Idle''"
| "session_phase_name Connected = ''Connected''"
| "session_phase_name WifiReady = ''WifiReady''"
| "session_phase_name Configured = ''Configured''"
| "session_phase_name Ready = ''Ready''"
| "session_phase_name Recording = ''Recording''"

definition format_session_phase :: "fmt_call \<Rightarrow> session_phase \<Rightarrow> string" where
  "format_session_phase F p = F ''{}'' [FStr (session_phase_name p)]"

definition format_session_state :: "fmt_call \<Rightarrow> session_state \<Rightarrow> string" where
  "format_session_state F s =
     F ''SessionState{{phase={}, '' [FObj (format_session_phase F (ss_phase s))] @
     (case ss_config s of
        Some c \<Rightarrow> F ''config={}, '' [FObj (format_session_config F c)]
      | None \<Rightarrow> F ''config=<none>, '' []) @
     F ''match={}}}'' [FObj (format_live_match F (ss_match s))]"

fun recording_state_name :: "recording_state \<Rightarrow> string" where
  "recording_state_name RecIdle = ''Idle''"
| "recording_state_name RecRecording = ''Recording''"
| "recording_state_name RecPaused = ''Paused''"

definition format_recording_state :: "fmt_call \<Rightarrow> recording_state \<Rightarrow> string" where
  "format_recording_state F s = F ''{}'' [FStr (recording_state_name s)]"

definition format_raw_identity :: "fmt_call \<Rightarrow> raw_capture_identity \<Rightarrow> string" where
  "format_raw_identity F i =
     F ''RawCaptureIdentity{{group={}, camera_index={}}}''
       [FStr (rci_capture_group_id i), fword (rci_camera_index i)]"

section \<open>Streams and network\<close>

definition quoted_field :: "string \<Rightarrow> string" where
  "quoted_field name = name @ [CHR ''='', CHR 0x22, CHR ''{'', CHR ''}'', CHR 0x22, CHR '','']"

definition format_app_stream :: "fmt_call \<Rightarrow> app_stream_config \<Rightarrow> string" where
  "format_app_stream F c =
     F (text_lines [''AppStreamConfig{{'', quoted_field ''  mount_point'', ''  port={},'',
          ''  width={},'', ''  height={},'', ''  framerate={},'', ''  bitrate_kbps={}'', ''}}''])
       [FStr (ac_mount_point c), fword (ac_port c), fword (ac_width c), fword (ac_height c),
        fword (ac_framerate c), fword (ac_bitrate_kbps c)]"

definition format_stream_type :: "fmt_call \<Rightarrow> platform_stream_type \<Rightarrow> string" where
  "format_stream_type F t = F ''{}'' [FInt (case t of Rtmp \<Rightarrow> 0 | RtmpS \<Rightarrow> 1)]"

definition format_stream_codec :: "fmt_call \<Rightarrow> platform_stream_codec \<Rightarrow> string" where
  "format_stream_codec F c = F ''{}'' [FInt (case c of H264 \<Rightarrow> 0 | H265 \<Rightarrow> 1)]"

definition format_platform_stream :: "fmt_call \<Rightarrow> platform_stream_config \<Rightarrow> string" where
  "format_platform_stream F c =
     F (text_lines [''PlatformStreamConfig{{'', ''  stream_id={},'', quoted_field ''  name'',
          ''  type={},'', quoted_field ''  url'', quoted_field ''  stream_key'', ''  codec={},'',
          ''  width={},'', ''  height={},'', ''  framerate={},'', ''  bitrate_kbps={}'', ''}}''])
       [FInt (pc_stream_id c), FStr (pc_name c), FObj (format_stream_type F (pc_type c)),
        FStr (pc_url c), FStr (pc_stream_key c), FObj (format_stream_codec F (pc_codec c)),
        fsigned (pc_width c), fsigned (pc_height c), fsigned (pc_framerate c),
        fsigned (pc_bitrate_kbps c)]"

definition format_download_token :: "fmt_call \<Rightarrow> download_token \<Rightarrow> string" where
  "format_download_token F t =
     F ''DownloadToken{{recording={}, expires_at={}}}''
       [FStr (dt_recording_id t), fword (dt_expires_at_unix t)]"

definition format_recording_summary :: "fmt_call \<Rightarrow> recording_summary \<Rightarrow> string" where
  "format_recording_summary F s =
     F (''RecordingSummary{{id={}, size={} bytes, started_at={}, '' @
        ''duration={}s, thumbnail={}, is_raw={}, camera_index={}, group={}}}'')
       [FStr (rsm_recording_id s), fword (rsm_size_bytes s), fword (rsm_started_at_unix s),
        fword (rsm_duration_s s), FStr (rsm_thumbnail_id s), FBool (rsm_is_raw s),
        fword (rsm_camera_index s), FStr (rsm_capture_group_id s)]"

definition format_wifi_group :: "fmt_call \<Rightarrow> wifi_direct_group \<Rightarrow> string" where
  "format_wifi_group F g =
     F (''WifiDirectGroup{{ssid={}, psk=<{} chars>, iface={}, go_ip={}, '' @ ''role={}}}'')
       [FStr (wg_ssid g), fsize (wg_psk g), FStr (wg_group_interface g),
        FStr (wg_group_owner_ip g), FStr (wg_role g)]"

definition format_correlation_id :: "fmt_call \<Rightarrow> string \<Rightarrow> string" where
  "format_correlation_id F cid = F ''CorrelationId{{{}}}'' [FStr cid]"

definition format_preview_port :: "fmt_call \<Rightarrow> u32 \<Rightarrow> string" where
  "format_preview_port F p = F ''PreviewPort{{{}}}'' [fword p]"

definition format_download_port :: "fmt_call \<Rightarrow> u32 \<Rightarrow> string" where
  "format_download_port F p = F ''DownloadPort{{{}}}'' [fword p]"

definition format_system_stats :: "fmt_call \<Rightarrow> system_stats \<Rightarrow> string" where
  "format_system_stats F s =
     F (''SystemStats{{storage={}/{} bytes, temp={:.1f}C, ram={:.1f}%, cpu={:.1f}%, '' @
        ''uptime={}s, battery={}%}}'')
       [fword (sy_storage_free_bytes s), fword (sy_storage_total_bytes s), FFloat (sy_temp_celsius s),
        FFloat (sy_ram_used_pct s), FFloat (sy_cpu_used_pct s), fword (sy_uptime_seconds s),
        fword (sy_battery_level_pct s)]"

section \<open>Overlay\<close>

fun shape_name :: "overlay_shape \<Rightarrow> string" where
  "shape_name ShapeRect = ''Rect''"
| "shape_name ShapeText = ''Text''"
| "shape_name ShapeCircle = ''Circle''"
| "shape_name ShapeUnknown = ''Unknown''"

fun binding_name :: "overlay_binding \<Rightarrow> string" where
  "binding_name BindStatic = ''Static''"
| "binding_name BindScoreA = ''ScoreA''"
| "binding_name BindScoreB = ''ScoreB''"
| "binding_name BindScoreVs = ''ScoreVs''"
| "binding_name BindTeamAName = ''TeamAName''"
| "binding_name BindTeamBName = ''TeamBName''"
| "binding_name BindMatchClock = ''MatchClock''"
| "binding_name BindPeriodLabel = ''PeriodLabel''"

fun align_name :: "text_align \<Rightarrow> string" where
  "align_name AlignLeft = ''Left''"
| "align_name AlignCenter = ''Center''"
| "align_name AlignRight = ''Right''"

definition weight_name :: "font_weight \<Rightarrow> string" where
  "weight_name w = (if w = WeightBold then ''Bold'' else ''Normal'')"

fun period_state_name :: "period_label_state \<Rightarrow> string" where
  "period_state_name PeriodInPlay = ''InPlay''"
| "period_state_name PeriodHalfTime = ''HalfTime''"
| "period_state_name PeriodFullTime = ''FullTime''"

text \<open>SST_OVERLAY_ENUM_FORMATTER.\<close>

definition format_enum :: "fmt_call \<Rightarrow> ('e \<Rightarrow> string) \<Rightarrow> 'e \<Rightarrow> string" where
  "format_enum F name v = F ''{}'' [FStr (name v)]"

definition format_overlay_rect :: "fmt_call \<Rightarrow> overlay_rect \<Rightarrow> string" where
  "format_overlay_rect F r =
     F ''Rect{{({},{})-({},{}) z={}}}''
       [FFloat (or_x1 r), FFloat (or_y1 r), FFloat (or_x2 r), FFloat (or_y2 r), fword (or_z r)]"

definition format_overlay_style :: "fmt_call \<Rightarrow> overlay_style \<Rightarrow> string" where
  "format_overlay_style F s =
     F (''Style{{fill={}, text={}, opacity={}, radius={}, font={}'' @ CHR 0x40 # ''{}, '' @
        ''align={}, weight={}, static='' @
        [CHR 0x22, CHR ''{'', CHR ''}'', CHR 0x22, CHR ''}'', CHR ''}''])
       [FStr (oy_fill_color s), FStr (oy_text_color s), FFloat (oy_opacity s),
        FFloat (oy_corner_radius s), FStr (oy_font_family s), FFloat (oy_font_size s),
        FObj (format_enum F align_name (oy_text_align s)),
        FObj (format_enum F weight_name (oy_font_weight s)), FStr (oy_static_text s)]"

definition format_overlay_element :: "fmt_call \<Rightarrow> overlay_element \<Rightarrow> string" where
  "format_overlay_element F e =
     F ''Element{{id={}, shape={}, binding={}, visible={}, {}}}''
       [FStr (oe_id e), FObj (format_enum F shape_name (oe_shape e)),
        FObj (format_enum F binding_name (oe_binding e)), FBool (oe_visible e),
        FObj (format_overlay_rect F (oe_bounds e))]"

definition format_overlay_template :: "fmt_call \<Rightarrow> overlay_template \<Rightarrow> string" where
  "format_overlay_template F t =
     F ''Template{{event={}, duration_ms={}, elements={}}}''
       [FStr (ot_event_type t), fword (ot_duration_ms t), fsize (ot_elements t)]"

definition format_overlay_layout :: "fmt_call \<Rightarrow> overlay_layout \<Rightarrow> string" where
  "format_overlay_layout F l =
     F ''Layout{{canvas={}x{}, elements={}, templates={}}}''
       [fword (ol_canvas_width l), fword (ol_canvas_height l), fsize (ol_elements l),
        fsize (ol_templates l)]"

definition format_render_element :: "fmt_call \<Rightarrow> render_element \<Rightarrow> string" where
  "format_render_element F e =
     F (''RenderElement{{shape={}, text='' @
        [CHR 0x22, CHR ''{'', CHR ''}'', CHR 0x22] @ '', {}}}'')
       [FObj (format_enum F shape_name (re_shape e)), FStr (re_text e),
        FObj (format_overlay_rect F (re_bounds e))]"

definition format_render_scene :: "fmt_call \<Rightarrow> render_scene \<Rightarrow> string" where
  "format_render_scene F s =
     F ''RenderScene{{canvas={}x{}, elements={}}}''
       [fword (rsc_canvas_width s), fword (rsc_canvas_height s), fsize (rsc_elements s)]"

definition format_rgba_image :: "fmt_call \<Rightarrow> rgba_image \<Rightarrow> string" where
  "format_rgba_image F i =
     F ''RgbaImage{{{}x{} stride={} bytes={}}}''
       [fword (ri_width i), fword (ri_height i), fword (ri_stride i), fsize (ri_pixels i)]"

section \<open>Frames, processing and buffers\<close>

definition format_output_size :: "fmt_call \<Rightarrow> output_size \<Rightarrow> string" where
  "format_output_size F s =
     F ''OutputSize{{width={}, height={}}}'' [fword (osz_width s), fword (osz_height s)]"

definition format_pixel_format :: "fmt_call \<Rightarrow> pixel_format \<Rightarrow> string" where
  "format_pixel_format F p = F ''{}'' [FStr (pixel_format_to_string p)]"

definition format_color_mode :: "fmt_call \<Rightarrow> color_mode \<Rightarrow> string" where
  "format_color_mode F m = F ''{}'' [FStr (color_mode_to_string m)]"

definition format_crop_rect :: "fmt_call \<Rightarrow> crop_rect \<Rightarrow> string" where
  "format_crop_rect F r =
     F ''CropRect{{x={}, y={}, w={}, h={}}}''
       [fword (cr_x r), fword (cr_y r), fword (cr_width r), fword (cr_height r)]"

definition format_frame_bundle :: "fmt_call \<Rightarrow> frame_bundle \<Rightarrow> string" where
  "format_frame_bundle F b =
     F ''FrameBundle{{src={}x{} {} id={}, ai={}x{} {}}}''
       [fword (fg_width (fr_geometry (fb_source b))), fword (fg_height (fr_geometry (fb_source b))),
        FObj (format_pixel_format F (fr_format (fb_source b))), fword (fr_id (fb_source b)),
        fword (fg_width (fr_geometry (fb_ai b))), fword (fg_height (fr_geometry (fb_ai b))),
        FObj (format_pixel_format F (fr_format (fb_ai b)))]"

definition format_postprocess_config :: "fmt_call \<Rightarrow> postprocess_config \<Rightarrow> string" where
  "format_postprocess_config F c =
     F (text_lines [''PostprocessConfig{{'', ''  output_width={},'', ''  output_height={},'',
          ''  output_format={}'', ''}}''])
       [fword (qc_width c), fword (qc_height c), FObj (format_pixel_format F (qc_format c))]"

definition format_preprocess_config :: "fmt_call \<Rightarrow> preprocess_config \<Rightarrow> string" where
  "format_preprocess_config F c =
     F (text_lines [''PreprocessConfig{{'', ''  ai_width={},'', ''  ai_height={},'',
          ''  ai_color_mode={},'', ''  binary_threshold={}'', ''}}''])
       [fword (pc_ai_width c), fword (pc_ai_height c), FObj (format_color_mode F (pc_color_mode c)),
        fword (pc_threshold c)]"

definition format_camera_choice :: "fmt_call \<Rightarrow> camera_choice \<Rightarrow> string" where
  "format_camera_choice F c =
     F ''CameraChoice{{camera_index={}, crop={}}}''
       [fword (ch_index c), FObj (format_crop_rect F (ch_crop c))]"

fun buffer_policy_name :: "buffer_policy \<Rightarrow> string" where
  "buffer_policy_name LatestOnly = ''LatestOnly''"
| "buffer_policy_name DropOldest = ''DropOldest''"

definition format_buffer_policy :: "fmt_call \<Rightarrow> buffer_policy \<Rightarrow> string" where
  "format_buffer_policy F p = F ''{}'' [FStr (buffer_policy_name p)]"

definition format_buffer_stats :: "fmt_call \<Rightarrow> buffer_stats \<Rightarrow> string" where
  "format_buffer_stats F s =
     F (text_lines [''BufferStats{{'', ''  policy={},'', ''  capacity={},'', ''  depth={},'',
          ''  pushed={},'', ''  popped={},'', ''  dropped={}'', ''}}''])
       [FObj (format_buffer_policy F (bs_policy s)), FInt (int (bs_capacity s)),
        FInt (int (bs_depth s)), fword (bs_pushed s), fword (bs_popped s), fword (bs_dropped s)]"

section \<open>What the texts tell\<close>

lemma str_opt_text:
  assumes "fmt_documented F"
  shows "str_opt_to_str F (Some s) = CHR 0x22 # s @ [CHR 0x22]"
  by (simp add: str_opt_to_str_def fmt_text [OF assms])

text \<open>The quotes keep a string apart from the word null.\<close>

lemma str_opt_inj:
  assumes "fmt_documented F" "str_opt_to_str F a = str_opt_to_str F b"
  shows "a = b"
  using assms(2) str_opt_text [OF assms(1)]
  by (cases a; cases b) (auto simp: str_opt_to_str_def)

lemma to_string_opt_inj: "to_string_opt a = to_string_opt (b :: 'w::len word option) \<Longrightarrow> a = b"
proof -
  have "show_nat n \<noteq> ''null''" for n
    using show_nat_digits [of n] by (auto simp: is_digit_def)
  then show "to_string_opt a = to_string_opt b \<Longrightarrow> a = b"
    by (cases a; cases b)
      (auto simp: to_string_opt_def word_unat_eq_iff dest: show_nat_inj dest: sym)
qed

definition in_quotes :: "string \<Rightarrow> string" where
  "in_quotes s = CHR 0x22 # s @ [CHR 0x22]"

lemma str_opt_text_quotes: "fmt_documented F \<Longrightarrow> str_opt_to_str F (Some s) = in_quotes s"
  by (simp add: str_opt_text in_quotes_def)

lemma show_digit: "show_nat 0 = ''0''" "show_nat (Suc 0) = ''1''"
  by (simp_all add: show_nat.simps digit_char_def char_of_def bit_simps)

lemma platform_stream_text:
  assumes "fmt_documented F"
  shows "format_platform_stream F c = text_lines
    [''PlatformStreamConfig{'',
     ''  stream_id='' @ show_int (pc_stream_id c) @ '','',
     ''  name='' @ in_quotes (pc_name c) @ '','',
     ''  type='' @ (if pc_type c = Rtmp then ''0'' else ''1'') @ '','',
     ''  url='' @ in_quotes (pc_url c) @ '','',
     ''  stream_key='' @ in_quotes (pc_stream_key c) @ '','',
     ''  codec='' @ (if pc_codec c = H264 then ''0'' else ''1'') @ '','',
     ''  width='' @ show_int (sint (pc_width c)) @ '','',
     ''  height='' @ show_int (sint (pc_height c)) @ '','',
     ''  framerate='' @ show_int (sint (pc_framerate c)) @ '','',
     ''  bitrate_kbps='' @ show_int (sint (pc_bitrate_kbps c)),
     ''}'']"
proof -
  have "format_stream_type F (pc_type c) = (if pc_type c = Rtmp then ''0'' else ''1'')"
    by (simp add: format_stream_type_def fmt_text [OF assms] show_int_def show_digit
        split: platform_stream_type.split)
  moreover have "format_stream_codec F (pc_codec c) = (if pc_codec c = H264 then ''0'' else ''1'')"
    by (simp add: format_stream_codec_def fmt_text [OF assms] show_int_def show_digit
        split: platform_stream_codec.split)
  ultimately show ?thesis
    unfolding format_platform_stream_def
    by (intro fmt_text [OF assms]) (simp add: quoted_field_def fsigned_def in_quotes_def newline_def)
qed

lemma wifi_direct_text:
  assumes "fmt_documented F" "wd_passphrase d = Some k"
  shows "format_wifi_direct F d = text_lines
    [''WifiDirectData{'', ''  enabled='' @ bool_opt_to_str (wd_enabled d) @ '','',
     ''  ssid='' @ str_opt_to_str F (wd_ssid d) @ '','', ''  passphrase='' @ in_quotes k @ '','',
     ''  channel='' @ to_string_opt (wd_channel d) @ '','',
     ''  ip_address='' @ str_opt_to_str F (wd_ip_address d), ''}'']"
  unfolding format_wifi_direct_def
  by (intro fmt_text [OF assms(1)]) (simp add: assms(2) str_opt_text_quotes [OF assms(1)] newline_def)

lemma line_shown: "l \<in> set ls \<Longrightarrow> sublist l (text_lines ls)"
proof (induction ls rule: text_lines.induct)
  case (3 a b ls)
  show ?case
  proof (cases "l = a")
    case False
    then have "sublist l (text_lines (b # ls))" using 3 by simp
    then show ?thesis
      by (metis append_Cons append_Nil append_assoc sublist_appendI sublist_def text_lines.simps(3))
  qed (simp add: sublist_appendI prefix_imp_sublist)
qed simp_all

section \<open>Properties\<close>

text \<open>C38: What the log shows of the secrets.  Of the passphrase of a WiFi group only its length, of
  a download token and of the stream key and address in a session's configuration nothing; but the
  text of a platform stream, which StartPlatformStream logs when the stream starts, holds the
  stream key in quotes, and the text of the WiFi configuration the passphrase.\<close>

theorem log_secrets:
  assumes "fmt_documented F" "wd_passphrase d = Some pass"
  shows "format_wifi_group G (g\<lparr>wg_psk := k\<rparr>) =
      format_wifi_group G (g\<lparr>wg_psk := replicate (length k) (CHR ''*'')\<rparr>) \<and>
    format_download_token G (t\<lparr>dt_token := k\<rparr>) = format_download_token G t \<and>
    format_session_config G (c\<lparr>sc_rtmp_url := u, sc_stream_key := k\<rparr>) = format_session_config G c \<and>
    sublist (''stream_key='' @ in_quotes (pc_stream_key p)) (format_platform_stream F p) \<and>
    sublist (''passphrase='' @ in_quotes pass) (format_wifi_direct F d)"
proof (intro conjI)
  have shown: "sublist x (text_lines ls)" if "''  '' @ x @ '','' \<in> set ls" for x :: string and ls
    using line_shown [OF that] by (meson sublist_appendI sublist_order.order_trans)
  show "sublist (''stream_key='' @ in_quotes (pc_stream_key p)) (format_platform_stream F p)"
    unfolding platform_stream_text [OF assms(1)] by (rule shown) simp
  show "sublist (''passphrase='' @ in_quotes pass) (format_wifi_direct F d)"
    unfolding wifi_direct_text [OF assms] by (rule shown) simp
qed (simp_all add: format_wifi_group_def format_download_token_def format_session_config_def fsize_def)

text \<open>A library that does what is documented and writes nothing where that says nothing.\<close>

definition plain_fmt :: fmt_call where
  "plain_fmt t xs = (case expand t xs of Some s \<Rightarrow> s | None \<Rightarrow> [])"

lemma plain_fmt_documented: "fmt_documented plain_fmt"
  by (simp add: fmt_documented_def plain_fmt_def)

theorem log_secrets_witness:
  "sublist (''stream_key='' @ in_quotes ''live'')
      (format_platform_stream plain_fmt (platform_stream_config_default\<lparr>pc_stream_key := ''live''\<rparr>)) \<and>
   sublist (''passphrase='' @ in_quotes ''12345678'')
      (format_wifi_direct plain_fmt (wifi_direct_data_default\<lparr>wd_passphrase := Some ''12345678''\<rparr>))"
  using log_secrets [OF plain_fmt_documented,
      of "wifi_direct_data_default\<lparr>wd_passphrase := Some ''12345678''\<rparr>" "''12345678''" plain_fmt _ _ _ _ _
        "platform_stream_config_default\<lparr>pc_stream_key := ''live''\<rparr>"]
  by simp

end
