(* ===== verification/Spec2Isabelle.thy ===== *)
theory Spec2Isabelle
  imports Buffers Chunks Frames Session Recording Streaming Download OverlayProps Wifi RawSink Config Control Handlers System SystemProps Lifecycle Commands DownloadFlow Compositor PipelineFlow FrameJourney ControlPlane Firmware Renderer OverlayFlow StillImages Snapshots ProcStats Formatters
begin

text \<open>
  Verification development of the strixcam camera firmware (the C++ sources under src/src).

  The program and how its parts interact

  The firmware is one process (\<^verbatim>\<open>main.cpp\<close>).  Two camera chains capture, preprocess and deep copy
  frames into one-element slots; a consumer thread takes the newest frame of camera 0, samples the
  other cameras, lets the decision choose, postprocesses the choice, blends the overlay over it,
  keeps it for snapshots and pushes it to a fan-out sink that feeds recording and streaming.  Beside
  it runs the control plane: an app connects over BLE, writes commands in chunks, and the transport
  reassembles, acknowledges and parses them and hands them to a dispatcher; eleven handlers act on
  the session manager, the recording service, the streaming service, the WiFi manager, the DHCP
  server, the download server, the raw capture sink and the overlay controller, and the reply goes
  back in chunks the app has to acknowledge one by one.  A disconnect resets all of it.

  Where what is modelled

  \<^item> Prelude: word types, lists, decimal printing, searching in strings.
  \<^item> Buffers: \<^verbatim>\<open>domain/buffer\<close>, the ring and the slot; their port IFrameBuffer is the locale
    frame_buffer, interpreted on both.
  \<^item> Frames: \<^verbatim>\<open>domain/capture/models\<close>, MaterializeFrame over an explicit memory (blocks of bytes),
    and the fan-out sink.
  \<^item> Capture: the GStreamer camera (\<^verbatim>\<open>adapters/capture\<close>); Processing: \<^verbatim>\<open>adapters/processing\<close>.
  \<^item> Compositor: \<^verbatim>\<open>domain/overlay/services/frame-compositor.cpp\<close>.
  \<^item> Pipeline, PipelineProps, PipelineStop, PipelineFlow, FrameJourney: \<^verbatim>\<open>app/pipeline\<close> and
    \<^verbatim>\<open>app/decision\<close>.  A thread is a program counter, a turn is one step of one thread between two points where another
    thread can come in, and a list of turns is an interleaving; the camera port is the locale
    camera_port, interpreted on the GStreamer cameras, the decision port the locale decision_port,
    interpreted on StaticDecision, and the threads share memory under the locale block_discipline,
    interpreted on the ports main wires up.
  \<^item> Overlay, OverlayProps: \<^verbatim>\<open>app/overlay\<close> and the models; Renderer: the Cairo renderer as the list of
    the drawing calls it makes, and the conversion of the pixels it reads back; OverlayFlow: what the
    controller needs from a renderer, the locale overlay_renderer, interpreted on the Cairo renderer,
    and the way of an overlay into the picture.
  \<^item> Session: \<^verbatim>\<open>app/session\<close>, with the locale cleanup_port, interpreted on the services in
    Lifecycle; Recording: \<^verbatim>\<open>app/storage\<close> and the GStreamer recorder, with the locale
    continuous_recorder; Streaming: \<^verbatim>\<open>app/streaming\<close>, the RTSP server and the RTMP streamer, with the
    locales app_server, platform_streamer and, extending both, streaming_ports.
  \<^item> Download: the catalog, the tokens and the HTTP endpoint; RawSink: raw capture with its writer
    threads turn by turn; StillImages: the JPEG encoder and the thumbnail writer; Snapshots: the
    thumbnail of the frame the consumer finished; DownloadFlow: the tokens over a history; Wifi:
    wpa_supplicant and dnsmasq; ProcStats: the statistics reader.
  \<^item> Config: the settings, their JSON readers and the identity of the device.
  \<^item> Control, Handlers: the messages, the dispatcher and the handlers; System: the device as main
    wires it, one record of all services, and its events; SystemProps, Lifecycle, Commands: its
    properties, with the locale handler_contract interpreted on the dispatcher of main.
  \<^item> Chunks: the chunk assembler; Transport, TransportProps: the BlueZ transport with its GATT
    objects; ControlPlane: the transport wired to the device.
  \<^item> Firmware: start and shutdown of the program; Formatters: the texts of the log.

  How the code is translated

  A class is a record of its members, a method a function from the state to its result and the new
  state.  A failure the code reports is None or False as in the code; what the C++ standard leaves
  undefined, and an exception nothing catches, is None, Crash or Undefined, so that a theorem that a
  call is defined says something.  Machine integers are words, with the wrap-around of the code;
  size_t is nat where it counts elements in memory.  A float is a rational or one of the special
  values, and its arithmetic, where it is used, an argument.

  What the lemmas show

  \<^item> The device (C1 to C6): how session and services are tied after every sequence of events, the
    session that follows the link, an answer for every command, start and shutdown, the exchange of a
    command in chunks, and the disconnect.
  \<^item> The pictures (C7 to C13): one frame from the sensor to the sink through the turns of producer
    and consumer, whatever turns come between them, the overlay in every picture,
    order and snapshot under every interleaving, the end of the threads, the rollback of a failed
    start, and what a restart does.
  \<^item> The protocols and services: chunk framing, session phases, recording as a refinement of one
    file, the ring as a refinement of a history, streams, tokens and who is served with them, raw capture, group
    events, the advertised name.
  \<^item> The images: the scene of a history with its banners, the size of the waiting overlay, compositing, rendering, colours,
    JPEG, cropping.
  \<^item> Commands and texts: recording, the match clock, what the log shows of secrets.

  Every property with a hypothesis has a witness, a theorem that applies it to a concrete input; those
  of the pipeline, which need a small device of cameras and processors, are in PipelineStop and
  FrameJourney.

  Bounds and fuel

  No function runs on fuel.  Loops over data are structural or have a measure (placeholder
  substitution, decimal digits); loops of threads are lists of turns, where every turn is one step:
  after Stop five turns of a producer and cameras + 6 turns of the consumer suffice
  (stop_ends_threads).  The reconnect loop is a list of rounds (rtmp_backoff), and a wait for a
  socket or the bus the list of what arrives.

  Not modelled, and why

  \<^item> The libraries (GStreamer, OpenCV, Cairo, Pango, sdbus-c++, httplib, nlohmann json, fmt) and the
    operating system: they are not in the repository.  Each is an argument: a record of its answers
    or functions, with the documented behaviour a theorem needs as a named hypothesis
    (cv_documented, still_documented, fmt_documented, double_units and the like).  These describe
    OpenCV with enough memory; of imencode, which has limits of its own, nothing is assumed.
  \<^item> The protobuf messages: the schema is a git submodule.  Messages are records of the fields the
    code reads and writes, parsing and serialization are arguments.
  \<^item> Real time and the memory model: time is the clock's answer, a turn is atomic where the code holds
    a lock or touches only its own state.  A BLE write is handled as a whole, without a Stop in
    between, and the transport's Stop is one step: a write that arrives after it ran the disconnect
    handler and before it left the event loop is not considered.
  \<^item> What the code only logs: the flow result of a buffer pushed into GStreamer and the outcome of
    the wait for the end of the stream.  A frame counts as written when it was handed over, a file
    as finalized when Stop is through with it.
  \<^item> As events of the device: RTSP clients that connect and rounds of the RTMP reconnect loop.  They
    are modelled in Streaming; on the device no platform stream ever runs (C1).
  \<^item> The start of a thread, which can fail, the pause of a producer without a frame, which is a turn
    back to its loop head, and main before its objects are built: main_start begins when the
    configuration was read.
  \<^item> The arrival of a signal: shutdown starts with it.
  \<^item> Log calls, apart from the texts of the values; constructors that only store references; the
    ports without code, which appear as the locales and records above; the legacy code
    under \<^verbatim>\<open>_old\<close>.
\<close>

end
